(* ===== verification/Fetcher_Prelude.thy ===== *)
theory Fetcher_Prelude
  imports Main "HOL-Library.Word" "HOL-Library.Multiset"
begin

unbundle bit_operations_syntax

text \<open>
  What every component of the development shares: the faults a C++ operation of the
  fetcher can end in, the result type \<open>fault + 'a\<close> with its sequencing operator, maps
  over vectors whose element operation may fault, \<open>int\<close> arithmetic at 32 bits, and
  generic list facts.
\<close>

section \<open>Faults and results\<close>

text \<open>
  \<^item> \<open>VectorOverflow\<close>: \<open>CrashOnOverflow\<close> or \<open>CRASH()\<close>, the controlled crash of a WTF container;
  \<^item> \<open>OutOfBounds\<close>: a read or write of memory outside the object it is made through;
  \<^item> \<open>SignedOverflow\<close>: signed arithmetic whose value is not an \<open>int\<close>;
  \<^item> \<open>NullDereference\<close>: a call through a null pointer;
  \<^item> \<open>AssertFailed\<close>: a failing \<open>g_assert\<close> or \<open>RELEASE_ASSERT\<close>, which aborts the process;
  \<^item> \<open>NonTermination\<close>: a loop that makes no progress and never ends.
\<close>

datatype fault =
  VectorOverflow | OutOfBounds | SignedOverflow | NullDereference | AssertFailed | NonTermination

type_synonym 'a res = "fault + 'a"

named_theorems res_simps \<open>evaluation of results and their sequencing\<close>
named_theorems latin1_intros \<open>operations that keep 8-bit strings 8-bit\<close>

definition bind_res :: "'a res \<Rightarrow> ('a \<Rightarrow> 'b res) \<Rightarrow> 'b res" where
  "bind_res m f = (case m of Inl e \<Rightarrow> Inl e | Inr x \<Rightarrow> f x)"

lemma bind_res_simps [simp, res_simps]:
  "bind_res (Inl e) f = Inl e"
  "bind_res (Inr x) f = f x"
  by (simp_all add: bind_res_def)

lemma bind_res_cong [fundef_cong]:
  assumes "m = m'" and "\<And>x. m' = Inr x \<Longrightarrow> f x = g x"
  shows "bind_res m f = bind_res m' g"
  using assms by (cases m') auto

lemma bind_res_Inr_iff:
  "bind_res m f = Inr y \<longleftrightarrow> (\<exists>x. m = Inr x \<and> f x = Inr y)"
  by (cases m) auto

lemma bind_res_Inl_iff:
  "bind_res m f = Inl e \<longleftrightarrow> m = Inl e \<or> (\<exists>x. m = Inr x \<and> f x = Inl e)"
  by (cases m) auto

lemma bind_res_assoc: "bind_res (bind_res m f) g = bind_res m (\<lambda>x. bind_res (f x) g)"
  by (cases m) auto

lemma bind_res_Inr_right [simp]: "bind_res m Inr = m"
  by (cases m) auto

text \<open>A computation that returns, with a value that satisfies a predicate.\<close>

definition yields :: "'a res \<Rightarrow> ('a \<Rightarrow> bool) \<Rightarrow> bool" where
  "yields m Q \<longleftrightarrow> (case m of Inl _ \<Rightarrow> False | Inr x \<Rightarrow> Q x)"

lemma yields_simps [simp]:
  "yields (Inr x) Q \<longleftrightarrow> Q x"
  "\<not> yields (Inl e) Q"
  by (simp_all add: yields_def)

lemma yields_bind [simp]: "yields (bind_res m f) Q \<longleftrightarrow> yields m (\<lambda>x. yields (f x) Q)"
  by (cases m) simp_all

lemma yields_mono: "yields m P \<Longrightarrow> (\<And>x. P x \<Longrightarrow> Q x) \<Longrightarrow> yields m Q"
  by (cases m) simp_all

lemma yields_if: "yields (if b then m else m') Q \<longleftrightarrow> (if b then yields m Q else yields m' Q)"
  by simp

lemma yieldsE: "yields m Q \<Longrightarrow> (\<And>x. m = Inr x \<Longrightarrow> Q x \<Longrightarrow> R) \<Longrightarrow> R"
  by (cases m) simp_all

section \<open>Vectors of results\<close>

text \<open>\<open>for (i) result.append(f(v[i]))\<close> and \<open>for (i) result.appendVector(f(v[i]))\<close>.\<close>

fun map_res :: "('a \<Rightarrow> 'b res) \<Rightarrow> 'a list \<Rightarrow> 'b list res" where
  "map_res f [] = Inr []"
| "map_res f (x # xs) = bind_res (f x) (\<lambda>y. bind_res (map_res f xs) (\<lambda>ys. Inr (y # ys)))"

fun concat_map_res :: "('a \<Rightarrow> 'b list res) \<Rightarrow> 'a list \<Rightarrow> 'b list res" where
  "concat_map_res f [] = Inr []"
| "concat_map_res f (x # xs) =
     bind_res (f x) (\<lambda>y. bind_res (concat_map_res f xs) (\<lambda>ys. Inr (y @ ys)))"

lemma map_res_cong [fundef_cong]:
  assumes "xs = ys" and "\<And>x. x \<in> set ys \<Longrightarrow> f x = g x"
  shows "map_res f xs = map_res g ys"
  unfolding assms(1) using assms(2) by (induction ys) auto

lemma concat_map_res_cong [fundef_cong]:
  assumes "xs = ys" and "\<And>x. x \<in> set ys \<Longrightarrow> f x = g x"
  shows "concat_map_res f xs = concat_map_res g ys"
  unfolding assms(1) using assms(2) by (induction ys) auto

lemma map_res_Inr_list_all2: "map_res f xs = Inr ys \<longleftrightarrow> list_all2 (\<lambda>x y. f x = Inr y) xs ys"
  by (induction xs arbitrary: ys) (auto simp: bind_res_Inr_iff list_all2_Cons1)

lemma map_res_length: "map_res f xs = Inr ys \<Longrightarrow> length ys = length xs"
  by (simp add: map_res_Inr_list_all2 list_all2_lengthD)

lemma map_res_pure [simp]: "map_res (\<lambda>x. Inr (g x)) xs = Inr (map g xs)"
  by (induction xs) auto

lemma map_res_total: "(\<And>x. x \<in> set xs \<Longrightarrow> f x = Inr (g x)) \<Longrightarrow> map_res f xs = Inr (map g xs)"
  by (induction xs) auto

lemma concat_map_res_total:
  "(\<And>x. x \<in> set xs \<Longrightarrow> f x = Inr (g x)) \<Longrightarrow> concat_map_res f xs = Inr (concat (map g xs))"
  by (induction xs) auto

lemma concat_map_res_pure [simp]: "concat_map_res (\<lambda>x. Inr (g x)) xs = Inr (concat (map g xs))"
  by (induction xs) auto

lemma concat_map_res_map_res:
  "concat_map_res f xs = bind_res (map_res f xs) (\<lambda>yss. Inr (concat yss))"
  by (induction xs) (auto simp: bind_res_assoc intro!: bind_res_cong)

lemma concat_map_res_append:
  "concat_map_res f (xs @ ys) =
     bind_res (concat_map_res f xs) (\<lambda>a. bind_res (concat_map_res f ys) (\<lambda>b. Inr (a @ b)))"
  by (induction xs) (auto simp: bind_res_assoc intro!: bind_res_cong)

lemma concat_map_res_set:
  assumes "concat_map_res f xs = Inr ys" and "y \<in> set ys"
  shows "\<exists>x zs. x \<in> set xs \<and> f x = Inr zs \<and> y \<in> set zs"
  using assms
proof (induction xs arbitrary: ys)
  case (Cons x xs)
  then obtain zs ws where "f x = Inr zs" "concat_map_res f xs = Inr ws" "ys = zs @ ws"
    by (auto simp: bind_res_Inr_iff)
  show ?case
  proof (cases "y \<in> set zs")
    case True
    with \<open>f x = Inr zs\<close> show ?thesis by (intro exI [of _ x] exI [of _ zs]) simp
  next
    case False
    with Cons.prems(2) \<open>ys = zs @ ws\<close> have "y \<in> set ws" by simp
    with Cons.IH [of ws] \<open>concat_map_res f xs = Inr ws\<close> show ?thesis by auto
  qed
qed simp

lemma map_res_set:
  assumes "map_res f xs = Inr ys" and "y \<in> set ys"
  shows "\<exists>x. x \<in> set xs \<and> f x = Inr y"
proof -
  from assms obtain i where "i < length ys" "y = ys ! i" by (auto simp: in_set_conv_nth)
  with assms(1) have "i < length xs" "f (xs ! i) = Inr y"
    by (auto simp: map_res_Inr_list_all2 list_all2_conv_all_nth)
  then show ?thesis by (intro exI [of _ "xs ! i"]) simp
qed

section \<open>The C type \<open>int\<close>\<close>

definition INT_MAX :: int where
  "INT_MAX = 2147483647"

definition INT_MIN :: int where
  "INT_MIN = - 2147483648"

definition int32 :: "int \<Rightarrow> int res" where
  "int32 n = (if INT_MIN \<le> n \<and> n \<le> INT_MAX then Inr n else Inl SignedOverflow)"

lemmas int_limits = INT_MAX_def INT_MIN_def

lemma int32_Inr_iff: "int32 n = Inr m \<longleftrightarrow> m = n \<and> INT_MIN \<le> n \<and> n \<le> INT_MAX"
  by (auto simp: int32_def)

lemma int32_in_range [simp]: "INT_MIN \<le> n \<Longrightarrow> n \<le> INT_MAX \<Longrightarrow> int32 n = Inr n"
  by (simp add: int32_def)

section \<open>C arrays\<close>

text \<open>C checks no index: a read or write outside the array is a fault.\<close>

definition array_at :: "'a list \<Rightarrow> nat \<Rightarrow> 'a res" where
  "array_at a i = (if i < length a then Inr (a ! i) else Inl OutOfBounds)"

definition array_modify :: "('a \<Rightarrow> 'a) \<Rightarrow> int \<Rightarrow> 'a list \<Rightarrow> 'a list res" where
  "array_modify f i a =
     (if 0 \<le> i \<and> i < int (length a) then Inr (a[nat i := f (a ! nat i)]) else Inl OutOfBounds)"

lemma array_at_simp [simp]: "i < length a \<Longrightarrow> array_at a i = Inr (a ! i)"
  by (simp add: array_at_def)

lemma array_modify_simp [simp]:
  "i < length a \<Longrightarrow> array_modify f (int i) a = Inr (a[i := f (a ! i)])"
  by (simp add: array_modify_def)

lemma array_modify_Inr_iff:
  "array_modify f i a = Inr b \<longleftrightarrow>
     0 \<le> i \<and> i < int (length a) \<and> b = a[nat i := f (a ! nat i)]"
  by (auto simp: array_modify_def)

section \<open>Bits\<close>

lemma high_or_low: "push_bit n (c div 2 ^ n) OR c mod 2 ^ n = (c :: nat)"
proof -
  have "push_bit n (drop_bit n c) OR take_bit n c = c"
    by (rule bit_eqI) (auto simp: bit_simps)
  then show ?thesis by (simp add: drop_bit_eq_div take_bit_eq_mod)
qed

lemma low_or_high:
  assumes "y < 2 ^ n"
  shows "y OR h * 2 ^ n = h * 2 ^ n + (y :: nat)"
  using high_or_low [of n "h * 2 ^ n + y"] assms by (simp add: push_bit_eq_mult or.commute)

lemma and_low_bits: "(x :: nat) AND (2 ^ n - 1) = x mod 2 ^ n"
  using take_bit_eq_mask [of n x] by (simp add: take_bit_eq_mod mask_eq_exp_minus_1)

section \<open>Lists\<close>

lemma length_dropWhile_Suc: "dropWhile P xs = y # ys \<Longrightarrow> length ys < length xs"
  using length_dropWhile_le [of P xs] by simp

lemma mset_filter_partition: "mset (filter P xs) + mset (filter (\<lambda>x. \<not> P x) xs) = mset xs"
  by (induction xs) auto

end
