(* ===== verification/Unicode_Lib.thy ===== *)
theory Unicode_Lib
  imports Fetcher_Prelude
begin

text \<open>
  The interface of ICU and GLib as the fetcher uses it. Neither library is part of the
  repository: its functions are the fields of a record that every definition using them
  takes as an argument, and the enumerations are the ones the GLib API documents.
  What a theorem needs of a library function is a hypothesis of that theorem.
\<close>

section \<open>Strings\<close>

text \<open>
  A \<open>String\<close> is the list of its code units (\<open>LChar\<close> units of an 8-bit string are
  below 256); a \<open>char*\<close> text is the list of its bytes before the terminating NUL.
  The null string is the empty one where the code does not distinguish them; where it does, the
  model has an option. Whether the units are stored in 8 or in 16 bits (\<open>is8Bit\<close>) is not part of
  the value.
\<close>

type_synonym UChar = nat
type_synonym WString = "nat list"
type_synonym Row = "WString list"

text \<open>An ASCII literal as code units.\<close>

definition ascii :: "string \<Rightarrow> WString" where
  "ascii s = map of_char s"

lemma ascii_simps [simp]:
  "ascii [] = []"
  "ascii (c # s) = of_char c # ascii s"
  by (simp_all add: ascii_def)

text \<open>Texts whose units would fit in 8 bits, whatever their storage.\<close>

definition latin1 :: "WString \<Rightarrow> bool" where
  "latin1 s \<longleftrightarrow> (\<forall>c\<in>set s. c < 256)"

definition latin1_row :: "Row \<Rightarrow> bool" where
  "latin1_row r \<longleftrightarrow> (\<forall>s\<in>set r. latin1 s)"

definition latin1_rows :: "Row list \<Rightarrow> bool" where
  "latin1_rows rs \<longleftrightarrow> (\<forall>r\<in>set rs. latin1_row r)"

lemmas latin1_defs = latin1_def latin1_row_def latin1_rows_def

lemma latin1_simps [simp]:
  "latin1 []"
  "latin1 (c # s) \<longleftrightarrow> c < 256 \<and> latin1 s"
  "latin1 (s @ t) \<longleftrightarrow> latin1 s \<and> latin1 t"
  "latin1_row []"
  "latin1_row (s # r) \<longleftrightarrow> latin1 s \<and> latin1_row r"
  "latin1_row (r @ r') \<longleftrightarrow> latin1_row r \<and> latin1_row r'"
  "latin1_rows []"
  "latin1_rows (r # rs) \<longleftrightarrow> latin1_row r \<and> latin1_rows rs"
  "latin1_rows (rs @ rs') \<longleftrightarrow> latin1_rows rs \<and> latin1_rows rs'"
  by (auto simp: latin1_defs)

lemma latin1_subset: "set s \<subseteq> set t \<Longrightarrow> latin1 t \<Longrightarrow> latin1 s"
  by (auto simp: latin1_def)

lemma latin1_row_subset: "set s \<subseteq> set t \<Longrightarrow> latin1_row t \<Longrightarrow> latin1_row s"
  by (auto simp: latin1_row_def)

lemma latin1_rows_subset: "set s \<subseteq> set t \<Longrightarrow> latin1_rows t \<Longrightarrow> latin1_rows s"
  by (auto simp: latin1_rows_def)

section \<open>GLib enumerations\<close>

datatype GUnicodeType =
    G_UNICODE_CONTROL | G_UNICODE_FORMAT | G_UNICODE_UNASSIGNED | G_UNICODE_PRIVATE_USE
  | G_UNICODE_SURROGATE | G_UNICODE_LOWERCASE_LETTER | G_UNICODE_MODIFIER_LETTER
  | G_UNICODE_OTHER_LETTER | G_UNICODE_TITLECASE_LETTER | G_UNICODE_UPPERCASE_LETTER
  | G_UNICODE_SPACING_MARK | G_UNICODE_ENCLOSING_MARK | G_UNICODE_NON_SPACING_MARK
  | G_UNICODE_DECIMAL_NUMBER | G_UNICODE_LETTER_NUMBER | G_UNICODE_OTHER_NUMBER
  | G_UNICODE_CONNECT_PUNCTUATION | G_UNICODE_DASH_PUNCTUATION | G_UNICODE_CLOSE_PUNCTUATION
  | G_UNICODE_FINAL_PUNCTUATION | G_UNICODE_INITIAL_PUNCTUATION | G_UNICODE_OTHER_PUNCTUATION
  | G_UNICODE_OPEN_PUNCTUATION | G_UNICODE_CURRENCY_SYMBOL | G_UNICODE_MODIFIER_SYMBOL
  | G_UNICODE_MATH_SYMBOL | G_UNICODE_OTHER_SYMBOL | G_UNICODE_LINE_SEPARATOR
  | G_UNICODE_PARAGRAPH_SEPARATOR | G_UNICODE_SPACE_SEPARATOR

datatype GUnicodeScript =
    G_UNICODE_SCRIPT_HIRAGANA | G_UNICODE_SCRIPT_KATAKANA | G_UNICODE_SCRIPT_ANY_OTHER

text \<open>
  The break type of a character is a number: the code indexes arrays with it, subtracts
  enumerators, and compares it with the length of a table, because GLib may return values
  it does not know.
\<close>

type_synonym GUnicodeBreakType = nat

abbreviation (input) "G_UNICODE_BREAK_MANDATORY \<equiv> (0::nat)"
abbreviation (input) "G_UNICODE_BREAK_CARRIAGE_RETURN \<equiv> (1::nat)"
abbreviation (input) "G_UNICODE_BREAK_LINE_FEED \<equiv> (2::nat)"
abbreviation (input) "G_UNICODE_BREAK_COMBINING_MARK \<equiv> (3::nat)"
abbreviation (input) "G_UNICODE_BREAK_SURROGATE \<equiv> (4::nat)"
abbreviation (input) "G_UNICODE_BREAK_ZERO_WIDTH_SPACE \<equiv> (5::nat)"
abbreviation (input) "G_UNICODE_BREAK_NON_BREAKING_GLUE \<equiv> (7::nat)"
abbreviation (input) "G_UNICODE_BREAK_CONTINGENT \<equiv> (8::nat)"
abbreviation (input) "G_UNICODE_BREAK_SPACE \<equiv> (9::nat)"
abbreviation (input) "G_UNICODE_BREAK_OPEN_PUNCTUATION \<equiv> (15::nat)"
abbreviation (input) "G_UNICODE_BREAK_CLOSE_PUNCTUATION \<equiv> (16::nat)"
abbreviation (input) "G_UNICODE_BREAK_EXCLAMATION \<equiv> (18::nat)"
abbreviation (input) "G_UNICODE_BREAK_IDEOGRAPHIC \<equiv> (19::nat)"
abbreviation (input) "G_UNICODE_BREAK_NUMERIC \<equiv> (20::nat)"
abbreviation (input) "G_UNICODE_BREAK_INFIX_SEPARATOR \<equiv> (21::nat)"
abbreviation (input) "G_UNICODE_BREAK_SYMBOL \<equiv> (22::nat)"
abbreviation (input) "G_UNICODE_BREAK_ALPHABETIC \<equiv> (23::nat)"
abbreviation (input) "G_UNICODE_BREAK_COMPLEX_CONTEXT \<equiv> (26::nat)"
abbreviation (input) "G_UNICODE_BREAK_AMBIGUOUS \<equiv> (27::nat)"
abbreviation (input) "G_UNICODE_BREAK_UNKNOWN \<equiv> (28::nat)"
abbreviation (input) "G_UNICODE_BREAK_NEXT_LINE \<equiv> (29::nat)"
abbreviation (input) "G_UNICODE_BREAK_WORD_JOINER \<equiv> (30::nat)"
abbreviation (input) "G_UNICODE_BREAK_HANGUL_L_JAMO \<equiv> (31::nat)"
abbreviation (input) "G_UNICODE_BREAK_HANGUL_LVT_SYLLABLE \<equiv> (35::nat)"

section \<open>The library functions\<close>

text \<open>
  \<^item> \<open>u_isWhiteSpaceNeutral c\<close>: \<open>u_charDirection(c) == U_WHITE_SPACE_NEUTRAL\<close>;
  \<^item> \<open>U8_NEXT s i\<close>: the code point that starts at byte \<open>i\<close> of \<open>s\<close>, negative when
    the bytes are ill-formed, and the offset after it;
  \<^item> \<open>g_utf8_skip b\<close>: by how many bytes \<open>g_utf8_next_char\<close> advances over lead byte \<open>b\<close>;
  \<^item> \<open>g_utf8_get_char p\<close>: the character at the pointer, given the bytes from it on;
  \<^item> \<open>g_utf8_to_ucs4_fast\<close>: the characters of a text;
  \<^item> \<open>g_unichar_to_utf8\<close>: the bytes of a character.
\<close>

record unicode_lib =
  u_isWhiteSpaceNeutral :: "nat \<Rightarrow> bool"
  U8_NEXT :: "nat list \<Rightarrow> nat \<Rightarrow> int \<times> nat"
  g_unichar_type :: "nat \<Rightarrow> GUnicodeType"
  g_unichar_break_type :: "nat \<Rightarrow> GUnicodeBreakType"
  g_unichar_get_script :: "nat \<Rightarrow> GUnicodeScript"
  g_utf8_skip :: "nat \<Rightarrow> nat"
  g_utf8_get_char :: "nat list \<Rightarrow> nat"
  g_utf8_to_ucs4_fast :: "nat list \<Rightarrow> nat list"
  g_unichar_to_utf8 :: "nat \<Rightarrow> nat list"

text \<open>
  Documented behaviour used as hypotheses: \<open>U8_NEXT\<close> moves the offset forward and not past
  the end; \<open>g_utf8_next_char\<close> advances by at least one byte.
\<close>

definition U8_NEXT_advances :: "unicode_lib \<Rightarrow> bool" where
  "U8_NEXT_advances lib \<longleftrightarrow>
     (\<forall>s i. i < length s \<longrightarrow> i < snd (U8_NEXT lib s i) \<and> snd (U8_NEXT lib s i) \<le> length s)"

definition utf8_skip_positive :: "unicode_lib \<Rightarrow> bool" where
  "utf8_skip_positive lib \<longleftrightarrow> (\<forall>b. 0 < g_utf8_skip lib b)"

text \<open>
  A concrete instance for evaluating the definitions: every byte is one character, as in
  ASCII text.
\<close>

definition ascii_type :: "nat \<Rightarrow> GUnicodeType" where
  "ascii_type c =
     (if c < 32 \<or> c = 127 then G_UNICODE_CONTROL
      else if c = 32 then G_UNICODE_SPACE_SEPARATOR
      else if 48 \<le> c \<and> c \<le> 57 then G_UNICODE_DECIMAL_NUMBER
      else if 65 \<le> c \<and> c \<le> 90 then G_UNICODE_UPPERCASE_LETTER
      else if 97 \<le> c \<and> c \<le> 122 then G_UNICODE_LOWERCASE_LETTER
      else if c = 8233 then G_UNICODE_PARAGRAPH_SEPARATOR
      else G_UNICODE_OTHER_PUNCTUATION)"

definition ascii_break_type :: "nat \<Rightarrow> GUnicodeBreakType" where
  "ascii_break_type c =
     (if c = 10 then G_UNICODE_BREAK_LINE_FEED
      else if c = 13 then G_UNICODE_BREAK_CARRIAGE_RETURN
      else if c = 32 then G_UNICODE_BREAK_SPACE
      else if 48 \<le> c \<and> c \<le> 57 then G_UNICODE_BREAK_NUMERIC
      else if c = 8233 then G_UNICODE_BREAK_MANDATORY
      else G_UNICODE_BREAK_ALPHABETIC)"

definition ascii_lib :: unicode_lib where
  "ascii_lib =
     \<lparr>u_isWhiteSpaceNeutral = (\<lambda>_. False),
      U8_NEXT = (\<lambda>s i. (int (s ! i), Suc i)),
      g_unichar_type = ascii_type,
      g_unichar_break_type = ascii_break_type,
      g_unichar_get_script = (\<lambda>_. G_UNICODE_SCRIPT_ANY_OTHER),
      g_utf8_skip = (\<lambda>_. 1),
      g_utf8_get_char = (\<lambda>p. case p of [] \<Rightarrow> 0 | b # _ \<Rightarrow> b),
      g_utf8_to_ucs4_fast = (\<lambda>s. s),
      g_unichar_to_utf8 = (\<lambda>c. [c])\<rparr>"

lemma ascii_lib_simps [simp]:
  "u_isWhiteSpaceNeutral ascii_lib c = False"
  "U8_NEXT ascii_lib s i = (int (s ! i), Suc i)"
  "g_unichar_type ascii_lib = ascii_type"
  "g_unichar_break_type ascii_lib = ascii_break_type"
  "g_unichar_get_script ascii_lib c = G_UNICODE_SCRIPT_ANY_OTHER"
  "g_utf8_skip ascii_lib b = 1"
  "g_utf8_get_char ascii_lib (b # p) = b"
  "g_utf8_to_ucs4_fast ascii_lib s = s"
  "g_unichar_to_utf8 ascii_lib c = [c]"
  by (simp_all add: ascii_lib_def)

lemma ascii_lib_advances: "U8_NEXT_advances ascii_lib" "utf8_skip_positive ascii_lib"
  by (simp_all add: U8_NEXT_advances_def utf8_skip_positive_def)

end
