(* ===== verification/WTF_Text.thy ===== *)
theory WTF_Text
  imports Unicode_Lib
begin

unbundle bit_operations_syntax

text \<open>
  The operations of WTF's \<open>String\<close> the command filters and data tasks call
  (src/Source/WTF/wtf/ASCIICType.h, text/StringCommon.h, text/StringImpl.cpp,
  text/WTFString.cpp), with their loops as recursion and the running hash of the substring
  search as a 32-bit word. \<open>notFound\<close> is \<open>None\<close>.
  The lemmas relate each routine to a reference definition on lists.
\<close>

section \<open>Characters\<close>

definition isASCIILower :: "UChar \<Rightarrow> bool" where
  "isASCIILower c \<longleftrightarrow> 97 \<le> c \<and> c \<le> 122"

definition toASCIILowerUnchecked :: "UChar \<Rightarrow> UChar" where
  "toASCIILowerUnchecked c = c OR 32"

definition isASCIIAlpha :: "UChar \<Rightarrow> bool" where
  "isASCIIAlpha c \<longleftrightarrow> isASCIILower (toASCIILowerUnchecked c)"

definition isASCIIDigit :: "UChar \<Rightarrow> bool" where
  "isASCIIDigit c \<longleftrightarrow> 48 \<le> c \<and> c \<le> 57"

definition isASCIIHexDigit :: "UChar \<Rightarrow> bool" where
  "isASCIIHexDigit c \<longleftrightarrow>
     isASCIIDigit c \<or> 97 \<le> toASCIILowerUnchecked c \<and> toASCIILowerUnchecked c \<le> 102"

definition isASCIISpace :: "UChar \<Rightarrow> bool" where
  "isASCIISpace c \<longleftrightarrow> c \<le> 32 \<and> (c = 32 \<or> c \<le> 13 \<and> 9 \<le> c)"

definition isASCIIUpper :: "UChar \<Rightarrow> bool" where
  "isASCIIUpper c \<longleftrightarrow> 65 \<le> c \<and> c \<le> 90"

definition toASCIILower :: "UChar \<Rightarrow> UChar" where
  "toASCIILower c = c OR (if isASCIIUpper c then 32 else 0)"

definition asciiCaseFoldTable :: "nat list" where
  "asciiCaseFoldTable = [
    0x00, 0x01, 0x02, 0x03, 0x04, 0x05, 0x06, 0x07, 0x08, 0x09, 0x0a, 0x0b, 0x0c, 0x0d, 0x0e, 0x0f,
    0x10, 0x11, 0x12, 0x13, 0x14, 0x15, 0x16, 0x17, 0x18, 0x19, 0x1a, 0x1b, 0x1c, 0x1d, 0x1e, 0x1f,
    0x20, 0x21, 0x22, 0x23, 0x24, 0x25, 0x26, 0x27, 0x28, 0x29, 0x2a, 0x2b, 0x2c, 0x2d, 0x2e, 0x2f,
    0x30, 0x31, 0x32, 0x33, 0x34, 0x35, 0x36, 0x37, 0x38, 0x39, 0x3a, 0x3b, 0x3c, 0x3d, 0x3e, 0x3f,
    0x40, 0x61, 0x62, 0x63, 0x64, 0x65, 0x66, 0x67, 0x68, 0x69, 0x6a, 0x6b, 0x6c, 0x6d, 0x6e, 0x6f,
    0x70, 0x71, 0x72, 0x73, 0x74, 0x75, 0x76, 0x77, 0x78, 0x79, 0x7a, 0x5b, 0x5c, 0x5d, 0x5e, 0x5f,
    0x60, 0x61, 0x62, 0x63, 0x64, 0x65, 0x66, 0x67, 0x68, 0x69, 0x6a, 0x6b, 0x6c, 0x6d, 0x6e, 0x6f,
    0x70, 0x71, 0x72, 0x73, 0x74, 0x75, 0x76, 0x77, 0x78, 0x79, 0x7a, 0x7b, 0x7c, 0x7d, 0x7e, 0x7f,
    0x80, 0x81, 0x82, 0x83, 0x84, 0x85, 0x86, 0x87, 0x88, 0x89, 0x8a, 0x8b, 0x8c, 0x8d, 0x8e, 0x8f,
    0x90, 0x91, 0x92, 0x93, 0x94, 0x95, 0x96, 0x97, 0x98, 0x99, 0x9a, 0x9b, 0x9c, 0x9d, 0x9e, 0x9f,
    0xa0, 0xa1, 0xa2, 0xa3, 0xa4, 0xa5, 0xa6, 0xa7, 0xa8, 0xa9, 0xaa, 0xab, 0xac, 0xad, 0xae, 0xaf,
    0xb0, 0xb1, 0xb2, 0xb3, 0xb4, 0xb5, 0xb6, 0xb7, 0xb8, 0xb9, 0xba, 0xbb, 0xbc, 0xbd, 0xbe, 0xbf,
    0xc0, 0xc1, 0xc2, 0xc3, 0xc4, 0xc5, 0xc6, 0xc7, 0xc8, 0xc9, 0xca, 0xcb, 0xcc, 0xcd, 0xce, 0xcf,
    0xd0, 0xd1, 0xd2, 0xd3, 0xd4, 0xd5, 0xd6, 0xd7, 0xd8, 0xd9, 0xda, 0xdb, 0xdc, 0xdd, 0xde, 0xdf,
    0xe0, 0xe1, 0xe2, 0xe3, 0xe4, 0xe5, 0xe6, 0xe7, 0xe8, 0xe9, 0xea, 0xeb, 0xec, 0xed, 0xee, 0xef,
    0xf0, 0xf1, 0xf2, 0xf3, 0xf4, 0xf5, 0xf6, 0xf7, 0xf8, 0xf9, 0xfa, 0xfb, 0xfc, 0xfd, 0xfe, 0xff]"

text \<open>The specialisation of \<open>toASCIILower\<close> for \<open>LChar\<close> reads the table.\<close>

definition toASCIILower_LChar :: "nat \<Rightarrow> nat" where
  "toASCIILower_LChar c = asciiCaseFoldTable ! c"

definition toASCIIHexValue :: "UChar \<Rightarrow> nat" where
  "toASCIIHexValue c = (if c < 65 then c - 48 else (c - 65 + 10) AND 15)"

definition toASCIIHexValue2 :: "UChar \<Rightarrow> UChar \<Rightarrow> nat" where
  "toASCIIHexValue2 a b = push_bit 4 (toASCIIHexValue a) OR toASCIIHexValue b"

definition isSpaceOrNewline :: "unicode_lib \<Rightarrow> UChar \<Rightarrow> bool" where
  "isSpaceOrNewline lib c =
     (if c \<le> 255 then isASCIISpace c else u_isWhiteSpaceNeutral lib c)"

section \<open>Comparison and case\<close>

definition equalIgnoringASCIICase :: "WString \<Rightarrow> WString \<Rightarrow> bool" where
  "equalIgnoringASCIICase a b \<longleftrightarrow>
     length a = length b \<and> list_all2 (\<lambda>x y. toASCIILower x = toASCIILower y) a b"

definition startsWith :: "WString \<Rightarrow> WString \<Rightarrow> bool" where
  "startsWith s prefix \<longleftrightarrow> length prefix \<le> length s \<and> take (length prefix) s = prefix"

definition startsWithIgnoringASCIICase :: "WString \<Rightarrow> WString \<Rightarrow> bool" where
  "startsWithIgnoringASCIICase s prefix \<longleftrightarrow>
     length prefix \<le> length s \<and> equalIgnoringASCIICase (take (length prefix) s) prefix"

definition endsWith :: "WString \<Rightarrow> WString \<Rightarrow> bool" where
  "endsWith s suffix \<longleftrightarrow>
     length suffix \<le> length s \<and> drop (length s - length suffix) s = suffix"

text \<open>
  \<open>convertASCIICase<Lower>\<close>: a scan for the first upper-case letter, then a copy of the part
  before it and the conversion of the rest.
\<close>

fun first_upper :: "WString \<Rightarrow> nat \<Rightarrow> nat option" where
  "first_upper [] i = None"
| "first_upper (c # s) i = (if isASCIIUpper c then Some i else first_upper s (Suc i))"

definition convertToASCIILowercase :: "WString \<Rightarrow> WString" where
  "convertToASCIILowercase s =
     (case first_upper s 0 of
        None \<Rightarrow> s
      | Some failingIndex \<Rightarrow> take failingIndex s @ map toASCIILower (drop failingIndex s))"

section \<open>Substrings and stripping\<close>

definition substring :: "WString \<Rightarrow> nat \<Rightarrow> nat \<Rightarrow> WString" where
  "substring s start len =
     (if length s \<le> start then []
      else let maxLength = length s - start;
               len' = (if maxLength \<le> len then maxLength else len)
           in take len' (drop start s))"

text \<open>\<open>substring(start)\<close>, whose length argument defaults to the greatest length of a string.\<close>

definition substring_from :: "WString \<Rightarrow> nat \<Rightarrow> WString" where
  "substring_from s start = (if length s \<le> start then [] else drop start s)"

fun strip_end :: "(UChar \<Rightarrow> bool) \<Rightarrow> WString \<Rightarrow> nat \<Rightarrow> nat" where
  "strip_end p s 0 = 0"
| "strip_end p s (Suc e) = (if p (s ! Suc e) then strip_end p s e else Suc e)"

fun strip_start :: "(UChar \<Rightarrow> bool) \<Rightarrow> WString \<Rightarrow> nat \<Rightarrow> nat" where
  "strip_start p [] start = start"
| "strip_start p (c # s) start = (if p c then strip_start p s (Suc start) else start)"

definition stripMatchedCharacters :: "(UChar \<Rightarrow> bool) \<Rightarrow> WString \<Rightarrow> WString" where
  "stripMatchedCharacters p s =
     (if s = [] then s
      else let end0 = length s - 1;
               start = strip_start p s 0
           in if end0 < start then []
              else let end1 = strip_end p s end0
                   in if start = 0 \<and> end1 = length s - 1 then s
                      else take (end1 + 1 - start) (drop start s))"

definition stripWhiteSpace :: "unicode_lib \<Rightarrow> WString \<Rightarrow> WString" where
  "stripWhiteSpace lib s = stripMatchedCharacters (isSpaceOrNewline lib) s"

definition stripLeadingAndTrailingCharacters :: "(UChar \<Rightarrow> bool) \<Rightarrow> WString \<Rightarrow> WString" where
  "stripLeadingAndTrailingCharacters p s = stripMatchedCharacters p s"

section \<open>Searching\<close>

fun find_loop :: "UChar \<Rightarrow> WString \<Rightarrow> nat \<Rightarrow> nat option" where
  "find_loop c [] index = None"
| "find_loop c (x # s) index = (if x = c then Some index else find_loop c s (Suc index))"

definition find_UChar :: "WString \<Rightarrow> UChar \<Rightarrow> nat \<Rightarrow> nat option" where
  "find_UChar s c start = find_loop c (drop start s) start"

text \<open>
  \<open>findInner\<close>: \<open>k\<close> counts down the remaining positions (\<open>delta - i\<close>); the hash of the window
  is updated by the unit that enters and the unit that leaves it.
\<close>

definition unit_hash :: "WString \<Rightarrow> 32 word" where
  "unit_hash s = sum_list (map of_nat s)"

fun findInner_loop ::
  "WString \<Rightarrow> WString \<Rightarrow> 32 word \<Rightarrow> 32 word \<Rightarrow> nat \<Rightarrow> nat \<Rightarrow> nat option" where
  "findInner_loop search m searchHash matchHash i 0 =
     (if searchHash \<noteq> matchHash \<or> take (length m) (drop i search) \<noteq> m then None else Some i)"
| "findInner_loop search m searchHash matchHash i (Suc k) =
     (if searchHash \<noteq> matchHash \<or> take (length m) (drop i search) \<noteq> m
      then findInner_loop search m
             (searchHash + of_nat (search ! (i + length m)) - of_nat (search ! i))
             matchHash (Suc i) k
      else Some i)"

definition findInner :: "WString \<Rightarrow> WString \<Rightarrow> nat \<Rightarrow> nat option" where
  "findInner search m index =
     map_option (\<lambda>i. index + i)
       (findInner_loop search m (unit_hash (take (length m) search)) (unit_hash m)
          0 (length search - length m))"

definition findCommon :: "WString \<Rightarrow> WString \<Rightarrow> nat \<Rightarrow> nat option" where
  "findCommon haystack needle start =
     (if length needle = 1 then find_UChar haystack (hd needle) start
      else if length haystack < start then None
      else if needle = [] then Some start
      else if length haystack - start < length needle then None
      else findInner (drop start haystack) needle start)"

fun reverseFind_loop :: "WString \<Rightarrow> UChar \<Rightarrow> nat \<Rightarrow> nat option" where
  "reverseFind_loop s c 0 = (if s ! 0 \<noteq> c then None else Some 0)"
| "reverseFind_loop s c (Suc index) =
     (if s ! Suc index \<noteq> c then reverseFind_loop s c index else Some (Suc index))"

definition reverseFind_UChar :: "WString \<Rightarrow> UChar \<Rightarrow> nat option" where
  "reverseFind_UChar s c = (if s = [] then None else reverseFind_loop s c (length s - 1))"

section \<open>Facts on searching\<close>

lemma substring_eq [simp]: "substring s start len = take len (drop start s)"
  by (auto simp: substring_def Let_def)

lemma substring_from_eq [simp]: "substring_from s start = drop start s"
  by (simp add: substring_from_def)

lemma find_loop_Some:
  "find_loop c s index = Some i \<Longrightarrow>
     index \<le> i \<and> i - index < length s \<and> s ! (i - index) = c \<and>
     c \<notin> set (take (i - index) s)"
proof (induction s arbitrary: index)
  case (Cons x s)
  show ?case
  proof (cases "x = c")
    case True
    with Cons.prems show ?thesis by simp
  next
    case False
    with Cons.prems have "find_loop c s (Suc index) = Some i" by simp
    from Cons.IH [OF this] have "Suc index \<le> i" and *: "i - Suc index < length s"
      "s ! (i - Suc index) = c" "c \<notin> set (take (i - Suc index) s)" by auto
    then have "i - index = Suc (i - Suc index)" by simp
    with * \<open>Suc index \<le> i\<close> False show ?thesis by simp
  qed
qed simp

lemma find_loop_None: "find_loop c s index = None \<longleftrightarrow> c \<notin> set s"
  by (induction s arbitrary: index) auto

lemma find_loop_takeWhile:
  "find_loop c s index =
     (if c \<in> set s then Some (index + length (takeWhile (\<lambda>x. x \<noteq> c) s)) else None)"
  by (induction s arbitrary: index) auto

lemma find_UChar_Some:
  assumes "find_UChar s c start = Some i"
  shows "start \<le> i" and "i < length s" and "s ! i = c" and "c \<notin> set (take (i - start) (drop start s))"
  using find_loop_Some [OF assms [unfolded find_UChar_def]] by auto

lemma find_UChar_None: "find_UChar s c start = None \<longleftrightarrow> c \<notin> set (drop start s)"
  by (simp add: find_UChar_def find_loop_None)

text \<open>The window one position further on.\<close>

lemma unit_hash_window:
  assumes "i + m < length s"
  shows "unit_hash (take m (drop (Suc i) s)) =
           unit_hash (take m (drop i s)) + of_nat (s ! (i + m)) - of_nat (s ! i)"
proof -
  have "take (Suc m) (drop i s) = take m (drop i s) @ [s ! (i + m)]"
    using assms by (simp add: take_Suc_conv_app_nth)
  moreover have "take (Suc m) (drop i s) = s ! i # take m (drop (Suc i) s)"
    using assms by (simp add: Cons_nth_drop_Suc [symmetric])
  ultimately have "unit_hash (s ! i # take m (drop (Suc i) s)) =
      unit_hash (take m (drop i s) @ [s ! (i + m)])"
    by simp
  then show ?thesis by (simp add: unit_hash_def algebra_simps)
qed

lemma findInner_loop_eq:
  assumes "i + k + length m = length search"
  shows "findInner_loop search m (unit_hash (take (length m) (drop i search))) (unit_hash m) i k =
           List.find (\<lambda>j. take (length m) (drop j search) = m) [i..<Suc (i + k)]"
  using assms
proof (induction k arbitrary: i)
  case 0
  then show ?case by auto
next
  case (Suc k)
  have step: "unit_hash (take (length m) (drop i search)) + of_nat (search ! (i + length m)) -
      of_nat (search ! i) = unit_hash (take (length m) (drop (Suc i) search))"
    using Suc.prems by (subst unit_hash_window) auto
  have "[i..<Suc (i + Suc k)] = i # [Suc i..<Suc (Suc i + k)]"
    by (subst upt_conv_Cons) auto
  with Suc.IH [of "Suc i"] Suc.prems step show ?case by auto
qed

lemma findInner_eq:
  assumes "length m \<le> length search"
  shows "findInner search m index =
           map_option (\<lambda>i. index + i)
             (List.find (\<lambda>j. take (length m) (drop j search) = m)
                [0..<Suc (length search - length m)])"
  using findInner_loop_eq [of 0 "length search - length m" m search] assms
  by (simp add: findInner_def)

lemma List_find_map: "List.find P (map f xs) = map_option f (List.find (P \<circ> f) xs)"
  by (induction xs) auto

lemma find_UChar_eq:
  "find_UChar s c start = List.find (\<lambda>j. take 1 (drop j s) = [c]) [start..<length s]"
proof (induction "length s - start" arbitrary: start)
  case 0
  then show ?case by (simp add: find_UChar_def)
next
  case (Suc n)
  then have lt: "start < length s" by simp
  then have d: "drop start s = s ! start # drop (Suc start) s" by (simp add: Cons_nth_drop_Suc)
  have u: "[start..<length s] = start # [Suc start..<length s]"
    using lt by (simp add: upt_conv_Cons)
  from Suc have "find_UChar s c (Suc start) =
      List.find (\<lambda>j. take 1 (drop j s) = [c]) [Suc start..<length s]"
    by (intro Suc.hyps(1)) simp
  then show ?case unfolding u find_UChar_def d by (simp add: d)
qed

lemma findCommon_in_range:
  assumes "findCommon s sep start = Some i"
  shows "start \<le> i" and "i + length sep \<le> length s"
proof -
  consider "length sep = 1" | "sep = []" | "1 < length sep" by (cases sep) (auto simp: Suc_lessI)
  then have "start \<le> i \<and> i + length sep \<le> length s"
  proof cases
    case 1
    with assms have "find_UChar s (hd sep) start = Some i" by (simp add: findCommon_def)
    with find_UChar_Some [OF this] 1 show ?thesis by simp
  next
    case 2
    with assms show ?thesis by (simp add: findCommon_def split: if_splits)
  next
    case 3
    with assms have "start \<le> length s" and le: "length sep \<le> length (drop start s)"
      and "findInner (drop start s) sep start = Some i"
      by (auto simp: findCommon_def split: if_splits)
    then obtain j where "List.find (\<lambda>j. take (length sep) (drop j (drop start s)) = sep)
        [0..<Suc (length (drop start s) - length sep)] = Some j" and "i = start + j"
      by (auto simp: findInner_eq)
    then have "j < Suc (length (drop start s) - length sep)" and "i = start + j"
      by (auto simp: find_Some_iff simp del: upt_Suc)
    with le \<open>start \<le> length s\<close> show ?thesis by auto
  qed
  then show "start \<le> i" and "i + length sep \<le> length s" by auto
qed

lemma findCommon_progress:
  "findCommon s sep start = Some i \<Longrightarrow> i + length sep \<noteq> start \<Longrightarrow>
     length s - (i + length sep) < length s - start"
  using findCommon_in_range [of s sep start i] by linarith

lemma find_UChar_progress:
  "find_UChar s c start = Some i \<Longrightarrow> length s - Suc i < length s - start"
  using find_UChar_Some(1,2) [of s c start i] by linarith

section \<open>Splitting\<close>

text \<open>
  \<open>splitInternal<allowEmptyEntries>(const String&)\<close>. An iteration that leaves \<open>startPos\<close> where
  it was repeats for ever: the empty separator is found at \<open>startPos\<close> itself. A null separator, or an
  empty one in a null text, is never found instead; the callers pass separators that are not empty.
\<close>

function splitInternal_loop ::
  "bool \<Rightarrow> WString \<Rightarrow> WString \<Rightarrow> nat \<Rightarrow> WString list \<Rightarrow> WString list res" where
  "splitInternal_loop allowEmpty s separator startPos result =
     (case findCommon s separator startPos of
        None \<Rightarrow>
          Inr (if allowEmpty \<or> startPos \<noteq> length s
               then result @ [substring_from s startPos] else result)
      | Some endPos \<Rightarrow>
          if endPos + length separator = startPos then Inl NonTermination
          else splitInternal_loop allowEmpty s separator (endPos + length separator)
                 (if allowEmpty \<or> startPos \<noteq> endPos
                  then result @ [substring s startPos (endPos - startPos)] else result))"
  by pat_completeness auto

termination
  by (relation "measure (\<lambda>(_, s, _, startPos, _). length s - startPos)")
    (auto intro: findCommon_progress)

declare splitInternal_loop.simps [simp del]

definition splitInternal :: "bool \<Rightarrow> WString \<Rightarrow> WString \<Rightarrow> WString list res" where
  "splitInternal allowEmpty s separator = splitInternal_loop allowEmpty s separator 0 []"

definition split :: "WString \<Rightarrow> WString \<Rightarrow> WString list res" where
  "split s separator = splitInternal False s separator"

function splitInternal_UChar_loop ::
  "bool \<Rightarrow> WString \<Rightarrow> UChar \<Rightarrow> nat \<Rightarrow> WString list \<Rightarrow> WString list" where
  "splitInternal_UChar_loop allowEmpty s separator startPos result =
     (case find_UChar s separator startPos of
        None \<Rightarrow>
          (if allowEmpty \<or> startPos \<noteq> length s
           then result @ [substring_from s startPos] else result)
      | Some endPos \<Rightarrow>
          splitInternal_UChar_loop allowEmpty s separator (endPos + 1)
            (if allowEmpty \<or> startPos \<noteq> endPos
             then result @ [substring s startPos (endPos - startPos)] else result))"
  by pat_completeness auto

termination
  by (relation "measure (\<lambda>(_, s, _, startPos, _). length s - startPos)")
    (auto intro: find_UChar_progress)

declare splitInternal_UChar_loop.simps [simp del]

definition splitInternal_UChar :: "bool \<Rightarrow> WString \<Rightarrow> UChar \<Rightarrow> WString list" where
  "splitInternal_UChar allowEmpty s separator =
     splitInternal_UChar_loop allowEmpty s separator 0 []"

definition split_UChar :: "WString \<Rightarrow> UChar \<Rightarrow> WString list" where
  "split_UChar s separator = splitInternal_UChar False s separator"

section \<open>Facts on splitting\<close>

lemma reverseFind_loop_eq:
  "reverseFind_loop s c n = List.find (\<lambda>j. s ! j = c) (rev [0..<Suc n])"
  by (induction n) auto

text \<open>The reference for splitting: the pieces between the separators, empty ones included.\<close>

fun pieces :: "UChar \<Rightarrow> WString \<Rightarrow> WString list" where
  "pieces c [] = [[]]"
| "pieces c (x # s) =
     (if x = c then [] # pieces c s
      else (x # hd (pieces c s)) # tl (pieces c s))"

lemma pieces_not_Nil [simp]: "pieces c s \<noteq> []"
  by (cases s) auto

lemma pieces_no_sep: "c \<notin> set s \<Longrightarrow> pieces c s = [s]"
  by (induction s) auto

lemma pieces_append: "c \<notin> set p \<Longrightarrow> pieces c (p @ c # s) = p # pieces c s"
  by (induction p) auto

lemma concat_pieces: "concat (pieces c s) = filter (\<lambda>x. x \<noteq> c) s"
proof (induction s)
  case (Cons x s)
  then show ?case by (cases "pieces c s") auto
qed simp

lemma pieces_set: "q \<in> set (pieces c s) \<Longrightarrow> set q \<subseteq> set s - {c}"
proof (induction s arbitrary: q)
  case (Cons x s)
  then show ?case by (cases "pieces c s") (fastforce split: if_splits)+
qed simp

lemma find_UChar_decomp:
  assumes "find_UChar s c start = Some i"
  shows "drop start s = take (i - start) (drop start s) @ c # drop (Suc i) s"
proof -
  note f = find_UChar_Some [OF assms]
  have "drop (i - start) (drop start s) = drop i s" using f(1) by simp
  also have "\<dots> = c # drop (Suc i) s" using f(2,3) by (simp add: Cons_nth_drop_Suc [symmetric])
  finally show ?thesis by (metis append_take_drop_id)
qed

lemma splitInternal_UChar_loop_eq:
  "startPos \<le> length s \<Longrightarrow>
     splitInternal_UChar_loop allow s c startPos result =
       result @ filter (\<lambda>p. allow \<or> p \<noteq> []) (pieces c (drop startPos s))"
proof (induction allow s c startPos result rule: splitInternal_UChar_loop.induct)
  case (1 allow s c startPos result)
  show ?case
  proof (cases "find_UChar s c startPos")
    case None
    then have "pieces c (drop startPos s) = [drop startPos s]"
      by (simp add: find_UChar_None pieces_no_sep)
    with None 1(2) show ?thesis
      by (subst splitInternal_UChar_loop.simps) auto
  next
    case (Some i)
    note f = find_UChar_Some [OF Some]
    from f(4) have "pieces c (drop startPos s) =
        take (i - startPos) (drop startPos s) # pieces c (drop (Suc i) s)"
      by (subst find_UChar_decomp [OF Some]) (rule pieces_append)
    with 1(1) [OF Some] Some f(1,2) 1(2) show ?thesis
      by (subst splitInternal_UChar_loop.simps) auto
  qed
qed

lemma split_UChar_eq: "split_UChar s c = filter (\<lambda>p. p \<noteq> []) (pieces c s)"
  by (simp add: split_UChar_def splitInternal_UChar_def splitInternal_UChar_loop_eq)

lemma splitInternal_loop_single:
  "splitInternal_loop allow s [c] startPos result =
     Inr (splitInternal_UChar_loop allow s c startPos result)"
proof (induction allow s c startPos result rule: splitInternal_UChar_loop.induct)
  case (1 allow s c startPos result)
  show ?case
  proof (cases "find_UChar s c startPos")
    case None
    then show ?thesis
      by (subst splitInternal_loop.simps, subst splitInternal_UChar_loop.simps)
        (simp add: findCommon_def)
  next
    case (Some i)
    with 1 [OF Some] find_UChar_Some(1) [OF Some] show ?thesis
      by (subst splitInternal_loop.simps, subst splitInternal_UChar_loop.simps)
        (simp add: findCommon_def)
  qed
qed

lemma split_single: "split s [c] = Inr (split_UChar s c)"
  by (simp add: split_def splitInternal_def split_UChar_def splitInternal_UChar_def
    splitInternal_loop_single)

lemma split_empty_separator: "split s [] = Inl NonTermination"
  by (simp add: split_def splitInternal_def splitInternal_loop.simps findCommon_def)

section \<open>Facts on stripping and case\<close>

lemma first_upper_None: "first_upper s i = None \<longleftrightarrow> (\<forall>c\<in>set s. \<not> isASCIIUpper c)"
  by (induction s arbitrary: i) auto

lemma first_upper_Some:
  "first_upper s i = Some f \<Longrightarrow> i \<le> f \<and> (\<forall>c\<in>set (take (f - i) s). \<not> isASCIIUpper c)"
proof (induction s arbitrary: i)
  case (Cons c s)
  show ?case
  proof (cases "isASCIIUpper c")
    case True
    with Cons.prems show ?thesis by simp
  next
    case False
    with Cons.prems have "first_upper s (Suc i) = Some f" by simp
    from Cons.IH [OF this] have "Suc i \<le> f" and *: "\<forall>c\<in>set (take (f - Suc i) s). \<not> isASCIIUpper c"
      by auto
    then have "f - i = Suc (f - Suc i)" by simp
    with * \<open>Suc i \<le> f\<close> False show ?thesis by simp
  qed
qed simp

lemma toASCIILower_id [simp]: "\<not> isASCIIUpper c \<Longrightarrow> toASCIILower c = c"
  by (simp add: toASCIILower_def)

lemma convertToASCIILowercase_eq [simp]: "convertToASCIILowercase s = map toASCIILower s"
proof (cases "first_upper s 0")
  case None
  then have "map toASCIILower s = s" by (intro map_idI) (simp add: first_upper_None)
  with None show ?thesis by (simp add: convertToASCIILowercase_def)
next
  case (Some f)
  then have "map toASCIILower (take f s) = take f s"
    using first_upper_Some [OF Some] by (intro map_idI) auto
  with Some show ?thesis
    by (metis (no_types, lifting) append_take_drop_id convertToASCIILowercase_def map_append option.simps(5))
qed

lemma asciiCaseFoldTable_eq: "asciiCaseFoldTable = map toASCIILower [0..<256]"
  by code_simp

lemma strip_start_eq: "strip_start p s i = i + length (takeWhile p s)"
  by (induction s arbitrary: i) auto

lemma strip_end_eq:
  "e < length s \<Longrightarrow> \<exists>c\<in>set (take (Suc e) s). \<not> p c \<Longrightarrow>
     strip_end p s e = length (dropWhile p (rev (take (Suc e) s))) - 1"
proof (induction e)
  case 0
  then show ?case by (cases s) auto
next
  case (Suc e)
  have t: "take (Suc (Suc e)) s = take (Suc e) s @ [s ! Suc e]"
    using Suc.prems(1) by (simp add: take_Suc_conv_app_nth)
  show ?case
  proof (cases "p (s ! Suc e)")
    case True
    with Suc.prems have "\<exists>c\<in>set (take (Suc e) s). \<not> p c" unfolding t by auto
    with Suc True show ?thesis unfolding t by simp
  next
    case False
    with Suc.prems show ?thesis unfolding t by simp
  qed
qed

lemma takeWhile_rev_aux:
  "\<exists>c\<in>set s. \<not> p c \<Longrightarrow>
     take (length (dropWhile p (rev s)) - length (takeWhile p s)) (dropWhile p s) =
       rev (dropWhile p (rev (dropWhile p s)))"
proof (induction s)
  case (Cons c s)
  show ?case
  proof (cases "p c")
    case True
    with Cons have ex: "\<exists>c\<in>set s. \<not> p c" by auto
    then have "dropWhile p (rev (c # s)) = dropWhile p (rev s) @ [c]"
      by (auto simp: dropWhile_append)
    with Cons.IH [OF ex] True show ?thesis by simp
  next
    case False
    then have d: "dropWhile p (rev (c # s)) = dropWhile p (rev s) @ [c]"
      by (auto simp: dropWhile_append)
    have "take (length (dropWhile p (rev s))) s = rev (dropWhile p (rev s))"
    proof -
      have "s = rev (takeWhile p (rev s) @ dropWhile p (rev s))"
        by (simp only: takeWhile_dropWhile_id rev_rev_ident)
      then have "s = rev (dropWhile p (rev s)) @ rev (takeWhile p (rev s))"
        by (simp only: rev_append)
      then show ?thesis by (metis append_eq_conv_conj length_rev)
    qed
    with False d show ?thesis by simp
  qed
qed simp

lemma stripMatchedCharacters_eq:
  "stripMatchedCharacters p s = rev (dropWhile p (rev (dropWhile p s)))"
proof (cases "\<exists>c\<in>set s. \<not> p c")
  case False
  then have "takeWhile p s = s" "dropWhile p s = []" by (auto simp: takeWhile_eq_all_conv dropWhile_eq_Nil_conv)
  then show ?thesis
    by (cases s) (auto simp: stripMatchedCharacters_def strip_start_eq)
next
  case True
  then have ne: "s \<noteq> []" by auto
  from True have lt: "length (takeWhile p s) < length s"
    by (metis length_takeWhile_le le_neq_implies_less takeWhile_eq_all_conv takeWhile_eq_take take_all_iff le_refl)
  have en: "strip_end p s (length s - 1) = length (dropWhile p (rev s)) - 1"
    using strip_end_eq [of "length s - 1" s p] True ne by simp
  have pos: "length (dropWhile p (rev s)) > 0" using True by (simp add: dropWhile_eq_Nil_conv)
  have whole: "s = rev (dropWhile p (rev (dropWhile p s)))"
    if tw: "takeWhile p s = []" and "length (dropWhile p (rev s)) - Suc 0 = length s - Suc 0"
  proof -
    from ne have "0 < length s" by simp
    with that(2) pos have "length (dropWhile p (rev s)) = length s" by linarith
    moreover have "dropWhile p s = s" using tw takeWhile_dropWhile_id [of p s] by simp
    ultimately show ?thesis using takeWhile_rev_aux [OF True] tw by simp
  qed
  show ?thesis
    unfolding stripMatchedCharacters_def strip_start_eq Let_def en
    using takeWhile_rev_aux [OF True] ne lt pos whole dropWhile_eq_drop [of p s] by auto
qed

section \<open>8-bit strings\<close>

lemma latin1_take [latin1_intros]: "latin1 s \<Longrightarrow> latin1 (take n s)"
  by (auto simp: latin1_def dest: in_set_takeD)

lemma latin1_drop [latin1_intros]: "latin1 s \<Longrightarrow> latin1 (drop n s)"
  by (auto simp: latin1_def dest: in_set_dropD)

lemma latin1_strip [latin1_intros]: "latin1 s \<Longrightarrow> latin1 (stripMatchedCharacters p s)"
  by (auto simp: latin1_def stripMatchedCharacters_eq dest!: set_dropWhileD)

lemma latin1_split_UChar [latin1_intros]: "latin1 s \<Longrightarrow> latin1_row (split_UChar s c)"
  by (auto simp: latin1_def latin1_row_def split_UChar_eq dest!: pieces_set)

section \<open>Properties\<close>

lemma List_find_extend:
  assumes "\<forall>j\<in>set ys. \<not> P j"
  shows "List.find P (xs @ ys) = List.find P xs"
  using assms by (induction xs) (auto simp: find_None_iff)

lemma findCommon_eq:
  assumes "m \<noteq> []"
  shows "findCommon s m start = List.find (\<lambda>j. take (length m) (drop j s) = m) [start..<length s]"
proof (cases "length m = 1")
  case True
  then obtain c where "m = [c]" by (auto simp: length_Suc_conv)
  then show ?thesis by (simp add: findCommon_def find_UChar_eq)
next
  case one: False
  have short: "\<not> take (length m) (drop j s) = m" if "length s - j < length m" for j
    using that by (metis length_drop length_take min_less_iff_conj less_irrefl min.absorb4)
  show ?thesis
  proof (cases "start \<le> length s \<and> length m \<le> length s - start")
    case False
    then have "List.find (\<lambda>j. take (length m) (drop j s) = m) [start..<length s] = None"
      by (auto simp: find_None_iff intro!: short)
    with False one assms show ?thesis by (auto simp: findCommon_def)
  next
    case True
    define k where "k = Suc (length s - start - length m)"
    have "start + k + (length s - (start + k)) = length s"
      using True assms by (cases m) (auto simp: k_def)
    then have "[start..<length s] = [start..<start + k] @ [start + k..<length s]"
      using upt_add_eq_append [of start "start + k" "length s - (start + k)"] by simp
    moreover have "\<forall>j\<in>set [start + k..<length s]. \<not> take (length m) (drop j s) = m"
      using True by (auto simp: k_def intro!: short)
    ultimately have "List.find (\<lambda>j. take (length m) (drop j s) = m) [start..<length s] =
        List.find (\<lambda>j. take (length m) (drop j s) = m) [start..<start + k]"
      by (simp add: List_find_extend)
    also have "[start..<start + k] = map (\<lambda>i. start + i) [0..<k]"
      by (simp add: map_add_upt add.commute)
    finally show ?thesis
      using True one assms
      by (simp add: findCommon_def findInner_eq List_find_map o_def k_def add.commute del: upt_Suc)
  qed
qed

text \<open>
  C21 The substring search of WTF, which compares a running 32-bit sum of code units before it
  compares the units, returns the first position at or after the start where the needle
  stands, and \<open>notFound\<close> when there is none: the hash never hides a match, wraps or not.
\<close>

theorem find_returns_first_match:
  assumes "needle \<noteq> []"
  shows "findCommon haystack needle start =
    List.find (\<lambda>j. take (length needle) (drop j haystack) = needle) [start..<length haystack]"
  using assms by (rule findCommon_eq)

theorem find_returns_first_match_witness:
  "findCommon (ascii ''a--b--c'') (ascii ''--'') 2 = Some 4"
  using find_returns_first_match [of "ascii ''--''" "ascii ''a--b--c''" 2]
  by (simp add: ascii_def upt_rec)

text \<open>
  C28 \<open>split\<close> at a one-unit separator returns the maximal separator-free pieces in order, the
  empty ones left out: the pieces are those of the reference, none is empty or has the
  separator, and together they are the string without its separators.
\<close>

theorem split_pieces:
  "\<exists>ps. split s [c] = Inr ps \<and> ps = filter (\<lambda>p. p \<noteq> []) (pieces c s) \<and>
        concat ps = filter (\<lambda>x. x \<noteq> c) s \<and> list_all (\<lambda>p. p \<noteq> [] \<and> c \<notin> set p) ps"
proof -
  have "concat (filter (\<lambda>p. p \<noteq> []) ps) = concat ps" for ps :: "nat list list"
    by (induction ps) auto
  moreover have "list_all (\<lambda>p. p \<noteq> [] \<and> c \<notin> set p) (filter (\<lambda>p. p \<noteq> []) (pieces c s))"
    by (auto simp: list_all_iff dest: pieces_set)
  ultimately show ?thesis by (simp add: split_single split_UChar_eq concat_pieces)
qed

text \<open>
  \<open>stripWhiteSpace\<close>, which walks two indices towards each other and copies the substring
  between them, removes the longest white prefix and suffix and nothing else, for any
  classification of the characters above U+00FF.
\<close>

theorem strip_removes_ends:
  "stripWhiteSpace lib s =
     rev (dropWhile (isSpaceOrNewline lib) (rev (dropWhile (isSpaceOrNewline lib) s)))"
  by (simp add: stripWhiteSpace_def stripMatchedCharacters_eq)

text \<open>
  The 256-entry case-folding table agrees with the computed \<open>toASCIILower\<close> on every
  8-bit character, and lower-casing a string folds every character of it, though the code
  copies the part before the first upper-case letter unchanged.
\<close>

theorem lower_case_table_and_string:
  "map toASCIILower_LChar [0..<256] = map toASCIILower [0..<256] \<and>
   convertToASCIILowercase s = map toASCIILower s"
proof -
  have "map toASCIILower_LChar [0..<256] = map (\<lambda>i. map toASCIILower [0..<256] ! i) [0..<256]"
    by (simp only: toASCIILower_LChar_def [abs_def] asciiCaseFoldTable_eq)
  then show ?thesis by simp
qed

end
