(* ===== verification/WTF_Number.thy ===== *)
theory WTF_Number
  imports WTF_Text
begin

text \<open>
  The conversions between strings and \<open>int\<close> (src/Source/WTF/wtf/text/StringToIntegerConversion.h,
  IntegerToStringConversion.h and the callers in WTFString.cpp and StringImpl.cpp), with the
  \<open>int\<close> arithmetic checked: an overflow is the fault \<open>SignedOverflow\<close>. The lemmas give the
  value \<open>toInt\<close> reads from any text that has a number in front, the range of the
  results and the round trip with the printer.
\<close>

section \<open>Parsing and printing\<close>

definition isCharacterAllowedInBase :: "UChar \<Rightarrow> int \<Rightarrow> bool" where
  "isCharacterAllowedInBase c base =
     (if 127 < c then False
      else if isASCIIDigit c then int c - 48 < base
      else if isASCIIAlpha c then
        let base' = (if 36 < base then 36 else base)
        in 97 \<le> c \<and> int c < 97 + base' - 10 \<or> 65 \<le> c \<and> int c < 65 + base' - 10
      else False)"

text \<open>The value of a digit, and the digit loop of \<open>toIntegralType<int>\<close>: \<open>None\<close> is the jump to
  \<open>bye\<close> with \<open>isOk\<close> false, and \<open>base * value + digitValue\<close> is evaluated in \<open>int\<close>.\<close>

definition digitValue :: "UChar \<Rightarrow> int" where
  "digitValue c =
     (if isASCIIDigit c then int c - 48
      else if 97 \<le> c then int c - 97 + 10
      else int c - 65 + 10)"

fun toIntegralType_loop ::
  "int \<Rightarrow> bool \<Rightarrow> int \<Rightarrow> WString \<Rightarrow> (int \<times> WString) option res" where
  "toIntegralType_loop base isNegative val [] = Inr (Some (val, []))"
| "toIntegralType_loop base isNegative val (c # data) =
     (if \<not> isCharacterAllowedInBase c base then Inr (Some (val, c # data))
      else if INT_MAX div base < val \<or>
           val = INT_MAX div base \<and>
           INT_MAX mod base + (if isNegative then 1 else 0) < digitValue c
      then Inr None
      else bind_res (int32 (base * val + digitValue c))
             (\<lambda>val'. toIntegralType_loop base isNegative val' data))"

definition toIntegralType_int :: "unicode_lib \<Rightarrow> WString \<Rightarrow> int \<Rightarrow> int option res" where
  "toIntegralType_int lib data base =
     (let data = dropWhile (isSpaceOrNewline lib) data;
          isNegative = (data \<noteq> [] \<and> hd data = 45);
          data = (if data \<noteq> [] \<and> (hd data = 45 \<or> hd data = 43) then tl data else data)
      in if data = [] \<or> \<not> isCharacterAllowedInBase (hd data) base then Inr None
         else bind_res (toIntegralType_loop base isNegative 0 data) (\<lambda>r.
           case r of
             None \<Rightarrow> Inr None
           | Some (val, rest) \<Rightarrow>
               bind_res (if isNegative then int32 (- val) else Inr val) (\<lambda>val.
                 if dropWhile (isSpaceOrNewline lib) rest = [] then Inr (Some val)
                 else Inr None)))"

definition lengthOfCharactersAsInteger :: "unicode_lib \<Rightarrow> WString \<Rightarrow> nat" where
  "lengthOfCharactersAsInteger lib data =
     (let i = length (takeWhile (isSpaceOrNewline lib) data);
          i = (if i \<noteq> length data \<and> (data ! i = 43 \<or> data ! i = 45) then i + 1 else i)
      in i + length (takeWhile isASCIIDigit (drop i data)))"

definition charactersToInt :: "unicode_lib \<Rightarrow> WString \<Rightarrow> int option res" where
  "charactersToInt lib data =
     toIntegralType_int lib (take (lengthOfCharactersAsInteger lib data) data) 10"

text \<open>\<open>toInt(&ok)\<close>: \<open>None\<close> is \<open>ok\<close> false, in which case the call returns 0.\<close>

definition toInt :: "unicode_lib \<Rightarrow> WString \<Rightarrow> int option res" where
  "toInt lib s = (if s = [] then Inr None else charactersToInt lib s)"

text \<open>\<open>numberToStringImpl\<close> writes the digits from the end of its buffer, least first.\<close>

function numberToString_loop :: "nat \<Rightarrow> WString \<Rightarrow> WString" where
  "numberToString_loop number p =
     (let p = (number mod 10 + 48) # p; number = number div 10
      in if number = 0 then p else numberToString_loop number p)"
  by pat_completeness auto

termination
  by (relation "measure fst") auto

declare numberToString_loop.simps [simp del]

definition numberToStringSigned :: "int \<Rightarrow> WString res" where
  "numberToStringSigned number =
     (if number < 0
      then bind_res (int32 (- number)) (\<lambda>n. Inr (45 # numberToString_loop (nat n) []))
      else Inr (numberToString_loop (nat number) []))"

section \<open>Facts on printing\<close>

lemma numberToString_loop_append:
  "numberToString_loop n p = numberToString_loop n [] @ p"
proof (induction n arbitrary: p rule: less_induct)
  case (less n)
  show ?case
  proof (cases "n div 10 = 0")
    case True
    then show ?thesis by (simp add: numberToString_loop.simps [of n])
  next
    case False
    then have "n div 10 < n" by (cases n) auto
    with False less [of "n div 10" "(n mod 10 + 48) # p"] less [of "n div 10" "[n mod 10 + 48]"]
    show ?thesis by (simp add: numberToString_loop.simps [of n])
  qed
qed

lemma numberToString_loop_digits:
  "numberToString_loop n [] =
     (if n < 10 then [n + 48] else numberToString_loop (n div 10) [] @ [n mod 10 + 48])"
  by (subst numberToString_loop.simps, subst numberToString_loop_append) (auto simp: Let_def)

lemma numberToString_loop_isDigit: "c \<in> set (numberToString_loop n []) \<Longrightarrow> isASCIIDigit c"
proof (induction n rule: less_induct)
  case (less n)
  then have "c \<in> set (if n < 10 then [n + 48] else numberToString_loop (n div 10) [] @ [n mod 10 + 48])"
    by (simp only: numberToString_loop_digits [of n])
  with less.IH [of "n div 10"] show ?case
    by (auto simp: isASCIIDigit_def split: if_splits)
qed

lemma numberToString_loop_not_Nil [simp]: "numberToString_loop n [] \<noteq> []"
  by (subst numberToString_loop_digits) simp

lemma digit_facts:
  assumes "d < 10"
  shows "isCharacterAllowedInBase (d + 48) 10" and "digitValue (d + 48) = int d"
  using assms by (auto simp: isCharacterAllowedInBase_def digitValue_def isASCIIDigit_def)

lemma toIntegralType_loop_digits:
  "int n \<le> INT_MAX \<Longrightarrow>
     toIntegralType_loop 10 neg 0 (numberToString_loop n [] @ rest) =
       toIntegralType_loop 10 neg (int n) rest"
proof (induction n arbitrary: rest rule: less_induct)
  case (less n)
  show ?case
  proof (cases "n < 10")
    case True
    then show ?thesis
      by (subst numberToString_loop_digits)
        (simp add: digit_facts int_limits)
  next
    case False
    have m: "int (n mod 10) = int n mod 10" "int (n div 10) = int n div 10"
      by (simp_all add: zmod_int zdiv_int)
    have "toIntegralType_loop 10 neg 0 (numberToString_loop n [] @ rest) =
        toIntegralType_loop 10 neg (int (n div 10)) ((n mod 10 + 48) # rest)"
      using False less by (subst numberToString_loop_digits) (simp add: m)
    also have "\<dots> = toIntegralType_loop 10 neg (int n) rest"
    proof -
      have "int n = 10 * (int n div 10) + int n mod 10" by simp
      then have "int n div 10 < 214748364 \<or> int n div 10 = 214748364 \<and> int n mod 10 \<le> 7"
        using less.prems pos_mod_sign [of 10 "int n"] unfolding int_limits by linarith
      moreover have "int32 (10 * (int n div 10) + int n mod 10) = Inr (int n)"
        using less.prems by (simp add: int_limits)
      ultimately show ?thesis by (auto simp: digit_facts m int_limits)
    qed
    finally show ?thesis .
  qed
qed

lemma isSpaceOrNewline_digit: "isASCIIDigit c \<Longrightarrow> \<not> isSpaceOrNewline lib c"
  by (auto simp: isASCIIDigit_def isSpaceOrNewline_def isASCIISpace_def)

lemma isSpaceOrNewline_sign [simp]: "\<not> isSpaceOrNewline lib 45" "\<not> isSpaceOrNewline lib 43"
  by (auto simp: isSpaceOrNewline_def isASCIISpace_def)

lemma charactersToInt_number:
  assumes "INT_MIN < n" and "n \<le> INT_MAX"
  shows "bind_res (numberToStringSigned n) (toInt lib) = Inr (Some n)"
proof -
  define ds where "ds = numberToString_loop (nat \<bar>n\<bar>) []"
  have ne: "ds \<noteq> []" and dig: "\<forall>c\<in>set ds. isASCIIDigit c"
    by (auto simp: ds_def dest: numberToString_loop_isDigit)
  then have hd: "isASCIIDigit (hd ds)" by simp
  then have hd': "\<not> isSpaceOrNewline lib (hd ds)" "hd ds \<noteq> 45" "hd ds \<noteq> 43"
    "isCharacterAllowedInBase (hd ds) 10"
    by (auto simp: isSpaceOrNewline_digit isASCIIDigit_def isCharacterAllowedInBase_def)
  have tw: "takeWhile isASCIIDigit ds = ds" using dig by (simp add: takeWhile_eq_all_conv)
  have sp: "takeWhile (isSpaceOrNewline lib) ds = []" "dropWhile (isSpaceOrNewline lib) ds = ds"
    using hd'(1) ne by (cases ds; simp)+
  have dr: "drop (Suc 0) (45 # ds) = ds" by simp
  have lp: "toIntegralType_loop 10 neg 0 ds = Inr (Some (int (nat \<bar>n\<bar>), []))" for neg
    using toIntegralType_loop_digits [of "nat \<bar>n\<bar>" neg "[]"] assms
    by (simp add: ds_def int_limits)
  show ?thesis
  proof (cases "n < 0")
    case True
    then have "numberToStringSigned n = Inr (45 # ds)"
      using assms by (simp add: numberToStringSigned_def ds_def int_limits int32_def)
    then show ?thesis
      using True assms hd' lp ne
      by (simp add: tw toInt_def charactersToInt_def lengthOfCharactersAsInteger_def
        toIntegralType_int_def Let_def int_limits int32_def)
  next
    case False
    then have "numberToStringSigned n = Inr ds"
      by (simp add: numberToStringSigned_def ds_def)
    then show ?thesis
      using False hd' lp ne
      by (simp add: tw sp toInt_def charactersToInt_def lengthOfCharactersAsInteger_def
        toIntegralType_int_def Let_def hd_conv_nth)
  qed
qed

section \<open>Facts on parsing\<close>

text \<open>The reference for parsing: the value of a string of decimal digits.\<close>

definition decimal_value :: "int \<Rightarrow> WString \<Rightarrow> int" where
  "decimal_value v ds = foldl (\<lambda>v c. 10 * v + (int c - 48)) v ds"

lemma decimal_value_simps [simp]:
  "decimal_value v [] = v"
  "decimal_value v (c # ds) = decimal_value (10 * v + (int c - 48)) ds"
  by (simp_all add: decimal_value_def)

lemma decimal_value_ge:
  "0 \<le> v \<Longrightarrow> \<forall>c\<in>set ds. isASCIIDigit c \<Longrightarrow> v \<le> decimal_value v ds"
proof (induction ds arbitrary: v)
  case (Cons c ds)
  then have "48 \<le> c" by (simp add: isASCIIDigit_def)
  with Cons.prems have "0 \<le> 10 * v + (int c - 48)" "v \<le> 10 * v + (int c - 48)" by auto
  with Cons.IH [of "10 * v + (int c - 48)"] Cons.prems show ?case by simp
qed simp

lemma isCharacterAllowedInBase_10: "isCharacterAllowedInBase c 10 \<longleftrightarrow> isASCIIDigit c"
  by (auto simp: isCharacterAllowedInBase_def isASCIIDigit_def)

lemma digitValue_digit: "isASCIIDigit c \<Longrightarrow> digitValue c = int c - 48"
  by (simp add: digitValue_def)

lemma toIntegralType_loop_value:
  assumes "0 \<le> v" "v \<le> INT_MAX" "\<forall>c\<in>set ds. isASCIIDigit c"
  shows "toIntegralType_loop 10 neg v ds =
     (if decimal_value v ds \<le> INT_MAX then Inr (Some (decimal_value v ds, []))
      else if neg \<and> (\<exists>k. decimal_value v (take k ds) = - INT_MIN) then Inl SignedOverflow
      else Inr None)"
  using assms
proof (induction ds arbitrary: v)
  case (Cons c ds)
  define x where "x = 10 * v + (int c - 48)"
  have c: "isASCIIDigit c" "0 \<le> int c - 48" "int c - 48 \<le> 9"
    and ds: "\<forall>c\<in>set ds. isASCIIDigit c"
    using Cons.prems(3) by (auto simp: isASCIIDigit_def)
  then have x0: "0 \<le> x" using Cons.prems(1) by (simp add: x_def)
  have ge: "x \<le> decimal_value x (take k ds)" for k
    using x0 ds by (intro decimal_value_ge) (auto dest: in_set_takeD)
  have ex: "(\<exists>k. decimal_value v (take k (c # ds)) = - INT_MIN) \<longleftrightarrow>
      (\<exists>k. decimal_value x (take k ds) = - INT_MIN)" (is "?l \<longleftrightarrow> ?r")
  proof
    assume ?l
    then obtain k where k: "decimal_value v (take k (c # ds)) = - INT_MIN" ..
    with Cons.prems(2) show ?r by (cases k) (auto simp: x_def int_limits)
  next
    assume ?r
    then obtain k where "decimal_value x (take k ds) = - INT_MIN" ..
    then have "decimal_value v (take (Suc k) (c # ds)) = - INT_MIN" by (simp add: x_def)
    then show ?l ..
  qed
  have big: "\<not> decimal_value x ds \<le> INT_MAX" if "INT_MAX < x"
    using ge [of "length ds"] that by simp
  consider "x \<le> INT_MAX" | "x = - INT_MIN" | "- INT_MIN < x"
    by (auto simp: int_limits) linarith
  then show ?case
  proof cases
    case 1
    then have "\<not> (INT_MAX div 10 < v \<or>
        v = INT_MAX div 10 \<and> INT_MAX mod 10 + (if neg then 1 else 0) < int c - 48)"
      using c by (auto simp: x_def int_limits)
    moreover have "int32 (10 * v + (int c - 48)) = Inr x"
      using 1 x0 by (simp add: x_def int_limits)
    ultimately have "toIntegralType_loop 10 neg v (c # ds) = toIntegralType_loop 10 neg x ds"
      using c by (auto simp: isCharacterAllowedInBase_10 digitValue_digit split: if_splits)
    then show ?thesis
      unfolding ex using Cons.IH [OF x0 1 ds] by (simp add: x_def)
  next
    case 2
    then have "10 * v + int c = 2147483696" by (simp add: x_def int_limits)
    with c(2,3) have "int c = 56" by presburger
    with 2 have v: "v = INT_MAX div 10" "int c - 48 = 8" by (simp_all add: x_def int_limits)
    have "\<exists>k. decimal_value x (take k ds) = - INT_MIN"
      using 2 by (intro exI [of _ 0]) simp
    with ex big 2 v c show ?thesis
      by (simp add: isCharacterAllowedInBase_10 digitValue_digit int_limits int32_def x_def)
  next
    case 3
    then have "INT_MAX div 10 < v \<or> v = INT_MAX div 10 \<and> INT_MAX mod 10 + 1 < int c - 48"
      using c by (auto simp: x_def int_limits)
    moreover have "\<not> (\<exists>k. decimal_value x (take k ds) = - INT_MIN)"
      using ge 3 by (metis not_less)
    ultimately show ?thesis
      using ex big 3 c by (auto simp: isCharacterAllowedInBase_10 digitValue_digit x_def int_limits)
  qed
qed simp

text \<open>The text \<open>toInt\<close> reads: white space, a sign, digits.\<close>

lemma toInt_value:
  assumes ws: "\<forall>c\<in>set ws. isSpaceOrNewline lib c"
    and sign: "sign \<in> {[], [45], [43]}"
    and ds: "ds \<noteq> []" "\<forall>c\<in>set ds. isASCIIDigit c"
    and rest: "rest = [] \<or> \<not> isASCIIDigit (hd rest)"
  shows "toInt lib (ws @ sign @ ds @ rest) =
     (let v = decimal_value 0 ds in
      if v \<le> INT_MAX then Inr (Some (if sign = [45] then - v else v))
      else if sign = [45] \<and> (\<exists>k. decimal_value 0 (take k ds) = - INT_MIN) then Inl SignedOverflow
      else Inr None)"
proof -
  have hd: "isASCIIDigit (hd ds)" using ds by simp
  then have hd': "\<not> isSpaceOrNewline lib (hd ds)" "hd ds \<noteq> 45" "hd ds \<noteq> 43"
    by (auto simp: isSpaceOrNewline_digit isASCIIDigit_def)
  have tw: "takeWhile isASCIIDigit (ds @ rest) = ds"
    using ds(2) rest by (cases rest) (auto simp: takeWhile_append2)
  define s where "s = sign @ ds"
  have s: "s \<noteq> []" "\<not> isSpaceOrNewline lib (hd s)" using sign ds(1) hd' by (auto simp: s_def)
  have tws: "takeWhile (isSpaceOrNewline lib) (ws @ sign @ ds @ rest) = ws"
    using ws s by (cases s) (auto simp: takeWhile_append2 s_def append_eq_Cons_conv)
  have len: "lengthOfCharactersAsInteger lib (ws @ sign @ ds @ rest) = length (ws @ s)"
    using sign ds(1) hd' by (auto simp: lengthOfCharactersAsInteger_def tws tw s_def Let_def nth_append hd_conv_nth)
  have dw: "dropWhile (isSpaceOrNewline lib) (ws @ s) = s"
    using ws s by (cases s) (auto simp: dropWhile_append2)
  have "toInt lib (ws @ sign @ ds @ rest) = toIntegralType_int lib (ws @ s) 10"
    using ds(1) len by (simp add: toInt_def charactersToInt_def s_def)
  moreover have nn: "0 \<le> decimal_value 0 ds" using decimal_value_ge [of 0 ds] ds(2) by simp
  moreover have lp: "toIntegralType_loop 10 neg 0 ds =
      (if decimal_value 0 ds \<le> INT_MAX then Inr (Some (decimal_value 0 ds, []))
       else if neg \<and> (\<exists>k. decimal_value 0 (take k ds) = - INT_MIN) then Inl SignedOverflow
       else Inr None)" for neg
    by (rule toIntegralType_loop_value) (use ds(2) in \<open>simp_all add: int_limits\<close>)
  moreover have "int32 (- decimal_value 0 ds) = Inr (- decimal_value 0 ds)"
    if "decimal_value 0 ds \<le> INT_MAX"
    using nn that by (simp add: int_limits)
  moreover consider "sign = []" | "sign = [45]" | "sign = [43]" using sign by auto
  then have "toIntegralType_int lib (ws @ s) 10 =
      bind_res (toIntegralType_loop 10 (sign = [45]) 0 ds) (\<lambda>r.
        case r of None \<Rightarrow> Inr None
        | Some (val, rest) \<Rightarrow> bind_res (if sign = [45] then int32 (- val) else Inr val) (\<lambda>val.
            if dropWhile (isSpaceOrNewline lib) rest = [] then Inr (Some val) else Inr None))"
    unfolding toIntegralType_int_def Let_def dw
    by cases (use hd hd' ds in \<open>simp_all add: isCharacterAllowedInBase_10 s_def\<close>)
  ultimately show ?thesis by (cases "decimal_value 0 ds \<le> INT_MAX") (simp_all add: Let_def)
qed

lemma toIntegralType_loop_range:
  "toIntegralType_loop 10 neg v data = Inr (Some (v', rest)) \<Longrightarrow> 0 \<le> v \<Longrightarrow> v \<le> INT_MAX \<Longrightarrow>
     0 \<le> v' \<and> v' \<le> INT_MAX"
proof (induction data arbitrary: v)
  case (Cons c data)
  show ?case
  proof (cases "isCharacterAllowedInBase c 10")
    case True
    with Cons.prems(1) obtain x where x: "int32 (10 * v + digitValue c) = Inr x"
      and l: "toIntegralType_loop 10 neg x data = Inr (Some (v', rest))"
      by (auto simp: bind_res_Inr_iff split: if_splits)
    from True have "0 \<le> digitValue c"
      by (simp add: isCharacterAllowedInBase_10 digitValue_digit isASCIIDigit_def)
    with x Cons.prems(2) have "0 \<le> x" "x \<le> INT_MAX" by (auto simp: int32_Inr_iff)
    with Cons.IH [OF l] show ?thesis by simp
  next
    case False
    with Cons.prems show ?thesis by simp
  qed
qed simp

lemma toIntegralType_int_range:
  assumes "toIntegralType_int lib data 10 = Inr (Some n)"
  shows "INT_MIN < n \<and> n \<le> INT_MAX"
proof -
  obtain neg d v rest m where l: "toIntegralType_loop 10 neg 0 d = Inr (Some (v, rest))"
    and m: "(if neg then int32 (- v) else Inr v) = Inr m" and "n = m"
    using assms unfolding toIntegralType_int_def Let_def
    by (auto simp: bind_res_Inr_iff split: if_splits option.splits prod.splits)
  moreover have "0 \<le> v \<and> v \<le> INT_MAX"
    by (rule toIntegralType_loop_range [OF l]) (simp_all add: int_limits)
  ultimately show ?thesis by (auto simp: int_limits int32_Inr_iff split: if_splits)
qed

lemma toInt_range: "toInt lib s = Inr (Some n) \<Longrightarrow> INT_MIN < n \<and> n \<le> INT_MAX"
  by (simp add: toInt_def charactersToInt_def toIntegralType_int_range split: if_splits)

lemma latin1_number [latin1_intros]: "numberToStringSigned n = Inr s \<Longrightarrow> latin1 s"
  by (auto simp: numberToStringSigned_def latin1_def bind_res_Inr_iff isASCIIDigit_def split: if_splits
    dest!: numberToString_loop_isDigit)

section \<open>Properties\<close>

text \<open>
  C22 \<open>toInt\<close> on a text that has white space, an optional sign and a run of digits in front:
  it ignores what follows the digits, returns the signed value when it is within \<open>INT_MAX\<close> in
  size, reports failure when it is not, and on a negative number one of whose digit prefixes
  is 2147483648 it evaluates an overflowing \<open>int\<close> expression.
\<close>

theorem toInt_reads_number:
  assumes "list_all (isSpaceOrNewline lib) ws" and "sign \<in> {[], [45], [43]}"
    and "ds \<noteq> []" and "list_all isASCIIDigit ds" and "rest = [] \<or> \<not> isASCIIDigit (hd rest)"
  shows "toInt lib (ws @ sign @ ds @ rest) =
     (let v = decimal_value 0 ds in
      if v \<le> INT_MAX then Inr (Some (if sign = [45] then - v else v))
      else if sign = [45] \<and> (\<exists>k. decimal_value 0 (take k ds) = - INT_MIN) then Inl SignedOverflow
      else Inr None)"
  by (rule toInt_value) (use assms in \<open>auto simp: list_all_iff\<close>)

theorem toInt_reads_number_witness:
  "toInt ascii_lib (ascii '' -42px'') = Inr (Some (-42))"
  using toInt_reads_number [of ascii_lib "ascii '' ''" "ascii ''-''" "ascii ''42''" "ascii ''px''"]
  by (simp add: ascii_def isASCIIDigit_def isSpaceOrNewline_def isASCIISpace_def int_limits)

text \<open>
  C25 Printing an \<open>int\<close> and parsing it back gives the same \<open>int\<close>, for every value but
  \<open>INT_MIN\<close>, whose negation the printer cannot represent.
\<close>

theorem toInt_number_roundtrip:
  assumes "INT_MIN < n" and "n \<le> INT_MAX"
  shows "bind_res (numberToStringSigned n) (toInt lib) = Inr (Some n)"
  using assms by (rule charactersToInt_number)

theorem toInt_number_roundtrip_witness:
  "bind_res (numberToStringSigned (- 2147483647)) (toInt ascii_lib) = Inr (Some (- 2147483647))"
  by (rule toInt_number_roundtrip) (simp_all add: int_limits)

end
