(* ===== verification/WTF_Vector.thy ===== *)
theory WTF_Vector
  imports WTF_Number
begin

text \<open>
  The operations of WTF's \<open>Vector\<close> that can fail (src/Source/WTF/wtf/Vector.h). A vector is a
  list. The callers pass an \<open>int\<close> where the operation takes a \<open>size_t\<close>, so a negative argument
  is a huge unsigned one: \<open>at\<close> then runs the overflow handler, which crashes,
  \<open>append(data, dataSize)\<close> cannot allocate and crashes, and \<open>shrink\<close> destroys the objects from
  an address outside the buffer on. The strided loop of the pick and cut filters is here too,
  since four filters run it.
\<close>

definition vector_at :: "'a list \<Rightarrow> int \<Rightarrow> 'a res" where
  "vector_at v i = (if 0 \<le> i \<and> i < int (length v) then Inr (v ! nat i) else Inl VectorOverflow)"

definition vector_shrink :: "'a list \<Rightarrow> int \<Rightarrow> 'a list res" where
  "vector_shrink v sz =
     (if 0 \<le> sz \<and> sz \<le> int (length v) then Inr (take (nat sz) v) else Inl OutOfBounds)"

text \<open>\<open>result.append(source.data() + offset, dataSize)\<close>.\<close>

definition vector_append_range :: "'a list \<Rightarrow> 'a list \<Rightarrow> int \<Rightarrow> int \<Rightarrow> 'a list res" where
  "vector_append_range result source offset dataSize =
     (if dataSize < 0 then Inl VectorOverflow
      else if offset < 0 \<or> int (length source) < offset + dataSize then Inl OutOfBounds
      else Inr (result @ take (nat dataSize) (drop (nat offset) source)))"

lemma vector_at_nat [simp]: "i < length v \<Longrightarrow> vector_at v (int i) = Inr (v ! i)"
  by (simp add: vector_at_def)

lemma vector_at_Inr_iff:
  "vector_at v i = Inr x \<longleftrightarrow> 0 \<le> i \<and> i < int (length v) \<and> x = v ! nat i"
  by (auto simp: vector_at_def)

lemma vector_shrink_Inr:
  "0 \<le> n \<Longrightarrow> n \<le> int (length v) \<Longrightarrow> vector_shrink v n = Inr (take (nat n) v)"
  by (simp add: vector_shrink_def)

lemma vector_append_range_Inr:
  "0 \<le> n \<Longrightarrow> 0 \<le> off \<Longrightarrow> off + n \<le> int (length src) \<Longrightarrow>
     vector_append_range r src off n = Inr (r @ take (nat n) (drop (nat off) src))"
  by (simp add: vector_append_range_def)

lemma vector_range_set:
  "vector_shrink v n = Inr w \<Longrightarrow> set w \<subseteq> set v"
  "vector_append_range r v off n = Inr w \<Longrightarrow> set w \<subseteq> set r \<union> set v"
  by (auto simp: vector_shrink_def vector_append_range_def split: if_splits
      dest!: in_set_takeD in_set_dropD)

section \<open>The strided loop\<close>

text \<open>
  The loop \<open>i = 0; n = left * i + right; while (n < size) { if (n >= 0) ...; i++; n = left * i +
  right; }\<close>, entered with \<open>i\<close> and \<open>n\<close>; \<open>body\<close> is what is done with an index. Every \<open>int\<close>
  operation is checked, so the loop always ends, if only because \<open>i\<close> overflows.
\<close>

function stride_loop ::
  "(int \<Rightarrow> 'b \<Rightarrow> 'b res) \<Rightarrow> int \<Rightarrow> int \<Rightarrow> int \<Rightarrow> int \<Rightarrow> int \<Rightarrow> 'b \<Rightarrow> 'b res" where
  "stride_loop body left right sz i n acc =
     (if n < sz then
        bind_res (if 0 \<le> n then body n acc else Inr acc) (\<lambda>acc.
          bind_res (int32 (i + 1)) (\<lambda>i.
            bind_res (int32 (left * i)) (\<lambda>m.
              bind_res (int32 (m + right)) (\<lambda>n.
                stride_loop body left right sz i n acc))))
      else Inr acc)"
  by pat_completeness auto

termination
  by (relation "measure (\<lambda>(_, _, _, _, i, _, _). nat (INT_MAX - i))") (auto simp: int32_Inr_iff)

declare stride_loop.simps [simp del]

text \<open>The loop from its initial state.\<close>

definition stride :: "(int \<Rightarrow> 'b \<Rightarrow> 'b res) \<Rightarrow> int \<Rightarrow> int \<Rightarrow> int \<Rightarrow> 'b \<Rightarrow> 'b res" where
  "stride body left right sz acc =
     bind_res (int32 (left * 0)) (\<lambda>m.
       bind_res (int32 (m + right)) (\<lambda>n. stride_loop body left right sz 0 n acc))"

text \<open>The indices below \<open>sz\<close> that the loop is meant to visit.\<close>

definition on_stride :: "int \<Rightarrow> int \<Rightarrow> nat \<Rightarrow> bool" where
  "on_stride left right m \<longleftrightarrow> right \<le> int m \<and> (int m - right) mod left = 0"

definition stride_indices :: "int \<Rightarrow> int \<Rightarrow> nat \<Rightarrow> nat list" where
  "stride_indices left right sz = filter (on_stride left right) [0..<sz]"

fun fold_res :: "('a \<Rightarrow> 'b \<Rightarrow> 'b res) \<Rightarrow> 'a list \<Rightarrow> 'b \<Rightarrow> 'b res" where
  "fold_res f [] acc = Inr acc"
| "fold_res f (x # xs) acc = bind_res (f x acc) (fold_res f xs)"

lemma fold_res_append: "fold_res f (xs @ ys) acc = bind_res (fold_res f xs acc) (fold_res f ys)"
proof (induction xs arbitrary: acc)
  case (Cons x xs)
  then show ?case by (cases "f x acc") simp_all
qed simp

lemma fold_res_invariant:
  assumes "fold_res f xs acc = Inr acc'" and "P acc"
    and "\<And>x a a'. P a \<Longrightarrow> f x a = Inr a' \<Longrightarrow> P a'"
  shows "P acc'"
  using assms(1,2)
proof (induction xs arbitrary: acc)
  case (Cons x xs)
  then show ?case using assms(3) by (auto simp: bind_res_Inr_iff)
qed simp

lemma on_stride_dvd: "on_stride left right m \<longleftrightarrow> right \<le> int m \<and> left dvd int m - right"
  by (simp only: on_stride_def dvd_eq_mod_eq_0)

lemma on_stride_step:
  assumes "1 \<le> left"
  shows "on_stride left n m \<longleftrightarrow> int m = n \<or> on_stride left (n + left) m"
proof -
  have "left dvd int m - n \<longleftrightarrow> left dvd int m - (n + left)"
    using dvd_add_left_iff [of left left "int m - (n + left)"] by simp
  moreover have "n + left \<le> int m" if "left dvd int m - n" and "n < int m"
    using zdvd_imp_le [OF that(1)] that(2) by linarith
  ultimately show ?thesis using assms unfolding on_stride_dvd by fastforce
qed

lemma stride_indices_end: "int sz \<le> n \<Longrightarrow> stride_indices left n sz = []"
  by (auto simp: stride_indices_def on_stride_def filter_empty_conv)

lemma stride_indices_neg:
  assumes "1 \<le> left" and "n < 0"
  shows "stride_indices left n sz = stride_indices left (n + left) sz"
  unfolding stride_indices_def
  by (rule filter_cong [OF refl]) (use on_stride_step [OF assms(1), of n] assms(2) in auto)

lemma stride_indices_step:
  assumes "1 \<le> left" and "n < sz"
  shows "stride_indices left (int n) sz = n # stride_indices left (int n + left) sz"
proof -
  have split: "[0..<sz] = [0..<n] @ n # [Suc n..<sz]"
    using assms(2) upt_add_eq_append [of 0 n "sz - n"] by (simp add: upt_conv_Cons)
  have none: "filter (on_stride left r) [0..<n] = []" if "int n \<le> r" for r
    using that by (auto simp: filter_empty_conv on_stride_def)
  have "filter (on_stride left (int n)) [Suc n..<sz] =
      filter (on_stride left (int n + left)) [Suc n..<sz]"
    by (rule filter_cong [OF refl]) (use on_stride_step [OF assms(1), of "int n"] in auto)
  moreover have "on_stride left (int n) n" "\<not> on_stride left (int n + left) n"
    using assms(1) by (auto simp: on_stride_def)
  ultimately show ?thesis
    unfolding stride_indices_def split using assms(1) by (simp add: none)
qed

text \<open>With a positive stride and no overflow, the loop visits those indices in order.\<close>

lemma stride_loop_eq:
  assumes "1 \<le> left" and "int sz + left \<le> INT_MAX" and "int sz + left - right \<le> INT_MAX"
    and "INT_MIN \<le> right"
    and "n = left * i + right" and "0 \<le> i"
  shows "stride_loop body left right (int sz) i n acc =
    fold_res (\<lambda>m. body (int m)) (stride_indices left n sz) acc"
  using assms(5,6)
proof (induction "nat (INT_MAX - i)" arbitrary: i n acc rule: less_induct)
  case less
  show ?case
  proof (cases "n < int sz")
    case False
    then show ?thesis by (simp add: stride_loop.simps stride_indices_end)
  next
    case True
    have li: "0 \<le> left * i" "i \<le> left * i" using assms(1) less.prems(2) by (auto simp: mult_le_cancel_right1)
    have m: "left * (i + 1) = left * i + left" by (simp add: algebra_simps)
    have b: "left * i < int sz - right" using True less.prems(1) by simp
    have "int32 (i + 1) = Inr (i + 1)"
      using li b assms(1,3) less.prems(2) by (intro int32_in_range) (auto simp: int_limits)
    moreover have "int32 (left * (i + 1)) = Inr (left * (i + 1))"
      using li b assms(1,3) by (intro int32_in_range) (auto simp: m int_limits)
    moreover have "int32 (left * (i + 1) + right) = Inr (n + left)"
      unfolding m int32_Inr_iff using li True assms(1,2,4) less.prems(1) by linarith
    moreover have "stride_loop body left right (int sz) (i + 1) (n + left) acc' =
        fold_res (\<lambda>m. body (int m)) (stride_indices left (n + left) sz) acc'" for acc'
      using less.prems li b assms(1,3) by (intro less.hyps) (auto simp: m)
    ultimately have "stride_loop body left right (int sz) i n acc =
        bind_res (if 0 \<le> n then body n acc else Inr acc)
          (fold_res (\<lambda>m. body (int m)) (stride_indices left (n + left) sz))"
      using True by (subst stride_loop.simps) simp
    then show ?thesis
      using stride_indices_step [OF assms(1), of "nat n" sz] stride_indices_neg [OF assms(1), of n sz] True
      by (cases "0 \<le> n") auto
  qed
qed

lemma stride_eq:
  assumes "1 \<le> left" and "int sz + left \<le> INT_MAX" and "int sz + left - right \<le> INT_MAX"
    and "INT_MIN \<le> right" and "right \<le> INT_MAX"
  shows "stride body left right (int sz) acc =
    fold_res (\<lambda>m. body (int m)) (stride_indices left right sz) acc"
  using assms stride_loop_eq [of left sz right right 0 body acc]
  by (simp add: stride_def int_limits)

text \<open>With a stride that is not positive, a start below the size is a loop with no exit.\<close>

lemma stride_loop_stuck:
  assumes "left \<le> 0" and "n < sz" and "right < sz" and "0 \<le> i"
    and "stride_loop body left right sz i n acc = Inr r"
  shows False
  using assms(2,4,5)
proof (induction "nat (INT_MAX - i)" arbitrary: i n acc rule: less_induct)
  case less
  then obtain acc' where "int32 (i + 1) = Inr (i + 1)"
    and "stride_loop body left right sz (i + 1) (left * (i + 1) + right) acc' = Inr r"
    by (subst (asm) (3) stride_loop.simps) (auto simp: bind_res_Inr_iff int32_Inr_iff)
  moreover have "left * (i + 1) \<le> 0" using assms(1) less.prems(2) by (simp add: mult_nonpos_nonneg)
  ultimately show ?case
    using assms(3) less.prems(2) less.hyps [of "i + 1" "left * (i + 1) + right" acc']
    by (simp add: int32_Inr_iff)
qed

lemma stride_stuck:
  assumes "left \<le> 0" and "right < sz"
  shows "stride body left right sz acc \<noteq> Inr r"
proof
  assume "stride body left right sz acc = Inr r"
  then have "stride_loop body left right sz 0 right acc = Inr r"
    by (auto simp: stride_def bind_res_Inr_iff int32_Inr_iff)
  with stride_loop_stuck [of left right sz right 0] assms show False by simp
qed

end
