(* ===== verification/Filter_Select.thy ===== *)
theory Filter_Select
  imports WTF_Vector
begin

text \<open>
  The selections of the filters that keep some elements and drop the others: head, tail, pick,
  cut and ignore. The line filters (LineHeadFilter.cpp and so on under
  src/Source/PurCFetcher/network/filter/) apply them to the rows, the column filters to the
  columns of each row, with the same text but for the element type, so the selections are
  polymorphic. The two ignore filters differ, in the type of \<open>start\<close>. A size is an \<open>int\<close>:
  the code assigns \<open>lines.size()\<close> to one, and a vector has fewer than 2\<open>^\<close>31 elements.
\<close>

section \<open>Selections\<close>

definition head_select :: "unicode_lib \<Rightarrow> 'a list \<Rightarrow> WString \<Rightarrow> 'a list res" where
  "head_select lib lines param =
     (if lines = [] \<or> param = [] then Inr lines
      else bind_res (toInt lib param) (\<lambda>r.
        case r of
          None \<Rightarrow> Inr lines
        | Some limit \<Rightarrow>
            let sz = int (length lines)
            in if limit < sz then vector_shrink lines limit else Inr lines))"

definition tail_select :: "unicode_lib \<Rightarrow> 'a list \<Rightarrow> WString \<Rightarrow> 'a list res" where
  "tail_select lib lines param =
     (if lines = [] \<or> param = [] then Inr lines
      else bind_res (toInt lib param) (\<lambda>r.
        case r of
          None \<Rightarrow> Inr lines
        | Some limit \<Rightarrow>
            let sz = int (length lines)
            in if sz < limit then Inr lines
               else vector_append_range [] lines (sz - limit) limit))"

text \<open>
  The parameter of pick and cut, \<open>left,right\<close>; \<open>None\<close> is one of the early returns of the
  unchanged lines.
\<close>

definition stride_params :: "unicode_lib \<Rightarrow> WString \<Rightarrow> (int \<times> int) option res" where
  "stride_params lib param =
     bind_res (split param (ascii '','')) (\<lambda>paramVec.
       if length paramVec < 2 then Inr None
       else
         let sleft = stripWhiteSpace lib (paramVec ! 0);
             sright = stripWhiteSpace lib (paramVec ! 1)
         in bind_res (toInt lib sleft) (\<lambda>l.
              case l of
                None \<Rightarrow> Inr None
              | Some left \<Rightarrow>
                  bind_res (toInt lib sright) (\<lambda>r.
                    case r of
                      None \<Rightarrow> Inr None
                    | Some right \<Rightarrow> Inr (Some (left, right)))))"

definition pick_select :: "unicode_lib \<Rightarrow> 'a list \<Rightarrow> WString \<Rightarrow> 'a list res" where
  "pick_select lib lines param =
     (if lines = [] \<or> param = [] then Inr lines
      else bind_res (stride_params lib param) (\<lambda>r.
        case r of
          None \<Rightarrow> Inr lines
        | Some (left, right) \<Rightarrow>
            stride (\<lambda>n result. bind_res (vector_at lines n) (\<lambda>x. Inr (result @ [x])))
              left right (int (length lines)) []))"

fun cut_loop :: "'a list \<Rightarrow> int list \<Rightarrow> int \<Rightarrow> 'a list" where
  "cut_loop [] indexVec i = []"
| "cut_loop (x # xs) indexVec i =
     (if i \<in> set indexVec then cut_loop xs indexVec (i + 1)
      else x # cut_loop xs indexVec (i + 1))"

definition cut_select :: "unicode_lib \<Rightarrow> 'a list \<Rightarrow> WString \<Rightarrow> 'a list res" where
  "cut_select lib lines param =
     (if lines = [] \<or> param = [] then Inr lines
      else bind_res (stride_params lib param) (\<lambda>r.
        case r of
          None \<Rightarrow> Inr lines
        | Some (left, right) \<Rightarrow>
            bind_res
              (stride (\<lambda>n indexVec. Inr (indexVec @ [n])) left right (int (length lines)) [])
              (\<lambda>indexVec. Inr (cut_loop lines indexVec 0))))"

text \<open>What the ignore filters do once \<open>ignoreBegin\<close> and \<open>ignoreSize\<close> are known.\<close>

definition ignore_range :: "'a list \<Rightarrow> int \<Rightarrow> int \<Rightarrow> 'a list res" where
  "ignore_range lines ignoreBegin ignoreSize =
     bind_res (vector_append_range [] lines 0 ignoreBegin) (\<lambda>result.
       bind_res (int32 (ignoreBegin + ignoreSize)) (\<lambda>rest.
         if rest < int (length lines)
         then vector_append_range result lines rest (int (length lines) - ignoreBegin - ignoreSize)
         else Inr result))"

text \<open>The parameter of the ignore filters: \<open>begin\<close> and the limit.\<close>

definition ignore_params ::
  "unicode_lib \<Rightarrow> 'a list \<Rightarrow> WString \<Rightarrow> (int \<times> int) option res" where
  "ignore_params lib lines param =
     bind_res (split param (ascii '','')) (\<lambda>paramVec.
       if length paramVec < 2 then Inr None
       else
         let begin = stripWhiteSpace lib (paramVec ! 0);
             sz = stripWhiteSpace lib (paramVec ! 1)
         in bind_res (toInt lib sz) (\<lambda>l.
              case l of
                None \<Rightarrow> Inr None
              | Some limit \<Rightarrow>
                  bind_res (toInt lib begin) (\<lambda>r.
                    case r of
                      Some start \<Rightarrow> Inr (Some (start, limit))
                    | None \<Rightarrow>
                        if equalIgnoringASCIICase begin (ascii ''$'')
                        then Inr (Some (int (length lines) - 1, limit))
                        else Inr None)))"

definition line_ignore_select :: "unicode_lib \<Rightarrow> 'a list \<Rightarrow> WString \<Rightarrow> 'a list res" where
  "line_ignore_select lib lines param =
     (if lines = [] \<or> param = [] then Inr lines
      else bind_res (ignore_params lib lines param) (\<lambda>r.
        case r of
          None \<Rightarrow> Inr lines
        | Some (start, limit) \<Rightarrow>
            if limit = 0 then Inr []
            else
              bind_res
                (if 0 < limit then Inr start
                 else bind_res (int32 (start + limit)) (\<lambda>m. int32 (m + 1)))
                (\<lambda>ignoreBegin.
                   let ignoreSize = \<bar>limit\<bar>
                   in if int (length lines) < start then Inr lines
                      else ignore_range lines ignoreBegin ignoreSize)))"

text \<open>
  In the column filter \<open>start\<close> is a \<open>size_t\<close>: the sum wraps modulo 2\<open>^\<close>64 and is then
  truncated to an \<open>int\<close>, and the test against the size is unsigned.
\<close>

definition column_ignore_select :: "unicode_lib \<Rightarrow> 'a list \<Rightarrow> WString \<Rightarrow> 'a list res" where
  "column_ignore_select lib lines param =
     (if lines = [] \<or> param = [] then Inr lines
      else bind_res (ignore_params lib lines param) (\<lambda>r.
        case r of
          None \<Rightarrow> Inr lines
        | Some (start0, limit) \<Rightarrow>
            if limit = 0 then Inr []
            else
              let start = (word_of_int start0 :: 64 word);
                  ignoreBegin = sint (ucast (if 0 < limit then start
                                             else start + word_of_int limit + 1) :: 32 word);
                  ignoreSize = \<bar>limit\<bar>
              in if int (length lines) < uint start then Inr lines
                 else ignore_range lines ignoreBegin ignoreSize))"

section \<open>Facts on the selections\<close>

lemma head_select_eq:
  assumes "toInt lib param = Inr (Some limit)" and "0 \<le> limit"
  shows "head_select lib lines param = Inr (take (nat limit) lines)"
proof (cases "lines = [] \<or> param = []")
  case True
  with assms show ?thesis by (auto simp: head_select_def toInt_def)
next
  case False
  with assms show ?thesis
    by (auto simp: head_select_def Let_def vector_shrink_Inr)
qed

lemma tail_select_eq:
  assumes "toInt lib param = Inr (Some limit)" and "0 \<le> limit"
  shows "tail_select lib lines param = Inr (drop (length lines - nat limit) lines)"
proof (cases "lines = [] \<or> param = []")
  case True
  with assms show ?thesis by (auto simp: tail_select_def toInt_def)
next
  case False
  with assms show ?thesis
    by (auto simp: tail_select_def Let_def vector_append_range_Inr nat_diff_distrib)
qed

lemma negative_limit:
  assumes "toInt lib param = Inr (Some limit)" and "limit < 0" and "lines \<noteq> []"
  shows "head_select lib lines param = Inl OutOfBounds"
    and "tail_select lib lines param = Inl VectorOverflow"
  using assms
  by (auto simp: head_select_def tail_select_def toInt_def Let_def vector_shrink_def
      vector_append_range_def split: if_splits)

lemma fold_res_pick:
  "\<forall>m\<in>set ms. m < length lines \<Longrightarrow>
     fold_res (\<lambda>m result. bind_res (vector_at lines (int m)) (\<lambda>x. Inr (result @ [x]))) ms acc =
       Inr (acc @ map (\<lambda>m. lines ! m) ms)"
  by (induction ms arbitrary: acc) auto

lemma fold_res_collect:
  "fold_res (\<lambda>m result. Inr (result @ [int m])) ms acc = Inr (acc @ map int ms)"
  by (induction ms arbitrary: acc) auto

lemma nths_eq_map: "nths xs {m. P m} = map (\<lambda>m. xs ! m) (filter P [0..<length xs])"
proof (induction xs rule: rev_induct)
  case (snoc x xs)
  have "map (\<lambda>m. (xs @ [x]) ! m) (filter P [0..<length xs]) =
      map (\<lambda>m. xs ! m) (filter P [0..<length xs])"
    by (auto simp: nth_append)
  with snoc show ?case by (simp add: nths_append)
qed simp

lemma cut_loop_eq:
  "cut_loop xs (map int ms) (int k) = nths xs {i. i + k \<notin> set ms}"
proof (induction xs arbitrary: k)
  case (Cons x xs)
  have "int k \<in> set (map int ms) \<longleftrightarrow> k \<in> set ms" by auto
  with Cons [of "Suc k"] show ?case by (simp add: nths_Cons add.commute)
qed simp

text \<open>The parameters for which the strided loop neither overflows nor runs away.\<close>

definition stride_safe :: "int \<Rightarrow> int \<Rightarrow> nat \<Rightarrow> bool" where
  "stride_safe left right sz \<longleftrightarrow>
     1 \<le> left \<and> int sz + left \<le> INT_MAX \<and> int sz + left - right \<le> INT_MAX"

lemma stride_params_Some_iff:
  "stride_params lib param = Inr (Some (left, right)) \<longleftrightarrow>
     (\<exists>ps. split param (ascii '','') = Inr ps \<and> \<not> length ps < 2 \<and>
           toInt lib (stripWhiteSpace lib (ps ! 0)) = Inr (Some left) \<and>
           toInt lib (stripWhiteSpace lib (ps ! 1)) = Inr (Some right))"
proof (cases "split param (ascii '','')")
  case (Inr ps)
  have None_iff: "(case l of None \<Rightarrow> Inr None | Some x \<Rightarrow> f x) = Inr (Some y) \<longleftrightarrow>
      (\<exists>x. l = Some x \<and> f x = Inr (Some y))" for l :: "int option" and f :: "int \<Rightarrow> (int \<times> int) option res" and y
    by (cases l) auto
  show ?thesis
    unfolding stride_params_def Inr bind_res_simps Let_def
    by (simp add: bind_res_Inr_iff None_iff del: length_greater_0_conv)
qed (simp add: stride_params_def)

lemma stride_params_Nil: "stride_params lib param = Inr (Some (left, right)) \<Longrightarrow> param \<noteq> []"
  by (auto simp: stride_params_Some_iff split_single split_UChar_eq ascii_def)

lemma stride_params_range:
  assumes "stride_params lib param = Inr (Some (left, right))"
  shows "INT_MIN \<le> left \<and> left \<le> INT_MAX \<and> INT_MIN \<le> right \<and> right \<le> INT_MAX"
proof -
  from assms obtain s t where "toInt lib s = Inr (Some left)" "toInt lib t = Inr (Some right)"
    unfolding stride_params_Some_iff by blast
  from toInt_range [OF this(1)] toInt_range [OF this(2)] show ?thesis by simp
qed

lemma pick_select_eq:
  assumes "stride_params lib param = Inr (Some (left, right))"
    and "stride_safe left right (length lines)"
  shows "pick_select lib lines param = Inr (nths lines {m. on_stride left right m})"
proof (cases "lines = []")
  case False
  have "stride (\<lambda>n result. bind_res (vector_at lines n) (\<lambda>x. Inr (result @ [x])))
      left right (int (length lines)) [] =
      Inr (map (\<lambda>m. lines ! m) (stride_indices left right (length lines)))"
    using assms stride_params_range [OF assms(1)]
    by (subst stride_eq) (auto simp: stride_safe_def fold_res_pick stride_indices_def)
  with False assms stride_params_Nil [OF assms(1)] show ?thesis
    by (simp add: pick_select_def nths_eq_map stride_indices_def)
qed (simp add: pick_select_def)

lemma cut_select_eq:
  assumes "stride_params lib param = Inr (Some (left, right))"
    and "stride_safe left right (length lines)"
  shows "cut_select lib lines param = Inr (nths lines {m. \<not> on_stride left right m})"
proof (cases "lines = []")
  case False
  have "stride (\<lambda>n indexVec. Inr (indexVec @ [n])) left right (int (length lines)) [] =
      Inr (map int (stride_indices left right (length lines)))"
    using assms stride_params_range [OF assms(1)]
    by (subst stride_eq) (auto simp: stride_safe_def fold_res_collect)
  moreover have "cut_loop lines (map int (stride_indices left right (length lines))) 0 =
      nths lines {m. \<not> on_stride left right m}"
    using cut_loop_eq [of lines "stride_indices left right (length lines)" 0]
    by (auto simp: stride_indices_def nths_eq_map intro!: arg_cong [of _ _ "map _"] filter_cong)
  ultimately show ?thesis
    using False assms stride_params_Nil [OF assms(1)] by (simp add: cut_select_def)
qed (simp add: cut_select_def)

lemma select_stuck:
  assumes "stride_params lib param = Inr (Some (left, right))" and "left \<le> 0"
    and "right < int (length lines)" and "lines \<noteq> []"
  shows "pick_select lib lines param \<noteq> Inr r" and "cut_select lib lines param \<noteq> Inr r"
  using assms stride_params_Nil [OF assms(1)] by (auto simp: pick_select_def cut_select_def bind_res_Inr_iff dest: stride_stuck)

lemma mset_nths_partition: "mset (nths xs {m. P m}) + mset (nths xs {m. \<not> P m}) = mset xs"
proof -
  have "mset (nths xs {m. P m}) + mset (nths xs {m. \<not> P m}) =
      image_mset (\<lambda>m. xs ! m) (mset [0..<length xs])"
    unfolding nths_eq_map mset_map mset_filter image_mset_union [symmetric]
    by (simp only: multiset_partition [symmetric])
  then show ?thesis by (metis map_nth mset_map)
qed

lemma ignore_range_eq:
  assumes "0 \<le> b" and "b \<le> int (length lines)" and "0 \<le> n" and "b + n \<le> INT_MAX"
  shows "ignore_range lines b n = Inr (take (nat b) lines @ drop (nat (b + n)) lines)"
  using assms
  by (auto simp: ignore_range_def vector_append_range_Inr int_limits)

lemma line_ignore_select_eq:
  assumes "ignore_params lib lines param = Inr (Some (start, limit))" and "limit \<noteq> 0"
    and "lines \<noteq> []" and "param \<noteq> []" and "0 \<le> start" and "start \<le> int (length lines)"
    and "b = (if 0 < limit then start else start + limit + 1)" and "0 \<le> b"
    and "b + \<bar>limit\<bar> \<le> INT_MAX"
  shows "line_ignore_select lib lines param =
    Inr (take (nat b) lines @ drop (nat (b + \<bar>limit\<bar>)) lines)"
proof -
  have "(if 0 < limit then Inr start
      else bind_res (int32 (start + limit)) (\<lambda>m. int32 (m + 1))) = Inr b"
    using assms(2,5-9) by (cases "0 < limit") (auto simp: int_limits int32_def)
  moreover have "ignore_range lines b \<bar>limit\<bar> =
      Inr (take (nat b) lines @ drop (nat (b + \<bar>limit\<bar>)) lines)"
    using assms by (intro ignore_range_eq) auto
  ultimately show ?thesis
    using assms(1-4,6) by (simp add: line_ignore_select_def Let_def)
qed

lemma sint_ucast_small:
  fixes x :: "64 word"
  assumes "x = word_of_int k" and "INT_MIN \<le> k" and "k \<le> INT_MAX"
  shows "sint (ucast x :: 32 word) = k"
proof -
  have "(ucast x :: 32 word) = word_of_int k"
    unfolding assms(1) by transfer simp
  with assms(2,3) show ?thesis by (simp add: int_limits sint_sbintrunc' signed_take_bit_int_eq_self)
qed

lemma column_ignore_select_eq:
  assumes "ignore_params lib lines param = Inr (Some (start, limit))" and "limit \<noteq> 0"
    and "lines \<noteq> []" and "param \<noteq> []" and "0 \<le> start" and "start \<le> int (length lines)"
    and "b = (if 0 < limit then start else start + limit + 1)" and "0 \<le> b"
    and "b + \<bar>limit\<bar> \<le> INT_MAX"
  shows "column_ignore_select lib lines param =
    Inr (take (nat b) lines @ drop (nat (b + \<bar>limit\<bar>)) lines)"
proof -
  have "(if 0 < limit then word_of_int start else word_of_int start + word_of_int limit + 1) =
      (word_of_int b :: 64 word)"
    using assms(7) by simp
  then have b: "sint (ucast (if 0 < limit then (word_of_int start :: 64 word)
      else word_of_int start + word_of_int limit + 1) :: 32 word) = b"
    by (rule sint_ucast_small) (use assms(8,9) in \<open>simp_all add: int_limits\<close>)
  have "start \<le> b + \<bar>limit\<bar>" using assms(7) by (auto split: if_splits)
  then have "uint (word_of_int start :: 64 word) = start"
    using assms(5,9) by (simp add: int_limits uint_word_of_int_eq take_bit_int_eq_self)
  moreover have "ignore_range lines b \<bar>limit\<bar> =
      Inr (take (nat b) lines @ drop (nat (b + \<bar>limit\<bar>)) lines)"
    using assms by (intro ignore_range_eq) auto
  ultimately show ?thesis
    using assms(1-4,6) b by (simp add: column_ignore_select_def Let_def)
qed

lemma negative_begin:
  assumes "ignore_params lib lines param = Inr (Some (start, limit))" and "0 < limit"
    and "lines \<noteq> []" and "param \<noteq> []" and "start < 0" and "INT_MIN \<le> start"
    and "int (length lines) \<le> INT_MAX"
  shows "line_ignore_select lib lines param = Inl VectorOverflow"
    and "column_ignore_select lib lines param = Inr lines"
proof -
  show "line_ignore_select lib lines param = Inl VectorOverflow"
    using assms
    by (simp add: line_ignore_select_def ignore_range_def vector_append_range_def)
  have "start mod 2 ^ 64 = (start + 2 ^ 64) mod 2 ^ 64" by simp
  also have "\<dots> = start + 2 ^ 64"
    using assms(5,6) by (intro mod_pos_pos_trivial) (simp_all add: int_limits)
  finally have "uint (word_of_int start :: 64 word) = start + 2 ^ 64"
    by (simp add: uint_word_of_int)
  then show "column_ignore_select lib lines param = Inr lines"
    using assms by (simp add: column_ignore_select_def Let_def int_limits)
qed

section \<open>Selections take from their input\<close>

lemma stride_loop_inv:
  assumes step: "\<And>n acc acc'. P acc \<Longrightarrow> body n acc = Inr acc' \<Longrightarrow> P acc'"
    and "P acc" and "stride_loop body left right sz i n acc = Inr r"
  shows "P r"
  using assms(2,3)
proof (induction "nat (INT_MAX - i)" arbitrary: i n acc rule: less_induct)
  case less
  show ?case
  proof (cases "n < sz")
    case False
    with less.prems show ?thesis by (simp add: stride_loop.simps)
  next
    case True
    with less.prems(2) obtain acc' i' n' where a: "(if 0 \<le> n then body n acc else Inr acc) = Inr acc'"
      and i: "int32 (i + 1) = Inr i'" and l: "stride_loop body left right sz i' n' acc' = Inr r"
      by (subst (asm) stride_loop.simps) (auto simp: bind_res_Inr_iff)
    from a less.prems(1) have "P acc'" by (auto split: if_splits intro: step)
    with l i show ?thesis by (intro less.hyps [of i' acc' n']) (auto simp: int32_Inr_iff)
  qed
qed

lemma stride_inv:
  assumes "stride body left right sz acc = Inr r" and "P acc"
    and "\<And>n acc acc'. P acc \<Longrightarrow> body n acc = Inr acc' \<Longrightarrow> P acc'"
  shows "P r"
proof -
  from assms(1) obtain n where "stride_loop body left right sz 0 n acc = Inr r"
    by (auto simp: stride_def bind_res_Inr_iff)
  from stride_loop_inv [of P body, OF assms(3) assms(2) this] show ?thesis .
qed

lemma cut_loop_subset: "set (cut_loop xs indexVec i) \<subseteq> set xs"
  by (induction xs indexVec i rule: cut_loop.induct) auto

lemma ignore_range_subset: "ignore_range lines b n = Inr r \<Longrightarrow> set r \<subseteq> set lines"
  by (auto simp: ignore_range_def bind_res_Inr_iff split: if_splits dest!: vector_range_set(2))

lemma guarded_subset:
  assumes "(if lines = [] \<or> param = [] then Inr lines
      else bind_res m (\<lambda>r. case r of None \<Rightarrow> Inr lines | Some x \<Rightarrow> f x)) = Inr r"
    and "\<And>x r. f x = Inr r \<Longrightarrow> set r \<subseteq> set lines"
  shows "set r \<subseteq> set lines"
  using assms by (auto simp: bind_res_Inr_iff split: if_splits option.splits)

lemma head_select_subset: "head_select lib lines param = Inr r \<Longrightarrow> set r \<subseteq> set lines"
  unfolding head_select_def
  by (erule guarded_subset) (auto simp: Let_def split: if_splits dest: vector_range_set(1))

lemma tail_select_subset: "tail_select lib lines param = Inr r \<Longrightarrow> set r \<subseteq> set lines"
  unfolding tail_select_def
  by (erule guarded_subset) (auto simp: Let_def split: if_splits dest!: vector_range_set(2))

lemma pick_select_subset: "pick_select lib lines param = Inr r \<Longrightarrow> set r \<subseteq> set lines"
  unfolding pick_select_def
  by (erule guarded_subset)
    (auto simp: bind_res_Inr_iff vector_at_Inr_iff split: prod.splits
      dest!: stride_inv [where P = "\<lambda>x. set x \<subseteq> set lines"])

lemma cut_select_subset: "cut_select lib lines param = Inr r \<Longrightarrow> set r \<subseteq> set lines"
  unfolding cut_select_def
  by (erule guarded_subset)
    (auto simp: bind_res_Inr_iff split: prod.splits dest: cut_loop_subset [THEN subsetD])

lemma line_ignore_select_subset:
  "line_ignore_select lib lines param = Inr r \<Longrightarrow> set r \<subseteq> set lines"
  unfolding line_ignore_select_def
  by (erule guarded_subset)
    (auto simp: Let_def bind_res_Inr_iff split: prod.splits if_splits dest!: ignore_range_subset)

lemma column_ignore_select_subset:
  "column_ignore_select lib lines param = Inr r \<Longrightarrow> set r \<subseteq> set lines"
  unfolding column_ignore_select_def
  by (erule guarded_subset)
    (auto simp: Let_def split: prod.splits if_splits dest!: ignore_range_subset)

lemmas select_subset = head_select_subset tail_select_subset pick_select_subset cut_select_subset
  line_ignore_select_subset column_ignore_select_subset

end
