(* ===== verification/UChar_Breaker.thy ===== *)
theory UChar_Breaker
  imports WTF_Vector
begin

text \<open>
  The text splitting the filters share (src/Source/PurCFetcher/network/filter/FilterBase.h and
  the end of FilterBase.cpp): the break attributes of a character, the object
  \<open>UCharBreaker\<close> as its constructor leaves it, \<open>splitUTF8\<close>, and the loops with which the word and
  sentence filters cut a text at the attributes. The computation of the attributes is in
  theory Gen_Breaks.
\<close>

section \<open>Break attributes and the breaker\<close>

record UCharBreakAttr =
  is_line_break :: bool
  is_mandatory_break :: bool
  is_char_break :: bool
  is_white :: bool
  is_cursor_position :: bool
  is_word_start :: bool
  is_word_end :: bool
  is_sentence_boundary :: bool
  is_sentence_start :: bool
  is_sentence_end :: bool
  backspace_deletes_character :: bool
  is_expandable_space :: bool
  is_word_boundary :: bool

text \<open>What \<open>calloc\<close> returns.\<close>

definition zero_attr :: UCharBreakAttr where
  "zero_attr =
     \<lparr>is_line_break = False, is_mandatory_break = False, is_char_break = False, is_white = False,
      is_cursor_position = False, is_word_start = False, is_word_end = False,
      is_sentence_boundary = False, is_sentence_start = False, is_sentence_end = False,
      backspace_deletes_character = False, is_expandable_space = False,
      is_word_boundary = False\<rparr>"

text \<open>A null pointer is the empty list.\<close>

record UCharBreaker =
  m_text :: "nat list"
  m_uchar :: "nat list"
  m_breakAttrs :: "UCharBreakAttr list"

definition UCharBreaker_new :: "nat list \<Rightarrow> UCharBreaker" where
  "UCharBreaker_new txt = \<lparr>m_text = txt, m_uchar = [], m_breakAttrs = []\<rparr>"

section \<open>Splitting UTF-8\<close>

text \<open>
  \<open>splitUTF8\<close>: the bytes of each code point, up to the first ill-formed one. A step that does
  not move the offset would repeat for ever.
\<close>

function splitUTF8_loop :: "unicode_lib \<Rightarrow> nat list \<Rightarrow> nat \<Rightarrow> WString list \<Rightarrow> WString list res" where
  "splitUTF8_loop lib source sourceOffset result =
     (if sourceOffset < length source then
        let (character, sourceOffset') = U8_NEXT lib source sourceOffset
        in if character < 0 then Inr result
           else if sourceOffset' \<le> sourceOffset then Inl NonTermination
           else splitUTF8_loop lib source sourceOffset'
                  (result @ [take (sourceOffset' - sourceOffset) (drop sourceOffset source)])
      else Inr result)"
  by pat_completeness auto

termination
  by (relation "measure (\<lambda>(_, source, off, _). length source - off)") auto

declare splitUTF8_loop.simps [simp del]

definition splitUTF8 :: "unicode_lib \<Rightarrow> nat list \<Rightarrow> WString list res" where
  "splitUTF8 lib source = splitUTF8_loop lib source 0 []"

text \<open>The types the letter, word and sentence filters test for.\<close>

definition letter_or_number :: "GUnicodeType \<Rightarrow> bool" where
  "letter_or_number t \<longleftrightarrow>
     t \<in> {G_UNICODE_LOWERCASE_LETTER, G_UNICODE_MODIFIER_LETTER, G_UNICODE_OTHER_LETTER,
          G_UNICODE_TITLECASE_LETTER, G_UNICODE_UPPERCASE_LETTER, G_UNICODE_DECIMAL_NUMBER,
          G_UNICODE_LETTER_NUMBER, G_UNICODE_OTHER_NUMBER}"

section \<open>Cutting at words and sentences\<close>

text \<open>
  \<open>char buf[6] = {0}\<close> filled by \<open>g_unichar_to_utf8\<close> and read as a C string: without a zero
  byte within the buffer the read leaves it.
\<close>

definition utf8_buf :: "unicode_lib \<Rightarrow> nat \<Rightarrow> WString res" where
  "utf8_buf lib wc =
     (let s = takeWhile (\<lambda>b. b \<noteq> 0) (g_unichar_to_utf8 lib wc)
      in if length s < 6 then Inr s else Inl OutOfBounds)"

definition break_attr :: "UCharBreakAttr list \<Rightarrow> nat \<Rightarrow> UCharBreakAttr res" where
  "break_attr attrs i = (if i < length attrs then Inr (attrs ! i) else Inl OutOfBounds)"

text \<open>The end of both loops: what is left in the string builder is the last piece.\<close>

definition flush :: "WString \<Rightarrow> WString list \<Rightarrow> WString list" where
  "flush sb result = (if sb \<noteq> [] then result @ [sb] else result)"

fun words_loop ::
  "unicode_lib \<Rightarrow> nat list \<Rightarrow> UCharBreakAttr list \<Rightarrow> nat \<Rightarrow> WString \<Rightarrow> WString list \<Rightarrow> WString list res"
where
  "words_loop lib [] attrs i sb result = Inr (flush sb result)"
| "words_loop lib (wc # p) attrs i sb result =
     bind_res (utf8_buf lib wc) (\<lambda>buf.
       bind_res
         (if letter_or_number (g_unichar_type lib wc) then Inr True
          else map_sum id (\<lambda>a. \<not> is_word_boundary a) (break_attr attrs i))
         (\<lambda>save.
            if save then
              bind_res (break_attr attrs i) (\<lambda>a.
                if is_word_boundary a
                then words_loop lib p attrs (Suc i) buf (flush sb result)
                else words_loop lib p attrs (Suc i) (sb @ buf) result)
            else words_loop lib p attrs (Suc i) sb result))"

definition words_of_breaker :: "unicode_lib \<Rightarrow> UCharBreaker \<Rightarrow> WString list res" where
  "words_of_breaker lib breaker =
     words_loop lib (m_uchar breaker) (m_breakAttrs breaker) 0 [] []"

fun sentences_loop ::
  "unicode_lib \<Rightarrow> nat list \<Rightarrow> UCharBreakAttr list \<Rightarrow> nat \<Rightarrow> WString \<Rightarrow> WString list \<Rightarrow> WString list res"
where
  "sentences_loop lib [] attrs i sb result = Inr (flush sb result)"
| "sentences_loop lib (wc # p) attrs i sb result =
     bind_res (utf8_buf lib wc) (\<lambda>buf.
       bind_res (break_attr attrs i) (\<lambda>a.
         if is_sentence_boundary a
         then sentences_loop lib p attrs (Suc i)
                (if letter_or_number (g_unichar_type lib wc) then buf else []) (flush sb result)
         else sentences_loop lib p attrs (Suc i) (sb @ buf) result))"

definition sentences_of_breaker :: "unicode_lib \<Rightarrow> UCharBreaker \<Rightarrow> WString list res" where
  "sentences_of_breaker lib breaker =
     sentences_loop lib (m_uchar breaker) (m_breakAttrs breaker) 0 [] []"

section \<open>Facts\<close>

lemma splitUTF8_loop_total:
  assumes "U8_NEXT_advances lib" and "off \<le> length source"
  shows "\<exists>ps end. splitUTF8_loop lib source off result = Inr (result @ ps) \<and>
    off \<le> end \<and> end \<le> length source \<and>
    concat ps @ drop end source = drop off source \<and> list_all (\<lambda>p. p \<noteq> []) ps \<and>
    (end = length source \<or> fst (U8_NEXT lib source end) < 0)"
  using assms
proof (induction lib source off result rule: splitUTF8_loop.induct)
  case (1 lib source off result)
  obtain c off' where n: "U8_NEXT lib source off = (c, off')" by fastforce
  consider "off = length source" | "off < length source" "c < 0" | "off < length source" "0 \<le> c"
    using "1.prems"(2) by linarith
  then show ?case
  proof cases
    case 3
    with "1.prems"(1) n have o: "off < off'" "off' \<le> length source"
      unfolding U8_NEXT_advances_def by (auto dest!: spec [of _ source] spec [of _ off])
    define p where "p = take (off' - off) (drop off source)"
    from "1.IH" [OF 3(1) n [symmetric] refl] 3 o "1.prems"(1)
    obtain ps e where "splitUTF8_loop lib source off' (result @ [p]) = Inr ((result @ [p]) @ ps)"
      and e: "off' \<le> e" "e \<le> length source" "concat ps @ drop e source = drop off' source"
        "list_all (\<lambda>p. p \<noteq> []) ps" "e = length source \<or> fst (U8_NEXT lib source e) < 0"
      unfolding p_def by auto
    then have "splitUTF8_loop lib source off result = Inr (result @ p # ps)"
      using 3 n o by (subst splitUTF8_loop.simps) (simp add: p_def)
    moreover have "concat (p # ps) @ drop e source = drop off source"
      using e(3) o append_take_drop_id [of "off' - off" "drop off source"] by (simp add: p_def)
    moreover have "list_all (\<lambda>p. p \<noteq> []) (p # ps)" using e(4) o 3(1) by (simp add: p_def)
    ultimately show ?thesis
      using e o by (intro exI [of _ "p # ps"] exI [of _ e]) auto
  qed (use n in \<open>auto simp: splitUTF8_loop.simps intro!: exI [of _ "[]"] exI [of _ off]\<close>)
qed

lemma splitUTF8_total:
  assumes "U8_NEXT_advances lib"
  obtains ps e where "splitUTF8 lib source = Inr ps" and "e \<le> length source"
    and "concat ps = take e source" and "list_all (\<lambda>p. p \<noteq> []) ps"
    and "e = length source \<or> fst (U8_NEXT lib source e) < 0"
proof -
  from splitUTF8_loop_total [OF assms, of 0 source "[]"]
  obtain ps e where *: "splitUTF8 lib source = Inr ps" "e \<le> length source"
    "concat ps @ drop e source = source" "list_all (\<lambda>p. p \<noteq> []) ps"
    "e = length source \<or> fst (U8_NEXT lib source e) < 0"
    by (auto simp: splitUTF8_def)
  then have "concat ps = take e source" by (metis append_same_eq append_take_drop_id)
  with * that show ?thesis by blast
qed

lemma splitUTF8_loop_subset:
  "splitUTF8_loop lib source off result = Inr r \<Longrightarrow>
     \<forall>p\<in>set result. set p \<subseteq> set source \<Longrightarrow> \<forall>p\<in>set r. set p \<subseteq> set source"
proof (induction lib source off result rule: splitUTF8_loop.induct)
  case (1 lib source off result)
  obtain c off' where n: "U8_NEXT lib source off = (c, off')" by fastforce
  have "set (take (off' - off) (drop off source)) \<subseteq> set source"
    by (meson order_trans set_drop_subset set_take_subset)
  with 1 n show ?case
    by (subst (asm) (2) splitUTF8_loop.simps) (auto split: if_splits)
qed

lemma splitUTF8_subset: "splitUTF8 lib source = Inr r \<Longrightarrow> p \<in> set r \<Longrightarrow> set p \<subseteq> set source"
  unfolding splitUTF8_def by (drule splitUTF8_loop_subset) auto

lemma concat_flush [simp]: "concat (flush sb result) = concat result @ sb"
  by (simp add: flush_def)

lemma flush_nonempty: "[] \<notin> set result \<Longrightarrow> [] \<notin> set (flush sb result)"
  by (auto simp: flush_def)

text \<open>The characters the word filters keep.\<close>

definition kept_in_word :: "unicode_lib \<Rightarrow> UCharBreakAttr \<Rightarrow> nat \<Rightarrow> bool" where
  "kept_in_word lib a wc \<longleftrightarrow> letter_or_number (g_unichar_type lib wc) \<or> \<not> is_word_boundary a"

definition utf8_of :: "unicode_lib \<Rightarrow> nat \<Rightarrow> WString" where
  "utf8_of lib wc = takeWhile (\<lambda>b. b \<noteq> 0) (g_unichar_to_utf8 lib wc)"

lemma words_loop_total:
  assumes "i + length p \<le> length attrs" and "\<forall>wc\<in>set p. length (utf8_of lib wc) < 6"
    and "[] \<notin> set result"
  shows "\<exists>ws. words_loop lib p attrs i sb result = Inr ws \<and> [] \<notin> set ws \<and>
    concat ws = concat result @ sb @
      concat (map (\<lambda>(a, wc). utf8_of lib wc) (filter (\<lambda>(a, wc). kept_in_word lib a wc) (zip (drop i attrs) p)))"
  using assms
proof (induction p arbitrary: i sb result)
  case Nil
  then show ?case by (simp add: flush_nonempty)
next
  case (Cons wc p)
  then have z: "zip (drop i attrs) (wc # p) = (attrs ! i, wc) # zip (drop (Suc i) attrs) p"
    by (simp add: Cons_nth_drop_Suc [symmetric])
  have a: "break_attr attrs i = Inr (attrs ! i)" using Cons.prems by (simp add: break_attr_def)
  have b: "utf8_buf lib wc = Inr (utf8_of lib wc)"
    using Cons.prems by (simp add: utf8_buf_def utf8_of_def)
  show ?case
    unfolding z words_loop.simps a b
    using Cons.IH [of "Suc i" "flush sb result" "utf8_of lib wc"]
      Cons.IH [of "Suc i" result "sb @ utf8_of lib wc"] Cons.IH [of "Suc i" result sb] Cons.prems
      flush_nonempty [of result sb]
    by (auto simp: kept_in_word_def)
qed

lemma sentences_loop_total:
  assumes "i + length p \<le> length attrs" and "\<forall>wc\<in>set p. length (utf8_of lib wc) < 6"
    and "[] \<notin> set result"
  shows "\<exists>ws. sentences_loop lib p attrs i sb result = Inr ws \<and> [] \<notin> set ws \<and>
    concat ws = concat result @ sb @
      concat (map (\<lambda>(a, wc). utf8_of lib wc)
        (filter (\<lambda>(a, wc). \<not> is_sentence_boundary a \<or> letter_or_number (g_unichar_type lib wc))
          (zip (drop i attrs) p)))"
  using assms
proof (induction p arbitrary: i sb result)
  case Nil
  then show ?case by (simp add: flush_nonempty)
next
  case (Cons wc p)
  then have z: "zip (drop i attrs) (wc # p) = (attrs ! i, wc) # zip (drop (Suc i) attrs) p"
    by (simp add: Cons_nth_drop_Suc [symmetric])
  have a: "break_attr attrs i = Inr (attrs ! i)" using Cons.prems by (simp add: break_attr_def)
  have b: "utf8_buf lib wc = Inr (utf8_of lib wc)"
    using Cons.prems by (simp add: utf8_buf_def utf8_of_def)
  show ?case
    unfolding z sentences_loop.simps a b
    using Cons.IH [of "Suc i" "flush sb result" "utf8_of lib wc"]
      Cons.IH [of "Suc i" result "sb @ utf8_of lib wc"] Cons.IH [of "Suc i" "flush sb result" "[]"]
      Cons.prems flush_nonempty [of result sb]
    by auto
qed

end
