(* ===== verification/Filters_Line.thy ===== *)
theory Filters_Line
  imports Filter_Select UChar_Breaker
begin

text \<open>
  The line filters (src/Source/PurCFetcher/network/filter/Line*Filter.cpp), which work on the
  rows of the command's output. A row is a vector of columns; the strings are 8-bit, which is
  what makes \<open>characters8()\<close> on them defined. The locale \<open>line_splitter\<close> is what the splitting
  filters have in common: they replace each row by rows of its own.
\<close>

section \<open>Head, tail, pick, cut and ignore\<close>

definition LineHeadFilter_doFilter :: "unicode_lib \<Rightarrow> Row list \<Rightarrow> WString \<Rightarrow> Row list res" where
  "LineHeadFilter_doFilter lib lines param = head_select lib lines param"

definition LineTailFilter_doFilter :: "unicode_lib \<Rightarrow> Row list \<Rightarrow> WString \<Rightarrow> Row list res" where
  "LineTailFilter_doFilter lib lines param = tail_select lib lines param"

definition LinePickFilter_doFilter :: "unicode_lib \<Rightarrow> Row list \<Rightarrow> WString \<Rightarrow> Row list res" where
  "LinePickFilter_doFilter lib lines param = pick_select lib lines param"

definition LineCutFilter_doFilter :: "unicode_lib \<Rightarrow> Row list \<Rightarrow> WString \<Rightarrow> Row list res" where
  "LineCutFilter_doFilter lib lines param = cut_select lib lines param"

definition LineIgnoreFilter_doFilter :: "unicode_lib \<Rightarrow> Row list \<Rightarrow> WString \<Rightarrow> Row list res" where
  "LineIgnoreFilter_doFilter lib lines param = line_ignore_select lib lines param"

section \<open>Split\<close>

text \<open>
  The loop of \<open>splitRowByUChar\<close> over the columns, which the word and sentence filters repeat
  with their own \<open>splitLine\<close>: the first piece joins the row in progress, the middle pieces are
  rows of their own, and the last piece starts the next row.
\<close>

fun splitRow_loop ::
  "(WString \<Rightarrow> WString list res) \<Rightarrow> Row \<Rightarrow> Row \<Rightarrow> Row list \<Rightarrow> Row list res" where
  "splitRow_loop splitLine [] lastRow rowVec = Inr rowVec"
| "splitRow_loop splitLine (column # row) lastRow rowVec =
     bind_res (splitLine column) (\<lambda>splitRet.
       bind_res (vector_at splitRet 0) (\<lambda>first.
         let rowVec = rowVec @ [lastRow @ [first]]
         in if length splitRet = 1 then splitRow_loop splitLine row [] rowVec
            else let last = length splitRet - 1;
                     rowVec = rowVec @ map (\<lambda>j. [splitRet ! j]) [1..<last]
                 in splitRow_loop splitLine row [splitRet ! last] rowVec))"

definition LineSplitFilter_splitRowByUChar :: "Row \<Rightarrow> UChar \<Rightarrow> Row list res" where
  "LineSplitFilter_splitRowByUChar row uc =
     splitRow_loop (\<lambda>column. Inr (split_UChar column uc)) row [] []"

function LineSplitFilter_doFilter :: "Row list \<Rightarrow> WString \<Rightarrow> Row list res"
  and LineSplitFilter_splitRow :: "Row \<Rightarrow> WString \<Rightarrow> Row list res" where
  "LineSplitFilter_doFilter rowVec param =
     (if param = [] \<or> rowVec = [] then Inr rowVec
      else concat_map_res (\<lambda>row. LineSplitFilter_splitRow row param) rowVec)"
| "LineSplitFilter_splitRow row param =
     (if 1 < length param then
        bind_res (LineSplitFilter_splitRowByUChar row (hd param)) (\<lambda>result.
          LineSplitFilter_doFilter result (substring param 1 (length param - 1)))
      else LineSplitFilter_splitRowByUChar row (hd param))"
  by pat_completeness auto

termination
  by (relation "measure (case_sum (\<lambda>(_, param). 2 * length param) (\<lambda>(_, param). 2 * length param - 1))")
    auto

declare LineSplitFilter_doFilter.simps [simp del] LineSplitFilter_splitRow.simps [simp del]

section \<open>Characters and letters\<close>

definition LineCharsFilter_splitLine :: "unicode_lib \<Rightarrow> WString \<Rightarrow> WString list res" where
  "LineCharsFilter_splitLine lib line = (if line = [] then Inr [] else splitUTF8 lib line)"

definition LineCharsFilter_doFilterInner :: "unicode_lib \<Rightarrow> Row \<Rightarrow> WString list res" where
  "LineCharsFilter_doFilterInner lib lines =
     (if lines = [] then Inr lines else concat_map_res (LineCharsFilter_splitLine lib) lines)"

definition LineCharsFilter_splitRow :: "unicode_lib \<Rightarrow> Row \<Rightarrow> Row list res" where
  "LineCharsFilter_splitRow lib row =
     bind_res (LineCharsFilter_doFilterInner lib row) (\<lambda>lineVec. Inr (map (\<lambda>line. [line]) lineVec))"

definition LineCharsFilter_doFilter :: "unicode_lib \<Rightarrow> Row list \<Rightarrow> WString \<Rightarrow> Row list res" where
  "LineCharsFilter_doFilter lib rowVec param =
     (if rowVec = [] then Inr rowVec else concat_map_res (LineCharsFilter_splitRow lib) rowVec)"

definition LineLettersFilter_splitLine :: "unicode_lib \<Rightarrow> WString \<Rightarrow> WString list res" where
  "LineLettersFilter_splitLine lib line = (if line = [] then Inr [] else splitUTF8 lib line)"

definition LineLettersFilter_doFilterInner :: "unicode_lib \<Rightarrow> Row \<Rightarrow> WString list res" where
  "LineLettersFilter_doFilterInner lib lines =
     (if lines = [] then Inr lines
      else bind_res (concat_map_res (LineLettersFilter_splitLine lib) lines) (\<lambda>result.
        if result = [] then Inr result
        else Inr (filter (\<lambda>s. letter_or_number (g_unichar_type lib (g_utf8_get_char lib s))) result)))"

definition LineLettersFilter_splitRow :: "unicode_lib \<Rightarrow> Row \<Rightarrow> Row list res" where
  "LineLettersFilter_splitRow lib row =
     bind_res (LineLettersFilter_doFilterInner lib row) (\<lambda>lineVec. Inr (map (\<lambda>line. [line]) lineVec))"

definition LineLettersFilter_doFilter :: "unicode_lib \<Rightarrow> Row list \<Rightarrow> WString \<Rightarrow> Row list res" where
  "LineLettersFilter_doFilter lib rowVec param =
     (if rowVec = [] then Inr rowVec else concat_map_res (LineLettersFilter_splitRow lib) rowVec)"

section \<open>Words and sentences\<close>

text \<open>These two keep a language, \<open>m_lang\<close>, set by the first call; nothing reads it.\<close>

definition LineWordsFilter_splitLine :: "unicode_lib \<Rightarrow> WString \<Rightarrow> WString list res" where
  "LineWordsFilter_splitLine lib line =
     (if line = [] then Inr [] else words_of_breaker lib (UCharBreaker_new line))"

definition LineWordsFilter_splitRow :: "unicode_lib \<Rightarrow> Row \<Rightarrow> Row list res" where
  "LineWordsFilter_splitRow lib row = splitRow_loop (LineWordsFilter_splitLine lib) row [] []"

definition LineWordsFilter_doFilter ::
  "unicode_lib \<Rightarrow> WString \<Rightarrow> Row list \<Rightarrow> WString \<Rightarrow> (WString \<times> Row list) res" where
  "LineWordsFilter_doFilter lib m_lang rowVec param =
     (let m_lang = (if m_lang = [] then (if param = [] then ascii ''en'' else param) else m_lang)
      in if rowVec = [] then Inr (m_lang, rowVec)
         else bind_res (concat_map_res (LineWordsFilter_splitRow lib) rowVec) (\<lambda>result.
           Inr (m_lang, result)))"

definition LineSentencesFilter_splitLine :: "unicode_lib \<Rightarrow> WString \<Rightarrow> WString list res" where
  "LineSentencesFilter_splitLine lib line =
     (if line = [] then Inr [] else sentences_of_breaker lib (UCharBreaker_new line))"

definition LineSentencesFilter_splitRow :: "unicode_lib \<Rightarrow> Row \<Rightarrow> Row list res" where
  "LineSentencesFilter_splitRow lib row =
     splitRow_loop (LineSentencesFilter_splitLine lib) row [] []"

definition LineSentencesFilter_doFilter ::
  "unicode_lib \<Rightarrow> WString \<Rightarrow> Row list \<Rightarrow> WString \<Rightarrow> (WString \<times> Row list) res" where
  "LineSentencesFilter_doFilter lib m_lang rowVec param =
     (let m_lang = (if m_lang = [] then (if param = [] then ascii ''en'' else param) else m_lang)
      in if rowVec = [] then Inr (m_lang, rowVec)
         else bind_res (concat_map_res (LineSentencesFilter_splitRow lib) rowVec) (\<lambda>result.
           Inr (m_lang, result)))"

section \<open>What the splitting filters share\<close>

locale line_splitter =
  fixes splitRow :: "Row \<Rightarrow> Row list res"
    and doFilter :: "Row list \<Rightarrow> Row list res"
  assumes doFilter_rows: "doFilter rowVec = concat_map_res splitRow rowVec"
    and splitRow_latin1: "latin1_row row \<Longrightarrow> splitRow row = Inr rows \<Longrightarrow> latin1_rows rows"
begin

lemma doFilter_append:
  "doFilter (xs @ ys) = bind_res (doFilter xs) (\<lambda>a. bind_res (doFilter ys) (\<lambda>b. Inr (a @ b)))"
  by (simp add: doFilter_rows concat_map_res_append)

lemma doFilter_single: "doFilter [row] = splitRow row"
  by (cases "splitRow row") (simp_all add: doFilter_rows)

lemma doFilter_latin1:
  assumes "latin1_rows rowVec" and "doFilter rowVec = Inr rows"
  shows "latin1_rows rows"
proof -
  have "latin1_row r" if "r \<in> set rows" for r
  proof -
    from concat_map_res_set [OF assms(2) [unfolded doFilter_rows] that]
    obtain row rs where "row \<in> set rowVec" "splitRow row = Inr rs" "r \<in> set rs" by auto
    with assms(1) splitRow_latin1 show ?thesis unfolding latin1_rows_def by blast
  qed
  then show ?thesis by (simp add: latin1_rows_def)
qed

end

lemma splitRow_loop_latin1:
  assumes "\<And>c ps. latin1 c \<Longrightarrow> splitLine c = Inr ps \<Longrightarrow> latin1_row ps"
    and "latin1_row row" and "latin1_row lastRow" and "latin1_rows rowVec"
    and "splitRow_loop splitLine row lastRow rowVec = Inr r"
  shows "latin1_rows r"
  using assms(2-)
proof (induction row arbitrary: lastRow rowVec)
  case (Cons c row)
  from Cons.prems(4) obtain ps where ps: "splitLine c = Inr ps" "0 < length ps"
    by (auto simp: bind_res_Inr_iff vector_at_Inr_iff)
  with assms(1) Cons.prems(1) have "latin1_row ps" by auto
  then have nth: "latin1 (ps ! j)" if "j < length ps" for j using that by (simp add: latin1_row_def)
  then have mid: "latin1_rows (map (\<lambda>j. [ps ! j]) [1..<length ps - 1])"
    by (auto simp: latin1_rows_def)
  have hd: "vector_at ps 0 = Inr (ps ! 0)" using ps(2) by (simp add: vector_at_def)
  show ?case
  proof (cases "length ps = 1")
    case True
    with Cons.prems ps hd nth show ?thesis by (intro Cons.IH [of "[]" "rowVec @ [lastRow @ [ps ! 0]]"]) auto
  next
    case False
    with Cons.prems ps hd have "splitRow_loop splitLine row [ps ! (length ps - 1)]
        ((rowVec @ [lastRow @ [ps ! 0]]) @ map (\<lambda>j. [ps ! j]) [1..<length ps - 1]) = Inr r"
      by (simp add: Let_def)
    then show ?thesis
      by (rule Cons.IH [rotated -1]) (use Cons.prems ps(2) nth mid in auto)
  qed
qed simp

lemma splitRowByUChar_latin1:
  "latin1_row row \<Longrightarrow> LineSplitFilter_splitRowByUChar row uc = Inr rows \<Longrightarrow> latin1_rows rows"
  unfolding LineSplitFilter_splitRowByUChar_def
  by (erule splitRow_loop_latin1 [rotated -1]) (auto intro: latin1_split_UChar)

lemma LineSplit_doFilter_eq:
  "param \<noteq> [] \<Longrightarrow> LineSplitFilter_doFilter rows param =
     concat_map_res (\<lambda>row. LineSplitFilter_splitRow row param) rows"
  by (subst LineSplitFilter_doFilter.simps) (cases "rows = []", simp_all)

interpretation split_at: line_splitter "\<lambda>row. LineSplitFilter_splitRowByUChar row uc"
  "\<lambda>rows. LineSplitFilter_doFilter rows [uc]" for uc
proof
  show "LineSplitFilter_doFilter rowVec [uc] =
      concat_map_res (\<lambda>row. LineSplitFilter_splitRowByUChar row uc) rowVec" for rowVec
    by (simp add: LineSplit_doFilter_eq LineSplitFilter_splitRow.simps [of _ "[uc]"])
qed (rule splitRowByUChar_latin1)

lemma splitUTF8_latin1: "latin1 s \<Longrightarrow> splitUTF8 lib s = Inr ps \<Longrightarrow> latin1_row ps"
  using splitUTF8_subset [of lib s ps] by (auto simp: latin1_row_def latin1_def)

lemma concat_map_latin1_row:
  assumes "\<And>c ps. latin1 c \<Longrightarrow> f c = Inr ps \<Longrightarrow> latin1_row ps"
    and "latin1_row row" and "concat_map_res f row = Inr r"
  shows "latin1_row r"
  unfolding latin1_row_def
proof
  fix s assume "s \<in> set r"
  from concat_map_res_set [OF assms(3) this] obtain c ps
    where "c \<in> set row" "f c = Inr ps" "s \<in> set ps" by auto
  with assms(1,2) show "latin1 s" unfolding latin1_row_def by blast
qed

lemma latin1_singletons: "latin1_row r \<Longrightarrow> latin1_rows (map (\<lambda>line. [line]) r)"
  by (auto simp: latin1_rows_def latin1_row_def)

lemma LineChars_inner_latin1:
  assumes "latin1_row row" and "LineCharsFilter_doFilterInner lib row = Inr r"
  shows "latin1_row r"
proof (cases "row = []")
  case False
  with assms(2) have "concat_map_res (LineCharsFilter_splitLine lib) row = Inr r"
    by (simp add: LineCharsFilter_doFilterInner_def)
  with assms(1) show ?thesis
    by (rule concat_map_latin1_row [rotated])
      (auto simp: LineCharsFilter_splitLine_def split: if_splits dest: splitUTF8_latin1)
qed (use assms in \<open>simp add: LineCharsFilter_doFilterInner_def\<close>)

lemma LineLetters_inner_latin1:
  assumes "latin1_row row" and "LineLettersFilter_doFilterInner lib row = Inr r"
  shows "latin1_row r"
proof (cases "row = []")
  case False
  with assms(2) obtain q where q: "concat_map_res (LineLettersFilter_splitLine lib) row = Inr q"
    and "set r \<subseteq> set q"
    by (auto simp: LineLettersFilter_doFilterInner_def bind_res_Inr_iff split: if_splits)
  from assms(1) q have "latin1_row q"
    by (rule concat_map_latin1_row [rotated])
      (auto simp: LineLettersFilter_splitLine_def split: if_splits dest: splitUTF8_latin1)
  with \<open>set r \<subseteq> set q\<close> show ?thesis by (rule latin1_row_subset)
qed (use assms in \<open>simp add: LineLettersFilter_doFilterInner_def\<close>)

interpretation line_chars: line_splitter "LineCharsFilter_splitRow lib"
  "\<lambda>rows. LineCharsFilter_doFilter lib rows param" for lib param
  by unfold_locales
    (auto simp: LineCharsFilter_doFilter_def LineCharsFilter_splitRow_def bind_res_Inr_iff
      intro!: latin1_singletons dest: LineChars_inner_latin1)

interpretation line_letters: line_splitter "LineLettersFilter_splitRow lib"
  "\<lambda>rows. LineLettersFilter_doFilter lib rows param" for lib param
  by unfold_locales
    (auto simp: LineLettersFilter_doFilter_def LineLettersFilter_splitRow_def bind_res_Inr_iff
      intro!: latin1_singletons dest: LineLetters_inner_latin1)

text \<open>The breaker of the word and sentence filters has no characters.\<close>

lemma splitLine_no_words:
  "LineWordsFilter_splitLine lib line = Inr []" "LineSentencesFilter_splitLine lib line = Inr []"
  by (simp_all add: LineWordsFilter_splitLine_def LineSentencesFilter_splitLine_def
      words_of_breaker_def sentences_of_breaker_def UCharBreaker_new_def flush_def)

lemma splitRow_loop_empty:
  "(\<And>c. splitLine c = Inr []) \<Longrightarrow>
     splitRow_loop splitLine row lastRow rowVec = (if row = [] then Inr rowVec else Inl VectorOverflow)"
  by (cases row) (simp_all add: vector_at_def)

lemma words_splitRow:
  "LineWordsFilter_splitRow lib row = (if row = [] then Inr [] else Inl VectorOverflow)"
  "LineSentencesFilter_splitRow lib row = (if row = [] then Inr [] else Inl VectorOverflow)"
  by (simp_all add: LineWordsFilter_splitRow_def LineSentencesFilter_splitRow_def
      splitRow_loop_empty splitLine_no_words)

interpretation line_words: line_splitter "LineWordsFilter_splitRow lib"
  "\<lambda>rows. map_sum id snd (LineWordsFilter_doFilter lib m_lang rows param)" for lib m_lang param
proof
  show "map_sum id snd (LineWordsFilter_doFilter lib m_lang rowVec param) =
      concat_map_res (LineWordsFilter_splitRow lib) rowVec" for rowVec
    by (cases "concat_map_res (LineWordsFilter_splitRow lib) rowVec")
      (auto simp: LineWordsFilter_doFilter_def Let_def)
qed (auto simp: words_splitRow split: if_splits)

interpretation line_sentences: line_splitter "LineSentencesFilter_splitRow lib"
  "\<lambda>rows. map_sum id snd (LineSentencesFilter_doFilter lib m_lang rows param)" for lib m_lang param
proof
  show "map_sum id snd (LineSentencesFilter_doFilter lib m_lang rowVec param) =
      concat_map_res (LineSentencesFilter_splitRow lib) rowVec" for rowVec
    by (cases "concat_map_res (LineSentencesFilter_splitRow lib) rowVec")
      (auto simp: LineSentencesFilter_doFilter_def Let_def)
qed (auto simp: words_splitRow split: if_splits)

lemma concat_map_crash:
  assumes "\<And>x. f x = (if P x then Inr [] else Inl e)"
  shows "\<exists>x\<in>set xs. \<not> P x \<Longrightarrow> concat_map_res f xs = Inl e"
proof (induction xs)
  case (Cons x xs)
  then show ?case by (cases "P x") (auto simp: assms)
qed simp

lemma words_crash:
  assumes "\<exists>row\<in>set rows. row \<noteq> []"
  shows "LineWordsFilter_doFilter lib m_lang rows param = Inl VectorOverflow"
    and "LineSentencesFilter_doFilter lib m_lang rows param = Inl VectorOverflow"
proof -
  have "concat_map_res (LineWordsFilter_splitRow lib) rows = Inl VectorOverflow"
    and "concat_map_res (LineSentencesFilter_splitRow lib) rows = Inl VectorOverflow"
    by (rule concat_map_crash [OF words_splitRow(1) assms] concat_map_crash [OF words_splitRow(2) assms])+
  with assms show "LineWordsFilter_doFilter lib m_lang rows param = Inl VectorOverflow"
    and "LineSentencesFilter_doFilter lib m_lang rows param = Inl VectorOverflow"
    by (auto simp: LineWordsFilter_doFilter_def LineSentencesFilter_doFilter_def)
qed

section \<open>Facts on split\<close>

lemma splitRow_loop_fault:
  assumes "\<And>c. \<exists>ps. splitLine c = Inr ps"
  shows "splitRow_loop splitLine row lastRow rowVec = Inl e \<Longrightarrow> e = VectorOverflow"
proof (induction row arbitrary: lastRow rowVec)
  case (Cons c row)
  from assms [of c] obtain ps where "splitLine c = Inr ps" ..
  with Cons show ?case
    by (cases "vector_at ps 0") (auto simp: Let_def vector_at_def split: if_splits)
qed simp

lemma splitRowByUChar_fault:
  "LineSplitFilter_splitRowByUChar row uc = Inl e \<Longrightarrow> e = VectorOverflow"
  unfolding LineSplitFilter_splitRowByUChar_def by (erule splitRow_loop_fault [rotated]) simp

lemma concat_map_res_fault:
  "(\<And>x. f x = Inl e \<Longrightarrow> e = e0) \<Longrightarrow> concat_map_res f xs = Inl e \<Longrightarrow> e = e0"
  by (induction xs) (auto simp: bind_res_Inl_iff)

lemma concat_map_res_bind:
  assumes "\<And>x e. f x = Inl e \<Longrightarrow> e = e0" and "\<And>x e. h x = Inl e \<Longrightarrow> e = e0"
  shows "concat_map_res (\<lambda>x. bind_res (f x) (concat_map_res h)) xs =
    bind_res (concat_map_res f xs) (concat_map_res h)"
proof (induction xs)
  case (Cons x xs)
  show ?case
  proof (cases "f x")
    case (Inr u)
    show ?thesis
    proof (cases "concat_map_res h u")
      case (Inl e)
      then have "e = e0" by (rule concat_map_res_fault [rotated]) (rule assms(2))
      moreover have "concat_map_res f xs = Inl e' \<Longrightarrow> e' = e0" for e'
        by (erule concat_map_res_fault [rotated]) (rule assms(1))
      ultimately show ?thesis
        using Inl Inr by (cases "concat_map_res f xs") (auto simp: concat_map_res_append)
    next
      case (Inr a)
      with Cons.IH \<open>f x = Inr u\<close> show ?thesis
        by (cases "concat_map_res f xs") (simp_all add: concat_map_res_append)
    qed
  qed simp
qed simp

lemma LineSplit_splitRow_fault:
  "LineSplitFilter_splitRow row param = Inl e \<Longrightarrow> e = VectorOverflow"
proof (induction "length param" arbitrary: row param e rule: less_induct)
  case less
  show ?case
  proof (cases "1 < length param")
    case False
    with less.prems show ?thesis
      by (auto simp: LineSplitFilter_splitRow.simps [of row param] dest: splitRowByUChar_fault)
  next
    case True
    then have ne: "tl param \<noteq> []" by (cases param) auto
    from True less.prems consider
        "LineSplitFilter_splitRowByUChar row (hd param) = Inl e"
      | rows where "concat_map_res (\<lambda>row. LineSplitFilter_splitRow row (tl param)) rows = Inl e"
      by (auto simp: LineSplitFilter_splitRow.simps [of row param] bind_res_Inl_iff LineSplit_doFilter_eq ne drop_Suc)
    then show ?thesis
    proof cases
      case 2
      from True have "length (tl param) < length param" by (cases param) auto
      from concat_map_res_fault [OF _ 2, of VectorOverflow] less.hyps [OF this] show ?thesis by blast
    qed (rule splitRowByUChar_fault)
  qed
qed

lemma LineSplit_Cons:
  assumes "cs \<noteq> []"
  shows "LineSplitFilter_doFilter rows (c # cs) =
    bind_res (LineSplitFilter_doFilter rows [c]) (\<lambda>rs. LineSplitFilter_doFilter rs cs)"
proof -
  have "LineSplitFilter_splitRow row (c # cs) =
      bind_res (LineSplitFilter_splitRowByUChar row c)
        (concat_map_res (\<lambda>row. LineSplitFilter_splitRow row cs))" for row
    using assms by (simp add: LineSplitFilter_splitRow.simps [of row "c # cs"] LineSplit_doFilter_eq)
  moreover have "concat_map_res (\<lambda>row. bind_res (LineSplitFilter_splitRowByUChar row c)
        (concat_map_res (\<lambda>row. LineSplitFilter_splitRow row cs))) rows =
      bind_res (concat_map_res (\<lambda>row. LineSplitFilter_splitRowByUChar row c) rows)
        (concat_map_res (\<lambda>row. LineSplitFilter_splitRow row cs))"
    by (rule concat_map_res_bind) (erule splitRowByUChar_fault LineSplit_splitRow_fault)+
  ultimately show ?thesis
    using assms by (simp add: LineSplit_doFilter_eq LineSplitFilter_splitRow.simps [of _ "[c]"])
qed

lemma splitRowByUChar_single:
  "LineSplitFilter_splitRowByUChar [s] c =
     (case split_UChar s c of
        [] \<Rightarrow> Inl VectorOverflow
      | [p] \<Rightarrow> Inr [[p]]
      | p # q # ps \<Rightarrow> Inr (map (\<lambda>p. [p]) (butlast (p # q # ps))))"
proof -
  have "map (\<lambda>j. [ps ! j]) [1..<length ps - 1] = map (\<lambda>p. [p]) (tl (butlast ps))"
    for ps :: "WString list"
    by (rule nth_equalityI) (auto simp: nth_tl nth_butlast)
  then show ?thesis
    by (auto simp: LineSplitFilter_splitRowByUChar_def vector_at_def Let_def split: list.splits)
qed

section \<open>Properties\<close>

text \<open>
  C10 The pick and cut line filters, with a parameter \<open>left,right\<close> whose stride is positive and
  does not overflow \<open>int\<close>: pick returns the rows with index \<open>right\<close>, \<open>right + left\<close>,
  \<open>right + 2 * left\<close> and so on, in order, cut returns the other rows in order, and every row is in
  exactly one of the two.
\<close>

theorem line_pick_cut_partition:
  assumes "stride_params lib param = Inr (Some (left, right))"
    and "stride_safe left right (length lines)"
  shows "\<exists>picked kept.
    LinePickFilter_doFilter lib lines param = Inr picked \<and>
    LineCutFilter_doFilter lib lines param = Inr kept \<and>
    picked = nths lines {m. on_stride left right m} \<and>
    kept = nths lines {m. \<not> on_stride left right m} \<and>
    mset picked + mset kept = mset lines"
  using pick_select_eq [OF assms] cut_select_eq [OF assms]
  by (simp add: LinePickFilter_doFilter_def LineCutFilter_doFilter_def mset_nths_partition)

theorem line_pick_cut_partition_witness:
  "\<exists>picked kept.
    LinePickFilter_doFilter ascii_lib [[[97]], [[98]], [[99]], [[100]]] (ascii ''2, 1'') = Inr picked \<and>
    LineCutFilter_doFilter ascii_lib [[[97]], [[98]], [[99]], [[100]]] (ascii ''2, 1'') = Inr kept \<and>
    picked = [[[98]], [[100]]] \<and> kept = [[[97]], [[99]]]"
proof -
  have "stride_params ascii_lib (ascii ''2, 1'') = Inr (Some (2, 1))" by code_simp
  moreover have "stride_safe 2 1 (length [[[97::nat]], [[98]], [[99]], [[100]]])"
    by (simp add: stride_safe_def int_limits)
  ultimately show ?thesis
    using line_pick_cut_partition [of ascii_lib "ascii ''2, 1''" 2 1 "[[[97]], [[98]], [[99]], [[100]]]"]
    by (auto simp: nths_Cons on_stride_def)
qed

text \<open>
  C37 With a stride of zero or less and a start below the number of rows, neither pick nor cut
  returns a result: the index never reaches the size and the loop only ends in an overflow.
\<close>

theorem line_pick_cut_never_return:
  assumes "stride_params lib param = Inr (Some (left, right))" and "left \<le> 0"
    and "right < int (length lines)" and "lines \<noteq> []"
  shows "\<nexists>r. LinePickFilter_doFilter lib lines param = Inr r \<or>
    LineCutFilter_doFilter lib lines param = Inr r"
  using select_stuck [OF assms]
  by (simp add: LinePickFilter_doFilter_def LineCutFilter_doFilter_def)

theorem line_pick_cut_never_return_witness:
  "\<nexists>r. LinePickFilter_doFilter ascii_lib [[[97]]] (ascii ''0,0'') = Inr r \<or>
    LineCutFilter_doFilter ascii_lib [[[97]]] (ascii ''0,0'') = Inr r"
proof -
  have "stride_params ascii_lib (ascii ''0,0'') = Inr (Some (0, 0))" by code_simp
  from line_pick_cut_never_return [OF this, of "[[[97]]]"] show ?thesis by simp
qed

text \<open>
  The head and tail line filters with a limit that is not negative return the first and the
  last \<open>limit\<close> rows (all rows when there are fewer).
\<close>

theorem line_head_tail_limit:
  assumes "toInt lib param = Inr (Some limit)" and "0 \<le> limit"
  shows "LineHeadFilter_doFilter lib lines param = Inr (take (nat limit) lines) \<and>
    LineTailFilter_doFilter lib lines param = Inr (drop (length lines - nat limit) lines)"
  by (simp add: LineHeadFilter_doFilter_def LineTailFilter_doFilter_def
      head_select_eq [OF assms] tail_select_eq [OF assms])

theorem line_head_tail_limit_witness:
  "LineHeadFilter_doFilter ascii_lib [[[97]], [[98]], [[99]]] (ascii ''2'') = Inr [[[97]], [[98]]] \<and>
   LineTailFilter_doFilter ascii_lib [[[97]], [[98]], [[99]]] (ascii ''2'') = Inr [[[98]], [[99]]]"
proof -
  have "toInt ascii_lib (ascii ''2'') = Inr (Some 2)" by code_simp
  from line_head_tail_limit [OF this, of "[[[97]], [[98]], [[99]]]"] show ?thesis by simp
qed

text \<open>
  A negative limit on a non-empty list of rows is undefined behaviour in the head filter
  (\<open>shrink\<close> with a huge size) and a crash in the tail filter.
\<close>

theorem line_head_tail_negative_limit:
  assumes "toInt lib param = Inr (Some limit)" and "limit < 0" and "lines \<noteq> []"
  shows "LineHeadFilter_doFilter lib lines param = Inl OutOfBounds \<and>
    LineTailFilter_doFilter lib lines param = Inl VectorOverflow"
  using negative_limit [OF assms] by (simp add: LineHeadFilter_doFilter_def LineTailFilter_doFilter_def)

theorem line_head_tail_negative_limit_witness:
  "LineHeadFilter_doFilter ascii_lib [[[97]]] (ascii ''-1'') = Inl OutOfBounds \<and>
   LineTailFilter_doFilter ascii_lib [[[97]]] (ascii ''-1'') = Inl VectorOverflow"
proof -
  have "toInt ascii_lib (ascii ''-1'') = Inr (Some (- 1))" by code_simp
  from line_head_tail_negative_limit [OF this, of "[[[97]]]"] show ?thesis by simp
qed

text \<open>
  C34 The split filter with several separators splits at each of them in turn, though the code
  recurses row by row and never sees the rows of a stage together; a crash of one order is a
  crash of the other.
\<close>

theorem line_split_separators_in_turn:
  assumes "cs \<noteq> []"
  shows "LineSplitFilter_doFilter rows (c # cs) =
    bind_res (LineSplitFilter_doFilter rows [c]) (\<lambda>rs. LineSplitFilter_doFilter rs cs)"
  using assms by (rule LineSplit_Cons)

theorem line_split_separators_in_turn_witness:
  "LineSplitFilter_doFilter [[ascii ''a;b,c;d'']] (ascii '',;'') =
     bind_res (LineSplitFilter_doFilter [[ascii ''a;b,c;d'']] (ascii '','')) (\<lambda>rs.
       LineSplitFilter_doFilter rs (ascii '';''))"
  using line_split_separators_in_turn [of "ascii '';''" "[[ascii ''a;b,c;d'']]" 44]
  by (simp add: ascii_def)

text \<open>
  C38 What the split filter does with a row of one column: it crashes when the text has no piece,
  keeps a single piece, and otherwise returns every piece but the last as a row of its own. The
  last piece is lost: the loop puts it in a row it never appends.
\<close>

theorem line_split_loses_last_piece:
  "LineSplitFilter_doFilter [[s]] [c] =
     (case filter (\<lambda>p. p \<noteq> []) (pieces c s) of
        [] \<Rightarrow> Inl VectorOverflow
      | [p] \<Rightarrow> Inr [[p]]
      | p # q # ps \<Rightarrow> Inr (map (\<lambda>p. [p]) (butlast (p # q # ps))))"
  by (simp only: split_at.doFilter_single splitRowByUChar_single split_UChar_eq)

text \<open>
  C39 The word and sentence line filters crash on every input that has a column: the breaker they
  construct never computes its characters, so \<open>splitLine\<close> returns no piece and \<open>splitRet[0]\<close> is out
  of range.
\<close>

theorem line_words_sentences_crash:
  assumes "\<exists>row\<in>set rows. row \<noteq> []"
  shows "LineWordsFilter_doFilter lib m_lang rows param = Inl VectorOverflow \<and>
    LineSentencesFilter_doFilter lib m_lang rows param = Inl VectorOverflow"
  using words_crash [OF assms] by simp

theorem line_words_sentences_crash_witness:
  "LineWordsFilter_doFilter ascii_lib [] [[ascii ''two words'']] [] = Inl VectorOverflow \<and>
   LineSentencesFilter_doFilter ascii_lib [] [[ascii ''two words'']] [] = Inl VectorOverflow"
  by (rule line_words_sentences_crash) simp

end
