(* ===== verification/Filters_Column.thy ===== *)
theory Filters_Column
  imports Filters_Line
begin

text \<open>
  The column filters (src/Source/PurCFetcher/network/filter/Column*Filter.cpp), which work on
  the columns of each row. The locale \<open>column_filter\<close> is what all ten have in common: row \<open>i\<close> of the
  result is computed from row \<open>i\<close> of the input alone.
\<close>

section \<open>Head, tail, pick, cut and ignore\<close>

definition ColumnHeadFilter_doFilterInner :: "unicode_lib \<Rightarrow> Row \<Rightarrow> WString \<Rightarrow> Row res" where
  "ColumnHeadFilter_doFilterInner lib lines param = head_select lib lines param"

definition ColumnHeadFilter_doFilter :: "unicode_lib \<Rightarrow> Row list \<Rightarrow> WString \<Rightarrow> Row list res" where
  "ColumnHeadFilter_doFilter lib rowVec param =
     (if rowVec = [] then Inr rowVec
      else map_res (\<lambda>row. ColumnHeadFilter_doFilterInner lib row param) rowVec)"

definition ColumnTailFilter_doFilterInner :: "unicode_lib \<Rightarrow> Row \<Rightarrow> WString \<Rightarrow> Row res" where
  "ColumnTailFilter_doFilterInner lib lines param = tail_select lib lines param"

definition ColumnTailFilter_doFilter :: "unicode_lib \<Rightarrow> Row list \<Rightarrow> WString \<Rightarrow> Row list res" where
  "ColumnTailFilter_doFilter lib rowVec param =
     (if rowVec = [] then Inr rowVec
      else map_res (\<lambda>row. ColumnTailFilter_doFilterInner lib row param) rowVec)"

definition ColumnPickFilter_doFilterInner :: "unicode_lib \<Rightarrow> Row \<Rightarrow> WString \<Rightarrow> Row res" where
  "ColumnPickFilter_doFilterInner lib lines param = pick_select lib lines param"

definition ColumnPickFilter_doFilter :: "unicode_lib \<Rightarrow> Row list \<Rightarrow> WString \<Rightarrow> Row list res" where
  "ColumnPickFilter_doFilter lib rowVec param =
     (if rowVec = [] then Inr rowVec
      else map_res (\<lambda>row. ColumnPickFilter_doFilterInner lib row param) rowVec)"

definition ColumnCutFilter_doFilterInner :: "unicode_lib \<Rightarrow> Row \<Rightarrow> WString \<Rightarrow> Row res" where
  "ColumnCutFilter_doFilterInner lib lines param = cut_select lib lines param"

definition ColumnCutFilter_doFilter :: "unicode_lib \<Rightarrow> Row list \<Rightarrow> WString \<Rightarrow> Row list res" where
  "ColumnCutFilter_doFilter lib rowVec param =
     (if rowVec = [] then Inr rowVec
      else map_res (\<lambda>row. ColumnCutFilter_doFilterInner lib row param) rowVec)"

definition ColumnIgnoreFilter_doFilterInner :: "unicode_lib \<Rightarrow> Row \<Rightarrow> WString \<Rightarrow> Row res" where
  "ColumnIgnoreFilter_doFilterInner lib lines param = column_ignore_select lib lines param"

definition ColumnIgnoreFilter_doFilter :: "unicode_lib \<Rightarrow> Row list \<Rightarrow> WString \<Rightarrow> Row list res" where
  "ColumnIgnoreFilter_doFilter lib rowVec param =
     (if rowVec = [] then Inr rowVec
      else map_res (\<lambda>row. ColumnIgnoreFilter_doFilterInner lib row param) rowVec)"

section \<open>Characters and letters\<close>

definition ColumnCharsFilter_splitLine :: "unicode_lib \<Rightarrow> WString \<Rightarrow> WString list res" where
  "ColumnCharsFilter_splitLine lib line = (if line = [] then Inr [] else splitUTF8 lib line)"

definition ColumnCharsFilter_filterInnter :: "unicode_lib \<Rightarrow> Row \<Rightarrow> Row res" where
  "ColumnCharsFilter_filterInnter lib lines =
     (if lines = [] then Inr lines else concat_map_res (ColumnCharsFilter_splitLine lib) lines)"

definition ColumnCharsFilter_splitRow :: "unicode_lib \<Rightarrow> Row \<Rightarrow> Row list res" where
  "ColumnCharsFilter_splitRow lib row =
     bind_res (ColumnCharsFilter_filterInnter lib row) (\<lambda>r. Inr [r])"

definition ColumnCharsFilter_doFilter :: "unicode_lib \<Rightarrow> Row list \<Rightarrow> WString \<Rightarrow> Row list res" where
  "ColumnCharsFilter_doFilter lib rowVec param =
     (if rowVec = [] then Inr rowVec else concat_map_res (ColumnCharsFilter_splitRow lib) rowVec)"

definition ColumnLettersFilter_splitLine :: "unicode_lib \<Rightarrow> WString \<Rightarrow> WString list res" where
  "ColumnLettersFilter_splitLine lib line = (if line = [] then Inr [] else splitUTF8 lib line)"

definition ColumnLettersFilter_filterInnter :: "unicode_lib \<Rightarrow> Row \<Rightarrow> Row res" where
  "ColumnLettersFilter_filterInnter lib lines =
     (if lines = [] then Inr lines
      else bind_res (concat_map_res (ColumnLettersFilter_splitLine lib) lines) (\<lambda>result.
        if result = [] then Inr result
        else Inr (filter (\<lambda>s. letter_or_number (g_unichar_type lib (g_utf8_get_char lib s))) result)))"

definition ColumnLettersFilter_splitRow :: "unicode_lib \<Rightarrow> Row \<Rightarrow> Row list res" where
  "ColumnLettersFilter_splitRow lib row =
     bind_res (ColumnLettersFilter_filterInnter lib row) (\<lambda>r. Inr [r])"

definition ColumnLettersFilter_doFilter :: "unicode_lib \<Rightarrow> Row list \<Rightarrow> WString \<Rightarrow> Row list res" where
  "ColumnLettersFilter_doFilter lib rowVec param =
     (if rowVec = [] then Inr rowVec else concat_map_res (ColumnLettersFilter_splitRow lib) rowVec)"

section \<open>Delimiter\<close>

function ColumnDelimiterFilter_filterInnter :: "Row \<Rightarrow> WString \<Rightarrow> Row res"
  and ColumnDelimiterFilter_splitLine :: "WString \<Rightarrow> WString \<Rightarrow> WString list res" where
  "ColumnDelimiterFilter_filterInnter lines param =
     (if lines = [] then Inr lines
      else concat_map_res (\<lambda>line. ColumnDelimiterFilter_splitLine line param) lines)"
| "ColumnDelimiterFilter_splitLine line param =
     (if 1 < length param then
        ColumnDelimiterFilter_filterInnter (split_UChar line (hd param))
          (substring param 1 (length param - 1))
      else split line param)"
  by pat_completeness auto

termination
  by (relation "measure (case_sum (\<lambda>(_, param). 2 * length param + 1) (\<lambda>(_, param). 2 * length param))")
    auto

declare ColumnDelimiterFilter_filterInnter.simps [simp del]
  ColumnDelimiterFilter_splitLine.simps [simp del]

definition ColumnDelimiterFilter_splitRow :: "Row \<Rightarrow> WString \<Rightarrow> Row list res" where
  "ColumnDelimiterFilter_splitRow row param =
     bind_res (ColumnDelimiterFilter_filterInnter row param) (\<lambda>r. Inr [r])"

definition ColumnDelimiterFilter_doFilter :: "Row list \<Rightarrow> WString \<Rightarrow> Row list res" where
  "ColumnDelimiterFilter_doFilter rowVec param =
     (if param = [] \<or> rowVec = [] then Inr rowVec
      else concat_map_res (\<lambda>row. ColumnDelimiterFilter_splitRow row param) rowVec)"

section \<open>Words and sentences\<close>

definition ColumnWordsFilter_splitLine :: "unicode_lib \<Rightarrow> WString \<Rightarrow> WString list res" where
  "ColumnWordsFilter_splitLine lib line =
     (if line = [] then Inr [] else words_of_breaker lib (UCharBreaker_new line))"

definition ColumnWordsFilter_filterInnter :: "unicode_lib \<Rightarrow> Row \<Rightarrow> Row res" where
  "ColumnWordsFilter_filterInnter lib lines =
     (if lines = [] then Inr lines else concat_map_res (ColumnWordsFilter_splitLine lib) lines)"

definition ColumnWordsFilter_splitRow :: "unicode_lib \<Rightarrow> Row \<Rightarrow> Row list res" where
  "ColumnWordsFilter_splitRow lib row =
     bind_res (ColumnWordsFilter_filterInnter lib row) (\<lambda>r. Inr [r])"

definition ColumnWordsFilter_doFilter ::
  "unicode_lib \<Rightarrow> WString \<Rightarrow> Row list \<Rightarrow> WString \<Rightarrow> (WString \<times> Row list) res" where
  "ColumnWordsFilter_doFilter lib m_lang rowVec param =
     (let m_lang = (if param = [] then ascii ''en'' else param)
      in if rowVec = [] then Inr (m_lang, rowVec)
         else bind_res (concat_map_res (ColumnWordsFilter_splitRow lib) rowVec) (\<lambda>result.
           Inr (m_lang, result)))"

definition ColumnSentencesFilter_splitLine :: "unicode_lib \<Rightarrow> WString \<Rightarrow> WString list res" where
  "ColumnSentencesFilter_splitLine lib line =
     (if line = [] then Inr [] else sentences_of_breaker lib (UCharBreaker_new line))"

definition ColumnSentencesFilter_filterInnter :: "unicode_lib \<Rightarrow> Row \<Rightarrow> Row res" where
  "ColumnSentencesFilter_filterInnter lib lines =
     (if lines = [] then Inr lines else concat_map_res (ColumnSentencesFilter_splitLine lib) lines)"

definition ColumnSentencesFilter_splitRow :: "unicode_lib \<Rightarrow> Row \<Rightarrow> Row list res" where
  "ColumnSentencesFilter_splitRow lib row =
     bind_res (ColumnSentencesFilter_filterInnter lib row) (\<lambda>r. Inr [r])"

definition ColumnSentencesFilter_doFilter ::
  "unicode_lib \<Rightarrow> WString \<Rightarrow> Row list \<Rightarrow> WString \<Rightarrow> (WString \<times> Row list) res" where
  "ColumnSentencesFilter_doFilter lib m_lang rowVec param =
     (let m_lang = (if param = [] then ascii ''en'' else param)
      in if rowVec = [] then Inr (m_lang, rowVec)
         else bind_res (concat_map_res (ColumnSentencesFilter_splitRow lib) rowVec) (\<lambda>result.
           Inr (m_lang, result)))"

section \<open>What the column filters share\<close>

locale column_filter =
  fixes inner :: "Row \<Rightarrow> Row res"
    and doFilter :: "Row list \<Rightarrow> Row list res"
  assumes doFilter_map: "doFilter rowVec = map_res inner rowVec"
    and inner_latin1: "latin1_row row \<Longrightarrow> inner row = Inr row' \<Longrightarrow> latin1_row row'"
begin

lemma doFilter_length: "doFilter rows = Inr rows' \<Longrightarrow> length rows' = length rows"
  by (simp add: doFilter_map map_res_length)

lemma doFilter_nth:
  "doFilter rows = Inr rows' \<Longrightarrow> i < length rows \<Longrightarrow> inner (rows ! i) = Inr (rows' ! i)"
  by (simp add: doFilter_map map_res_Inr_list_all2 list_all2_conv_all_nth)

lemma doFilter_latin1:
  assumes "latin1_rows rows" and "doFilter rows = Inr rows'"
  shows "latin1_rows rows'"
  unfolding latin1_rows_def
proof
  fix r assume "r \<in> set rows'"
  from map_res_set [OF assms(2) [unfolded doFilter_map] this] obtain row
    where "row \<in> set rows" "inner row = Inr r" by auto
  with assms(1) show "latin1_row r" unfolding latin1_rows_def by (blast intro: inner_latin1)
qed

end

lemma concat_map_singletons: "concat_map_res (\<lambda>x. bind_res (f x) (\<lambda>r. Inr [r])) xs = map_res f xs"
  by (induction xs) (auto simp: bind_res_assoc)

interpretation chead: column_filter "\<lambda>row. ColumnHeadFilter_doFilterInner lib row param"
  "\<lambda>rows. ColumnHeadFilter_doFilter lib rows param" for lib param
  by unfold_locales
    (auto simp: ColumnHeadFilter_doFilter_def ColumnHeadFilter_doFilterInner_def
      intro: latin1_row_subset [OF head_select_subset])

interpretation ctail: column_filter "\<lambda>row. ColumnTailFilter_doFilterInner lib row param"
  "\<lambda>rows. ColumnTailFilter_doFilter lib rows param" for lib param
  by unfold_locales
    (auto simp: ColumnTailFilter_doFilter_def ColumnTailFilter_doFilterInner_def
      intro: latin1_row_subset [OF tail_select_subset])

interpretation cpick: column_filter "\<lambda>row. ColumnPickFilter_doFilterInner lib row param"
  "\<lambda>rows. ColumnPickFilter_doFilter lib rows param" for lib param
  by unfold_locales
    (auto simp: ColumnPickFilter_doFilter_def ColumnPickFilter_doFilterInner_def
      intro: latin1_row_subset [OF pick_select_subset])

interpretation ccut: column_filter "\<lambda>row. ColumnCutFilter_doFilterInner lib row param"
  "\<lambda>rows. ColumnCutFilter_doFilter lib rows param" for lib param
  by unfold_locales
    (auto simp: ColumnCutFilter_doFilter_def ColumnCutFilter_doFilterInner_def
      intro: latin1_row_subset [OF cut_select_subset])

interpretation cignore: column_filter "\<lambda>row. ColumnIgnoreFilter_doFilterInner lib row param"
  "\<lambda>rows. ColumnIgnoreFilter_doFilter lib rows param" for lib param
  by unfold_locales
    (auto simp: ColumnIgnoreFilter_doFilter_def ColumnIgnoreFilter_doFilterInner_def
      intro: latin1_row_subset [OF column_ignore_select_subset])

lemma ColumnChars_inner: "ColumnCharsFilter_filterInnter = LineCharsFilter_doFilterInner"
  by (intro ext) (simp add: ColumnCharsFilter_filterInnter_def LineCharsFilter_doFilterInner_def
      ColumnCharsFilter_splitLine_def [abs_def] LineCharsFilter_splitLine_def [abs_def])

lemma ColumnLetters_inner: "ColumnLettersFilter_filterInnter = LineLettersFilter_doFilterInner"
  by (intro ext) (simp add: ColumnLettersFilter_filterInnter_def LineLettersFilter_doFilterInner_def
      ColumnLettersFilter_splitLine_def [abs_def] LineLettersFilter_splitLine_def [abs_def])

interpretation cchars: column_filter "ColumnCharsFilter_filterInnter lib"
  "\<lambda>rows. ColumnCharsFilter_doFilter lib rows param" for lib param
proof
  show "ColumnCharsFilter_doFilter lib rowVec param =
      map_res (ColumnCharsFilter_filterInnter lib) rowVec" for rowVec
    by (simp add: ColumnCharsFilter_doFilter_def ColumnCharsFilter_splitRow_def [abs_def]
        concat_map_singletons)
qed (simp add: ColumnChars_inner LineChars_inner_latin1)

interpretation cletters: column_filter "ColumnLettersFilter_filterInnter lib"
  "\<lambda>rows. ColumnLettersFilter_doFilter lib rows param" for lib param
proof
  show "ColumnLettersFilter_doFilter lib rowVec param =
      map_res (ColumnLettersFilter_filterInnter lib) rowVec" for rowVec
    by (simp add: ColumnLettersFilter_doFilter_def ColumnLettersFilter_splitRow_def [abs_def]
        concat_map_singletons)
qed (simp add: ColumnLetters_inner LineLetters_inner_latin1)

lemma column_words_inner:
  "ColumnWordsFilter_filterInnter lib row = Inr []"
  "ColumnSentencesFilter_filterInnter lib row = Inr []"
proof -
  have "ColumnWordsFilter_splitLine lib = (\<lambda>line. Inr [])"
    "ColumnSentencesFilter_splitLine lib = (\<lambda>line. Inr [])"
    by (auto simp: ColumnWordsFilter_splitLine_def ColumnSentencesFilter_splitLine_def
        words_of_breaker_def sentences_of_breaker_def UCharBreaker_new_def flush_def)
  then show "ColumnWordsFilter_filterInnter lib row = Inr []"
    "ColumnSentencesFilter_filterInnter lib row = Inr []"
    by (simp_all add: ColumnWordsFilter_filterInnter_def ColumnSentencesFilter_filterInnter_def)
qed

interpretation cwords: column_filter "ColumnWordsFilter_filterInnter lib"
  "\<lambda>rows. map_sum id snd (ColumnWordsFilter_doFilter lib m_lang rows param)" for lib m_lang param
proof
  show "map_sum id snd (ColumnWordsFilter_doFilter lib m_lang rowVec param) =
      map_res (ColumnWordsFilter_filterInnter lib) rowVec" for rowVec
    by (cases "map_res (ColumnWordsFilter_filterInnter lib) rowVec")
      (auto simp: ColumnWordsFilter_doFilter_def ColumnWordsFilter_splitRow_def [abs_def]
        concat_map_singletons Let_def)
qed (simp add: column_words_inner)

interpretation csentences: column_filter "ColumnSentencesFilter_filterInnter lib"
  "\<lambda>rows. map_sum id snd (ColumnSentencesFilter_doFilter lib m_lang rows param)" for lib m_lang param
proof
  show "map_sum id snd (ColumnSentencesFilter_doFilter lib m_lang rowVec param) =
      map_res (ColumnSentencesFilter_filterInnter lib) rowVec" for rowVec
    by (cases "map_res (ColumnSentencesFilter_filterInnter lib) rowVec")
      (auto simp: ColumnSentencesFilter_doFilter_def ColumnSentencesFilter_splitRow_def [abs_def]
        concat_map_singletons Let_def)
qed (simp add: column_words_inner)

section \<open>Facts on the delimiter filter\<close>

text \<open>The reference: the pieces between the characters that satisfy a predicate.\<close>

fun pieces_by :: "(UChar \<Rightarrow> bool) \<Rightarrow> WString \<Rightarrow> WString list" where
  "pieces_by P [] = [[]]"
| "pieces_by P (x # s) =
     (if P x then [] # pieces_by P s else (x # hd (pieces_by P s)) # tl (pieces_by P s))"

lemma pieces_by_not_Nil [simp]: "pieces_by P s \<noteq> []"
  by (cases s) auto

lemma pieces_by_eq: "pieces c s = pieces_by (\<lambda>x. x = c) s"
  by (induction s) auto

lemma pieces_by_nested:
  "concat (map (pieces_by Q) (pieces_by P s)) = pieces_by (\<lambda>x. P x \<or> Q x) s"
proof (induction s)
  case (Cons x s)
  obtain h t where ht: "pieces_by P s = h # t" by (cases "pieces_by P s") auto
  with Cons.IH have e: "pieces_by (\<lambda>x. P x \<or> Q x) s = pieces_by Q h @ concat (map (pieces_by Q) t)"
    by simp
  show ?case by (cases "P x"; cases "Q x") (simp_all add: ht e)
qed simp

lemma concat_map_nonempty:
  "concat (map (\<lambda>p. filter (\<lambda>q. q \<noteq> []) (pieces_by Q p)) (filter (\<lambda>p. p \<noteq> []) ps)) =
     filter (\<lambda>q. q \<noteq> []) (concat (map (pieces_by Q) ps))"
  by (induction ps) auto

lemma Delimiter_filterInnter_eq:
  "ColumnDelimiterFilter_filterInnter lines param =
     concat_map_res (\<lambda>line. ColumnDelimiterFilter_splitLine line param) lines"
  by (subst ColumnDelimiterFilter_filterInnter.simps) (cases "lines = []", simp_all)

lemma Delimiter_splitLine_eq:
  assumes "param \<noteq> []"
  shows "ColumnDelimiterFilter_splitLine line param =
    Inr (filter (\<lambda>p. p \<noteq> []) (pieces_by (\<lambda>x. x \<in> set param) line))"
  using assms
proof (induction param arbitrary: line)
  case (Cons c cs)
  show ?case
  proof (cases cs)
    case Nil
    then show ?thesis
      by (simp add: ColumnDelimiterFilter_splitLine.simps [of line "[c]"] split_single
          split_UChar_eq pieces_by_eq)
  next
    case (Cons d ds)
    then have "cs \<noteq> []" by simp
    with Cons.IH have "concat_map_res (\<lambda>line. ColumnDelimiterFilter_splitLine line cs) lines =
        Inr (concat (map (\<lambda>line. filter (\<lambda>p. p \<noteq> []) (pieces_by (\<lambda>x. x \<in> set cs) line)) lines))" for lines
      by simp
    moreover have "ColumnDelimiterFilter_splitLine line (c # cs) =
        concat_map_res (\<lambda>line. ColumnDelimiterFilter_splitLine line cs) (split_UChar line c)"
      using \<open>cs \<noteq> []\<close>
      by (simp add: ColumnDelimiterFilter_splitLine.simps [of line "c # cs"] Delimiter_filterInnter_eq)
    ultimately show ?thesis
      by (simp add: split_UChar_eq pieces_by_eq concat_map_nonempty pieces_by_nested)
  qed
qed simp

lemma Delimiter_filterInnter_pieces:
  assumes "param \<noteq> []"
  shows "ColumnDelimiterFilter_filterInnter lines param =
    Inr (concat (map (\<lambda>line. filter (\<lambda>p. p \<noteq> []) (pieces_by (\<lambda>x. x \<in> set param) line)) lines))"
  by (simp add: Delimiter_filterInnter_eq Delimiter_splitLine_eq [OF assms])

lemma pieces_by_set: "q \<in> set (pieces_by P s) \<Longrightarrow> set q \<subseteq> {x \<in> set s. \<not> P x}"
proof (induction s arbitrary: q)
  case (Cons x s)
  then show ?case by (cases "pieces_by P s") (fastforce split: if_splits)+
qed simp

lemma latin1_pieces_by: "latin1 s \<Longrightarrow> q \<in> set (pieces_by P s) \<Longrightarrow> latin1 q"
  by (auto simp: latin1_def dest!: pieces_by_set)

interpretation delimiter: column_filter
  "\<lambda>row. if param = [] then Inr row else ColumnDelimiterFilter_filterInnter row param"
  "\<lambda>rows. ColumnDelimiterFilter_doFilter rows param" for param
proof
  show "ColumnDelimiterFilter_doFilter rowVec param =
      map_res (\<lambda>row. if param = [] then Inr row else ColumnDelimiterFilter_filterInnter row param)
        rowVec" for rowVec
    by (simp add: ColumnDelimiterFilter_doFilter_def ColumnDelimiterFilter_splitRow_def
        concat_map_singletons)
  show "latin1_row row'"
    if "latin1_row row"
      and "(if param = [] then Inr row else ColumnDelimiterFilter_filterInnter row param) = Inr row'"
    for row row'
    using that
    by (auto simp: Delimiter_filterInnter_pieces latin1_row_def elim!: latin1_pieces_by [rotated] split: if_splits)
qed

section \<open>Properties\<close>

text \<open>
  C16 The delimiter filter with any non-empty parameter, though it splits recursively at one
  character after the other, cuts every column at all the characters of the parameter at
  once: each row becomes the non-empty maximal runs without a delimiter, in order. It never
  fails.
\<close>

theorem delimiter_splits_at_any:
  assumes "param \<noteq> []"
  shows "ColumnDelimiterFilter_doFilter rows param =
    Inr (map (\<lambda>row. concat (map (\<lambda>column.
      filter (\<lambda>p. p \<noteq> []) (pieces_by (\<lambda>x. x \<in> set param) column)) row)) rows)"
  using assms
  by (simp add: delimiter.doFilter_map Delimiter_filterInnter_pieces)

theorem delimiter_splits_at_any_witness:
  "ColumnDelimiterFilter_doFilter [[ascii ''a b,c'']] (ascii '' ,'') =
     Inr [[ascii ''a'', ascii ''b'', ascii ''c'']]"
  using delimiter_splits_at_any [of "ascii '' ,''" "[[ascii ''a b,c'']]"]
  by (simp add: ascii_def)

text \<open>
  C30 The ignore filters with a start within the rows (columns): with a positive limit they drop
  that many elements from the start on, with a negative limit the elements that end at the
  start; the line and the column filter agree, although one computes in \<open>int\<close> and the other in
  \<open>size_t\<close>.
\<close>

theorem ignore_drops_range:
  assumes "ignore_params lib row param = Inr (Some (start, limit))" and "limit \<noteq> 0"
    and "row \<noteq> []" and "param \<noteq> []" and "0 \<le> start" and "start \<le> int (length row)"
    and "b = (if 0 < limit then start else start + limit + 1)" and "0 \<le> b"
    and "b + \<bar>limit\<bar> \<le> INT_MAX"
  shows "ColumnIgnoreFilter_doFilterInner lib row param =
      Inr (take (nat b) row @ drop (nat (b + \<bar>limit\<bar>)) row) \<and>
    line_ignore_select lib row param = ColumnIgnoreFilter_doFilterInner lib row param"
  using line_ignore_select_eq [OF assms] column_ignore_select_eq [OF assms]
  by (simp add: ColumnIgnoreFilter_doFilterInner_def)

theorem ignore_drops_range_witness:
  "ColumnIgnoreFilter_doFilterInner ascii_lib [[97], [98], [99], [100]] (ascii ''1,2'') =
     Inr [[97], [100]]"
proof -
  have "ignore_params ascii_lib [[97::nat], [98], [99], [100]] (ascii ''1,2'') = Inr (Some (1, 2))"
    by code_simp
  from ignore_drops_range [OF this, of 1] show ?thesis
    by (simp add: ascii_def int_limits)
qed

text \<open>
  A negative start with a positive limit: the line filter crashes in \<open>append\<close>, the column
  filter returns the row unchanged, because there \<open>start\<close> is unsigned and so exceeds the size.
\<close>

theorem ignore_negative_start_differs:
  assumes "ignore_params lib rows param = Inr (Some (start, limit))" and "0 < limit"
    and "ignore_params lib row param = Inr (Some (start, limit))"
    and "rows \<noteq> []" and "row \<noteq> []" and "param \<noteq> []" and "start < 0" and "INT_MIN \<le> start"
    and "int (length rows) \<le> INT_MAX" and "int (length row) \<le> INT_MAX"
  shows "LineIgnoreFilter_doFilter lib rows param = Inl VectorOverflow \<and>
    ColumnIgnoreFilter_doFilterInner lib row param = Inr row"
  using negative_begin(1) [OF assms(1,2,4,6-9)] negative_begin(2) [OF assms(3,2,5,6,7,8,10)]
  by (simp add: LineIgnoreFilter_doFilter_def ColumnIgnoreFilter_doFilterInner_def)

theorem ignore_negative_start_differs_witness:
  "LineIgnoreFilter_doFilter ascii_lib [[[97]]] (ascii ''-1,1'') = Inl VectorOverflow \<and>
   ColumnIgnoreFilter_doFilterInner ascii_lib [[97]] (ascii ''-1,1'') = Inr [[97]]"
proof -
  have "ignore_params ascii_lib [[[97::nat]]] (ascii ''-1,1'') = Inr (Some (- 1, 1))" by code_simp
  moreover have "ignore_params ascii_lib [[97::nat]] (ascii ''-1,1'') = Inr (Some (- 1, 1))"
    by code_simp
  ultimately show ?thesis
    using ignore_negative_start_differs [of ascii_lib "[[[97]]]" "ascii ''-1,1''" "- 1" 1 "[[97]]"]
    by (simp add: ascii_def int_limits)
qed

text \<open>
  The word and sentence column filters return a result, but every row of it is empty: the
  text of the columns is lost, since the breaker they construct never has a character.
\<close>

theorem column_words_sentences_empty:
  "map_sum id snd (ColumnWordsFilter_doFilter lib m_lang rows param) = Inr (map (\<lambda>_. []) rows) \<and>
   map_sum id snd (ColumnSentencesFilter_doFilter lib m_lang rows param) = Inr (map (\<lambda>_. []) rows)"
  unfolding cwords.doFilter_map csentences.doFilter_map
  by (simp add: column_words_inner map_res_total)

end
