(* ===== verification/JSON_Values.thy ===== *)
theory JSON_Values
  imports WTF_Vector
begin

text \<open>
  JSON values (src/Source/WTF/wtf/JSONValues.h and JSONValues.cpp): the values and the operations
  that build and read them, the writer, and the recursive-descent parser. A pair of \<open>UChar\<close>
  pointers is the list of the code units between them, so that a position is the rest of the
  text. Conversion between doubles and decimal text is a parameter: it is the bundled
  double-conversion library.
\<close>

unbundle bit_operations_syntax

section \<open>Values\<close>

text \<open>
  A double is its bit pattern. An object is its map of members together with the order of first
  insertion, as an association list; an integer is held exactly.
\<close>

type_synonym double = "64 word"

datatype json =
    JNull
  | JBoolean bool
  | JDouble double
  | JInteger int
  | JString WString
  | JArray "json list"
  | JObject "(WString \<times> json) list"

type_synonym members = "(WString \<times> json) list"

fun setValue :: "WString \<Rightarrow> json \<Rightarrow> members \<Rightarrow> members" where
  "setValue name v [] = [(name, v)]"
| "setValue name v ((k, w) # members) =
     (if k = name then (k, v) # members else (k, w) # setValue name v members)"

definition setBoolean :: "WString \<Rightarrow> bool \<Rightarrow> members \<Rightarrow> members" where
  "setBoolean name b members = setValue name (JBoolean b) members"

definition setInteger :: "WString \<Rightarrow> int \<Rightarrow> members \<Rightarrow> members" where
  "setInteger name n members = setValue name (JInteger n) members"

definition setDouble :: "WString \<Rightarrow> double \<Rightarrow> members \<Rightarrow> members" where
  "setDouble name d members = setValue name (JDouble d) members"

definition setString :: "WString \<Rightarrow> WString \<Rightarrow> members \<Rightarrow> members" where
  "setString name s members = setValue name (JString s) members"

definition setObject :: "WString \<Rightarrow> members \<Rightarrow> members \<Rightarrow> members" where
  "setObject name m members = setValue name (JObject m) members"

definition setArray :: "WString \<Rightarrow> json list \<Rightarrow> members \<Rightarrow> members" where
  "setArray name a members = setValue name (JArray a) members"

definition getValue :: "WString \<Rightarrow> members \<Rightarrow> json option" where
  "getValue name members = map_of members name"

text \<open>\<open>m_map.remove\<close> and \<open>m_order.removeFirst\<close>.\<close>

fun remove :: "WString \<Rightarrow> members \<Rightarrow> members" where
  "remove name [] = []"
| "remove name ((k, v) # members) = (if k = name then members else (k, v) # remove name members)"

definition pushBoolean :: "bool \<Rightarrow> json list \<Rightarrow> json list" where
  "pushBoolean b xs = xs @ [JBoolean b]"

definition pushInteger :: "int \<Rightarrow> json list \<Rightarrow> json list" where
  "pushInteger n xs = xs @ [JInteger n]"

definition pushDouble :: "double \<Rightarrow> json list \<Rightarrow> json list" where
  "pushDouble d xs = xs @ [JDouble d]"

definition pushString :: "WString \<Rightarrow> json list \<Rightarrow> json list" where
  "pushString s xs = xs @ [JString s]"

definition pushValue :: "json \<Rightarrow> json list \<Rightarrow> json list" where
  "pushValue v xs = xs @ [v]"

definition pushObject :: "members \<Rightarrow> json list \<Rightarrow> json list" where
  "pushObject m xs = xs @ [JObject m]"

definition pushArray :: "json list \<Rightarrow> json list \<Rightarrow> json list" where
  "pushArray a xs = xs @ [JArray a]"

definition asBoolean :: "json \<Rightarrow> bool option" where
  "asBoolean v = (case v of JBoolean b \<Rightarrow> Some b | _ \<Rightarrow> None)"

definition asString :: "json \<Rightarrow> WString option" where
  "asString v = (case v of JString s \<Rightarrow> Some s | _ \<Rightarrow> None)"

definition asObject :: "json \<Rightarrow> members option" where
  "asObject v = (case v of JObject m \<Rightarrow> Some m | _ \<Rightarrow> None)"

definition asArray :: "json \<Rightarrow> json list option" where
  "asArray v = (case v of JArray a \<Rightarrow> Some a | _ \<Rightarrow> None)"

definition getBoolean :: "WString \<Rightarrow> members \<Rightarrow> bool option" where
  "getBoolean name members = Option.bind (getValue name members) asBoolean"

definition getString :: "WString \<Rightarrow> members \<Rightarrow> WString option" where
  "getString name members = Option.bind (getValue name members) asString"

definition getObject :: "WString \<Rightarrow> members \<Rightarrow> members option" where
  "getObject name members = Option.bind (getValue name members) asObject"

definition getArray :: "WString \<Rightarrow> members \<Rightarrow> json list option" where
  "getArray name members = Option.bind (getValue name members) asArray"

section \<open>Writing\<close>

text \<open>
  The conversions of double-conversion: \<open>StringBuilder::appendNumber(double)\<close>,
  \<open>charactersToDouble\<close> (which can reject its text), and \<open>static_cast<double>(int)\<close>.
\<close>

record number_lib =
  appendNumber :: "double \<Rightarrow> WString"
  charactersToDouble :: "WString \<Rightarrow> double option"
  double_of_int :: "int \<Rightarrow> double"

text \<open>\<open>std::isfinite\<close>: not all bits of the exponent are set.\<close>

definition isfinite :: "double \<Rightarrow> bool" where
  "isfinite d \<longleftrightarrow> d AND 0x7FF0000000000000 \<noteq> 0x7FF0000000000000"

definition lowerNibbleToASCIIHexDigit :: "nat \<Rightarrow> nat" where
  "lowerNibbleToASCIIHexDigit v =
     (let nibble = v mod 256 AND 15 in nibble + (if nibble < 10 then 48 else 55))"

definition upperNibbleToASCIIHexDigit :: "nat \<Rightarrow> nat" where
  "upperNibbleToASCIIHexDigit v =
     (let nibble = drop_bit 4 (v mod 256) in nibble + (if nibble < 10 then 48 else 55))"

definition escapeUnit :: "UChar \<Rightarrow> WString" where
  "escapeUnit c =
     (if c = 8 then [92, 98]
      else if c = 12 then [92, 102]
      else if c = 10 then [92, 110]
      else if c = 13 then [92, 114]
      else if c = 9 then [92, 116]
      else if c = 92 then [92, 92]
      else if c = 34 then [92, 34]
      else if 32 \<le> c \<and> c < 127 \<and> c \<noteq> 60 \<and> c \<noteq> 62 then [c]
      else [92, 117, upperNibbleToASCIIHexDigit (drop_bit 8 c), lowerNibbleToASCIIHexDigit (drop_bit 8 c),
            upperNibbleToASCIIHexDigit c, lowerNibbleToASCIIHexDigit c])"

definition escapeString :: "WString \<Rightarrow> WString" where
  "escapeString s = concat (map escapeUnit s)"

definition appendDoubleQuotedString :: "WString \<Rightarrow> WString" where
  "appendDoubleQuotedString s = [34] @ escapeString s @ [34]"

fun comma_separated :: "WString list \<Rightarrow> WString" where
  "comma_separated [] = []"
| "comma_separated [x] = x"
| "comma_separated (x # y # ys) = x @ [44] @ comma_separated (y # ys)"

fun writeJSON :: "number_lib \<Rightarrow> json \<Rightarrow> WString" where
  "writeJSON nl JNull = ascii ''null''"
| "writeJSON nl (JBoolean b) = (if b then ascii ''true'' else ascii ''false'')"
| "writeJSON nl (JString s) = appendDoubleQuotedString s"
| "writeJSON nl (JDouble d) = (if isfinite d then appendNumber nl d else ascii ''null'')"
| "writeJSON nl (JInteger n) =
     (if isfinite (double_of_int nl n) then appendNumber nl (double_of_int nl n) else ascii ''null'')"
| "writeJSON nl (JObject members) =
     [123] @ comma_separated
       (map (\<lambda>(k, v). appendDoubleQuotedString k @ [58] @ writeJSON nl v) members) @ [125]"
| "writeJSON nl (JArray xs) = [91] @ comma_separated (map (writeJSON nl) xs) @ [93]"

definition toJSONString :: "number_lib \<Rightarrow> json \<Rightarrow> WString" where
  "toJSONString nl v = writeJSON nl v"

section \<open>Tokens\<close>

datatype Token =
    ObjectBegin | ObjectEnd | ArrayBegin | ArrayEnd | String | Number | BoolTrue | BoolFalse | Null
  | ListSeparator | ObjectPairSeparator | Invalid

text \<open>
  The loop advances both pointers before it compares what they were at, so that a mismatch at the
  last character of the token leaves the token pointer at its end.
\<close>

fun parseConstToken :: "WString \<Rightarrow> WString \<Rightarrow> WString option" where
  "parseConstToken start [] = Some start"
| "parseConstToken [] (t # token) = None"
| "parseConstToken (c # start) (t # token) =
     (if c = t then parseConstToken start token
      else if token = [] then Some start
      else None)"

definition readInt :: "WString \<Rightarrow> bool \<Rightarrow> WString option" where
  "readInt start canHaveLeadingZeros =
     (if start = [] then None
      else
        let haveLeadingZero = (hd start = 48);
            digits = takeWhile (\<lambda>c. 48 \<le> c \<and> c \<le> 57) start
        in if digits = [] then None
           else if \<not> canHaveLeadingZeros \<and> 1 < length digits \<and> haveLeadingZero then None
           else Some (dropWhile (\<lambda>c. 48 \<le> c \<and> c \<le> 57) start))"

text \<open>The optional exponent, at a position that is not the end.\<close>

definition parseExponent :: "WString \<Rightarrow> WString option" where
  "parseExponent start =
     (if hd start = 101 \<or> hd start = 69 then
        let start = tl start
        in if start = [] then None
           else if hd start = 45 \<or> hd start = 43 then
             (if tl start = [] then None else readInt (tl start) True)
           else readInt start True
      else Some start)"

definition parseNumberToken :: "WString \<Rightarrow> WString option" where
  "parseNumberToken start =
     (if start = [] then None
      else
        case readInt (if hd start = 45 then tl start else start) False of
          None \<Rightarrow> None
        | Some start \<Rightarrow>
            if start = [] then Some start
            else if hd start = 46 then
              (case readInt (tl start) True of
                 None \<Rightarrow> None
               | Some start \<Rightarrow> if start = [] then Some start else parseExponent start)
            else parseExponent start)"

definition readHexDigits :: "WString \<Rightarrow> nat \<Rightarrow> WString option" where
  "readHexDigits start digits =
     (if length start < digits then None
      else if list_all isASCIIHexDigit (take digits start) then Some (drop digits start)
      else None)"

text \<open>The characters that may follow a backslash, apart from \<open>x\<close> and \<open>u\<close>.\<close>

definition simple_escape :: "UChar \<Rightarrow> bool" where
  "simple_escape c \<longleftrightarrow> c \<in> set [92, 47, 98, 102, 110, 114, 116, 118, 34]"

lemma readHexDigits_length: "readHexDigits start n = Some rest \<Longrightarrow> length rest \<le> length start"
  by (auto simp: readHexDigits_def split: if_splits)

function parseStringToken :: "WString \<Rightarrow> WString option" where
  "parseStringToken [] = None"
| "parseStringToken (c # start) =
     (if c = 92 \<and> start \<noteq> [] then
        let e = hd start; start = tl start
        in if e = 120 then
             (case readHexDigits start 2 of None \<Rightarrow> None | Some start \<Rightarrow> parseStringToken start)
           else if e = 117 then
             (case readHexDigits start 4 of None \<Rightarrow> None | Some start \<Rightarrow> parseStringToken start)
           else if simple_escape e then parseStringToken start
           else None
      else if c = 34 then Some start
      else parseStringToken start)"
  by pat_completeness auto

termination
  by (relation "measure length")
    (auto simp: neq_Nil_conv dest!: readHexDigits_length)

definition parseToken :: "unicode_lib \<Rightarrow> WString \<Rightarrow> Token \<times> WString \<times> WString" where
  "parseToken lib start =
     (let start = dropWhile (isSpaceOrNewline lib) start;
          token = (\<lambda>t r. case r of None \<Rightarrow> (Invalid, [], []) | Some tokenEnd \<Rightarrow> (t, start, tokenEnd))
      in if start = [] then (Invalid, [], [])
         else
           let c = hd start
           in if c = 110 then token Null (parseConstToken start (ascii ''null''))
              else if c = 116 then token BoolTrue (parseConstToken start (ascii ''true''))
              else if c = 102 then token BoolFalse (parseConstToken start (ascii ''false''))
              else if c = 91 then token ArrayBegin (Some (tl start))
              else if c = 93 then token ArrayEnd (Some (tl start))
              else if c = 44 then token ListSeparator (Some (tl start))
              else if c = 123 then token ObjectBegin (Some (tl start))
              else if c = 125 then token ObjectEnd (Some (tl start))
              else if c = 58 then token ObjectPairSeparator (Some (tl start))
              else if (48 \<le> c \<and> c \<le> 57) \<or> c = 45 then token Number (parseNumberToken start)
              else if c = 34 then token String (parseStringToken (tl start))
              else (Invalid, [], []))"

text \<open>The code units between two positions.\<close>

definition between :: "WString \<Rightarrow> WString \<Rightarrow> WString" where
  "between start stop = take (length start - length stop) start"

function decodeString_loop :: "WString \<Rightarrow> WString \<Rightarrow> WString option" where
  "decodeString_loop [] out = Some out"
| "decodeString_loop (c # start) out =
     (if c \<noteq> 92 then decodeString_loop start (out @ [c])
      else if start = [] then None
      else
        let e = hd start; start = tl start
        in if e = 34 \<or> e = 47 \<or> e = 92 then decodeString_loop start (out @ [e])
           else if e = 98 then decodeString_loop start (out @ [8])
           else if e = 102 then decodeString_loop start (out @ [12])
           else if e = 110 then decodeString_loop start (out @ [10])
           else if e = 114 then decodeString_loop start (out @ [13])
           else if e = 116 then decodeString_loop start (out @ [9])
           else if e = 118 then decodeString_loop start (out @ [11])
           else if e = 120 then
             (if length start < 2 then None
              else decodeString_loop (drop 2 start) (out @ [toASCIIHexValue2 (start ! 0) (start ! 1)]))
           else if e = 117 then
             (if length start < 4 then None
              else decodeString_loop (drop 4 start)
                     (out @ [push_bit 8 (toASCIIHexValue2 (start ! 0) (start ! 1)) OR
                             toASCIIHexValue2 (start ! 2) (start ! 3)]))
           else None)"
  by pat_completeness auto

termination
  by (relation "measure (\<lambda>(start, _). length start)") (auto simp: neq_Nil_conv)

definition decodeString :: "WString \<Rightarrow> WString option" where
  "decodeString s = decodeString_loop s []"

section \<open>Parsing\<close>

text \<open>
  The loops of \<open>buildValue\<close>, with the parser of the nested values as an argument. A value whose
  end is not behind its start would keep the loop at the same place. \<open>None\<close> is the null pointer
  that every error returns.
\<close>

type_synonym 'a parsed = "('a \<times> WString) option res"

function array_loop ::
  "unicode_lib \<Rightarrow> (WString \<Rightarrow> json parsed) \<Rightarrow> WString \<Rightarrow> json list \<Rightarrow> json list parsed" where
  "array_loop lib build start array =
     (case parseToken lib start of (token, _, tokenEnd) \<Rightarrow>
        if token = ArrayEnd then Inr (Some (array, tokenEnd))
        else bind_res (build start) (\<lambda>arrayNode.
          case arrayNode of
            None \<Rightarrow> Inr None
          | Some (v, tokenEnd) \<Rightarrow>
              (case parseToken lib tokenEnd of (token, _, tokenEnd) \<Rightarrow>
                 if token = ListSeparator then
                   (if fst (parseToken lib tokenEnd) = ArrayEnd then Inr None
                    else if length start \<le> length tokenEnd then Inl NonTermination
                    else array_loop lib build tokenEnd (pushValue v array))
                 else if token \<noteq> ArrayEnd then Inr None
                 else Inr (Some (pushValue v array, tokenEnd)))))"
  by pat_completeness auto

termination
  by (relation "measure (\<lambda>(_, _, start, _). length start)") auto

function object_loop ::
  "unicode_lib \<Rightarrow> (WString \<Rightarrow> json parsed) \<Rightarrow> WString \<Rightarrow> members \<Rightarrow> members parsed" where
  "object_loop lib build start object =
     (case parseToken lib start of (token, tokenStart, tokenEnd) \<Rightarrow>
        if token = ObjectEnd then Inr (Some (object, tokenEnd))
        else if token \<noteq> String then Inr None
        else
          case decodeString (butlast (tl (between tokenStart tokenEnd))) of
            None \<Rightarrow> Inr None
          | Some key \<Rightarrow>
              (case parseToken lib tokenEnd of (token, _, tokenEnd) \<Rightarrow>
                 if token \<noteq> ObjectPairSeparator then Inr None
                 else bind_res (build tokenEnd) (\<lambda>value.
                   case value of
                     None \<Rightarrow> Inr None
                   | Some (v, tokenEnd) \<Rightarrow>
                       (case parseToken lib tokenEnd of (token, _, tokenEnd) \<Rightarrow>
                          if token = ListSeparator then
                            (if fst (parseToken lib tokenEnd) = ObjectEnd then Inr None
                             else if length start \<le> length tokenEnd then Inl NonTermination
                             else object_loop lib build tokenEnd (setValue key v object))
                          else if token \<noteq> ObjectEnd then Inr None
                          else Inr (Some (setValue key v object, tokenEnd))))))"
  by pat_completeness auto

termination
  by (relation "measure (\<lambda>(_, _, start, _). length start)") auto

declare array_loop.simps [simp del] object_loop.simps [simp del]

definition stackLimit :: nat where
  "stackLimit = 1000"

function buildValue :: "unicode_lib \<Rightarrow> number_lib \<Rightarrow> WString \<Rightarrow> nat \<Rightarrow> json parsed" where
  "buildValue lib nl start depth =
     (if stackLimit < depth then Inr None
      else
        case parseToken lib start of (token, tokenStart, tokenEnd) \<Rightarrow>
          (case token of
             Invalid \<Rightarrow> Inr None
           | Null \<Rightarrow> Inr (Some (JNull, tokenEnd))
           | BoolTrue \<Rightarrow> Inr (Some (JBoolean True, tokenEnd))
           | BoolFalse \<Rightarrow> Inr (Some (JBoolean False, tokenEnd))
           | Number \<Rightarrow>
               Inr (map_option (\<lambda>d. (JDouble d, tokenEnd))
                 (charactersToDouble nl (between tokenStart tokenEnd)))
           | String \<Rightarrow>
               Inr (map_option (\<lambda>s. (JString s, tokenEnd))
                 (decodeString (butlast (tl (between tokenStart tokenEnd)))))
           | ArrayBegin \<Rightarrow>
               bind_res (array_loop lib (\<lambda>start. buildValue lib nl start (depth + 1)) tokenEnd [])
                 (\<lambda>r. Inr (map_option (map_prod JArray id) r))
           | ObjectBegin \<Rightarrow>
               bind_res (object_loop lib (\<lambda>start. buildValue lib nl start (depth + 1)) tokenEnd [])
                 (\<lambda>r. Inr (map_option (map_prod JObject id) r))
           | _ \<Rightarrow> Inr None))"
  by pat_completeness auto

termination
  by (relation "measure (\<lambda>(_, _, _, depth). stackLimit + 1 - depth)") auto

declare buildValue.simps [simp del]

definition parseJSON :: "unicode_lib \<Rightarrow> number_lib \<Rightarrow> WString \<Rightarrow> json option res" where
  "parseJSON lib nl jsonInput =
     bind_res (buildValue lib nl jsonInput 0) (\<lambda>r.
       case r of
         None \<Rightarrow> Inr None
       | Some (v, tokenEnd) \<Rightarrow>
           Inr (if list_all (isSpaceOrNewline lib) tokenEnd then Some v else None))"

section \<open>Objects\<close>

lemma map_of_setValue: "map_of (setValue k v m) = (map_of m)(k \<mapsto> v)"
  by (induction m) auto

lemma setValue_keys:
  "map fst (setValue k v m) = (if k \<in> set (map fst m) then map fst m else map fst m @ [k])"
  by (induction k v m rule: setValue.induct) auto

lemma setValue_distinct: "distinct (map fst m) \<Longrightarrow> distinct (map fst (setValue k v m))"
  by (auto simp: setValue_keys)

lemma setValue_new: "k \<notin> fst ` set m \<Longrightarrow> setValue k v m = m @ [(k, v)]"
  by (induction m) auto

end
