(* ===== verification/Filter_Format.thy ===== *)
theory Filter_Format
  imports JSON_Values
begin

text \<open>
  The two formats that turn the columns of a row into a JSON value (FormatKeys.cpp and
  FormatArray.cpp under src/Source/PurCFetcher/network/filter/).
\<close>

section \<open>Keys\<close>

definition isSingleQuotes :: "UChar \<Rightarrow> bool" where
  "isSingleQuotes character \<longleftrightarrow> character = 39"

definition FormatKeys_keyVec :: "unicode_lib \<Rightarrow> WString \<Rightarrow> WString list res" where
  "FormatKeys_keyVec lib param =
     (if param = [] then Inr []
      else bind_res (split param (ascii '','')) (\<lambda>keys.
        Inr (filter (\<lambda>k. k \<noteq> [])
          (map (\<lambda>k. stripLeadingAndTrailingCharacters isSingleQuotes (stripWhiteSpace lib k)) keys))))"

text \<open>The two loops of \<open>doFormat\<close>: the columns that have a key, and the numbered rest.\<close>

fun FormatKeys_named ::
  "WString list \<Rightarrow> WString list \<Rightarrow> (WString \<times> json) list \<Rightarrow> (WString \<times> json) list" where
  "FormatKeys_named (k # keys) (c # columns) result = FormatKeys_named keys columns (setString k c result)"
| "FormatKeys_named _ _ result = result"

fun FormatKeys_numbered ::
  "int \<Rightarrow> WString list \<Rightarrow> (WString \<times> json) list \<Rightarrow> (WString \<times> json) list res" where
  "FormatKeys_numbered i [] result = Inr result"
| "FormatKeys_numbered i (c # columns) result =
     bind_res (numberToStringSigned i) (\<lambda>number.
       FormatKeys_numbered (i + 1) columns (setString (ascii ''C'' @ number) c result))"

definition FormatKeys_doFormat :: "unicode_lib \<Rightarrow> WString list \<Rightarrow> WString \<Rightarrow> json res" where
  "FormatKeys_doFormat lib lineColumns param =
     bind_res (FormatKeys_keyVec lib param) (\<lambda>keyVec.
       let result = FormatKeys_named keyVec lineColumns []
       in bind_res (FormatKeys_numbered (int (length keyVec)) (drop (length keyVec) lineColumns) result)
            (\<lambda>result. Inr (JObject result)))"

section \<open>Array\<close>

definition FormatArray_params :: "unicode_lib \<Rightarrow> WString \<Rightarrow> (int \<times> WString) res" where
  "FormatArray_params lib param =
     (if param = [] then Inr (0, ascii '':'')
      else bind_res (split param (ascii '','')) (\<lambda>paramVec.
        if length paramVec < 2 then Inr (0, ascii '':'')
        else bind_res (toInt lib (paramVec ! 0)) (\<lambda>left.
          Inr (case left of None \<Rightarrow> 0 | Some l \<Rightarrow> l,
               stripLeadingAndTrailingCharacters isSingleQuotes (paramVec ! 1)))))"

definition FormatArray_doFormat :: "unicode_lib \<Rightarrow> WString list \<Rightarrow> WString \<Rightarrow> json res" where
  "FormatArray_doFormat lib lineColumns param =
     (if lineColumns = [] then Inr (JArray [])
      else bind_res (FormatArray_params lib param) (\<lambda>(left, sep).
        if left = 0 then Inr (JArray (fold pushString lineColumns []))
        else
          let arr = fold pushString (take (nat left) lineColumns) []
          in if left < 0 then Inl VectorOverflow
             else
               let sb = concat (map (\<lambda>c. c @ sep) (drop (nat left) lineColumns))
               in if sb = [] then Inr (JArray arr)
                  else Inr (JArray (pushString (take (length sb - length sep) sb) arr))))"

section \<open>Facts\<close>

lemma fold_pushString: "fold pushString cs acc = acc @ map JString cs"
  by (induction cs arbitrary: acc) (simp_all add: pushString_def)

lemma FormatKeys_named_fresh:
  assumes "distinct keys" and "set keys \<inter> fst ` set result = {}"
  shows "FormatKeys_named keys columns result =
    result @ zip keys (map JString columns)"
  using assms
proof (induction keys columns result rule: FormatKeys_named.induct)
  case (1 k keys c columns result)
  then have "k \<notin> fst ` set result" by auto
  with 1 show ?case by (auto simp: setString_def setValue_new)
qed auto

lemma FormatKeys_named_distinct:
  "distinct (map fst result) \<Longrightarrow> distinct (map fst (FormatKeys_named keys columns result))"
  by (induction keys columns result rule: FormatKeys_named.induct)
    (auto simp: setString_def setValue_distinct)

lemma FormatKeys_numbered_distinct:
  "FormatKeys_numbered i columns result = Inr r \<Longrightarrow> distinct (map fst result) \<Longrightarrow> distinct (map fst r)"
  by (induction i columns result rule: FormatKeys_numbered.induct)
    (auto simp: bind_res_Inr_iff setString_def setValue_distinct)

lemma FormatKeys_numbered_total:
  "0 \<le> i \<Longrightarrow> \<exists>r. FormatKeys_numbered i columns result = Inr r"
  by (induction i columns result rule: FormatKeys_numbered.induct)
    (auto simp: numberToStringSigned_def)

lemma number_inj:
  assumes "0 \<le> i" "i \<le> INT_MAX" "0 \<le> j" "j \<le> INT_MAX"
    and "numberToStringSigned i = numberToStringSigned j"
  shows "i = j"
proof -
  have "Inr (Some i) = bind_res (numberToStringSigned i) (toInt ascii_lib)"
    by (rule charactersToInt_number [symmetric]) (use assms in \<open>simp_all add: int_limits\<close>)
  also have "\<dots> = Inr (Some j)"
    unfolding assms(5)
    by (rule charactersToInt_number) (use assms in \<open>simp_all add: int_limits\<close>)
  finally show ?thesis by simp
qed

text \<open>The name of a column that has no key.\<close>

definition column_name :: "nat \<Rightarrow> WString" where
  "column_name i = ascii ''C'' @ numberToString_loop i []"

lemma numberToStringSigned_nat: "numberToStringSigned (int i) = Inr (numberToString_loop i [])"
  by (simp add: numberToStringSigned_def)

lemma column_name_inj:
  assumes "int i \<le> INT_MAX" "int j \<le> INT_MAX" and "column_name i = column_name j"
  shows "i = j"
  using number_inj [of "int i" "int j"] assms
  by (simp add: column_name_def numberToStringSigned_nat)

lemma FormatKeys_numbered_fresh:
  assumes "int (i + length columns) \<le> INT_MAX"
    and "\<And>j. i \<le> j \<Longrightarrow> j < i + length columns \<Longrightarrow> column_name j \<notin> fst ` set result"
  shows "FormatKeys_numbered (int i) columns result =
    Inr (result @ zip (map column_name [i..<i + length columns]) (map JString columns))"
  using assms
proof (induction columns arbitrary: i result)
  case (Cons c columns)
  have step: "FormatKeys_numbered (int i) (c # columns) result =
      FormatKeys_numbered (int (Suc i)) columns (setString (column_name i) c result)"
    by (simp add: numberToStringSigned_nat column_name_def add.commute)
  have fresh: "setString (column_name i) c result = result @ [(column_name i, JString c)]"
    using Cons.prems(2) [of i] by (simp add: setString_def setValue_new)
  have "column_name j \<notin> fst ` set (result @ [(column_name i, JString c)])"
    if "Suc i \<le> j" "j < Suc i + length columns" for j
    using Cons.prems(2) [of j] Cons.prems(1) that column_name_inj [of i j] by auto
  with Cons.IH [of "Suc i" "result @ [(column_name i, JString c)]"] Cons.prems(1)
  have "FormatKeys_numbered (int (Suc i)) columns (result @ [(column_name i, JString c)]) =
      Inr (result @ (column_name i, JString c) #
        zip (map column_name [Suc i..<Suc i + length columns]) (map JString columns))"
    by simp
  moreover have "[i..<i + length (c # columns)] = i # [Suc i..<Suc i + length columns]"
    by (subst upt_conv_Cons) auto
  ultimately show ?case unfolding step fresh by simp
qed simp

lemma FormatKeys_total:
  assumes "FormatKeys_keyVec lib param = Inr keys"
  shows "\<exists>members. FormatKeys_doFormat lib columns param = Inr (JObject members) \<and>
    distinct (map fst members)"
proof -
  let ?named = "FormatKeys_named keys columns []"
  obtain r where r: "FormatKeys_numbered (int (length keys)) (drop (length keys) columns) ?named = Inr r"
    using FormatKeys_numbered_total by fastforce
  moreover have "distinct (map fst r)"
    by (rule FormatKeys_numbered_distinct [OF r]) (simp add: FormatKeys_named_distinct)
  ultimately show ?thesis using assms by (simp add: FormatKeys_doFormat_def)
qed

lemma FormatKeys_keyVec_total: "\<exists>keys. FormatKeys_keyVec lib param = Inr keys"
  by (simp add: FormatKeys_keyVec_def ascii_def split_single)

lemma FormatKeys_fresh:
  assumes "FormatKeys_keyVec lib param = Inr keys" and "distinct keys"
    and "int (length columns) \<le> INT_MAX"
    and "\<And>j. length keys \<le> j \<Longrightarrow> j < length columns \<Longrightarrow> column_name j \<notin> set keys"
  shows "FormatKeys_doFormat lib columns param =
    Inr (JObject (zip (keys @ map column_name [length keys..<length columns]) (map JString columns)))"
proof -
  have named: "FormatKeys_named keys columns [] = zip keys (map JString columns)"
    using assms(2) by (simp add: FormatKeys_named_fresh)
  show ?thesis
  proof (cases "length keys \<le> length columns")
    case True
    then have len: "length keys + length (drop (length keys) columns) = length columns" by simp
    have "FormatKeys_numbered (int (length keys)) (drop (length keys) columns)
        (zip keys (map JString columns)) =
        Inr (zip keys (map JString columns) @
          zip (map column_name [length keys..<length columns]) (map JString (drop (length keys) columns)))"
      unfolding len [symmetric]
    proof (rule FormatKeys_numbered_fresh)
      fix j assume j: "length keys \<le> j" "j < length keys + length (drop (length keys) columns)"
      have "fst ` set (zip keys (map JString columns)) \<subseteq> set keys" by (auto dest: set_zip_leftD)
      with assms(4) [of j] j len show "column_name j \<notin> fst ` set (zip keys (map JString columns))"
        by auto
    qed (use assms(3) len in simp)
    moreover have "zip (keys @ map column_name [length keys..<length columns]) (map JString columns) =
        zip keys (map JString (take (length keys) columns)) @
        zip (map column_name [length keys..<length columns]) (map JString (drop (length keys) columns))"
      by (simp add: zip_append1 take_map drop_map)
    moreover have "zip keys (map JString columns) = zip keys (map JString (take (length keys) columns))"
      using zip_append1 [of keys "[]" "map JString columns"] by (simp add: take_map)
    ultimately show ?thesis
      using assms(1) named by (simp add: FormatKeys_doFormat_def)
  next
    case False
    then show ?thesis using assms(1) named by (simp add: FormatKeys_doFormat_def zip_append1)
  qed
qed

section \<open>Properties\<close>

text \<open>
  C35 The keys format: when the keys are distinct and none of them is the name of a numbered
  column, the object has one member per column, in order: column \<open>i\<close> under key \<open>i\<close>, and under
  \<open>C\<close> followed by its index when there are fewer keys.
\<close>

theorem format_keys_members:
  assumes "FormatKeys_keyVec lib param = Inr keys" and "distinct keys"
    and "int (length columns) \<le> INT_MAX"
    and "\<forall>j\<in>{length keys..<length columns}. column_name j \<notin> set keys"
  shows "FormatKeys_doFormat lib columns param =
    Inr (JObject (zip (keys @ map column_name [length keys..<length columns]) (map JString columns)))"
  by (rule FormatKeys_fresh) (use assms in auto)

theorem format_keys_members_witness:
  "FormatKeys_doFormat ascii_lib [ascii ''x'', ascii ''y''] (ascii ''name'') =
     Inr (JObject [(ascii ''name'', JString (ascii ''x'')), (ascii ''C1'', JString (ascii ''y''))])"
proof -
  have "FormatKeys_keyVec ascii_lib (ascii ''name'') = Inr [ascii ''name'']" by code_simp
  moreover have "column_name (Suc 0) = ascii ''C1''" by code_simp
  ultimately show ?thesis
    using format_keys_members [of ascii_lib "ascii ''name''" "[ascii ''name'']"
        "[ascii ''x'', ascii ''y'']"]
    by (simp add: int_limits ascii_def)
qed

text \<open>
  The keys format always returns an object, whatever the parameter and the columns, and no
  name occurs twice in it.
\<close>

theorem format_keys_total:
  "\<exists>members. FormatKeys_doFormat lib columns param = Inr (JObject members) \<and>
     distinct (map fst members)"
proof -
  obtain keys where "FormatKeys_keyVec lib param = Inr keys" using FormatKeys_keyVec_total by blast
  then show ?thesis by (rule FormatKeys_total)
qed

text \<open>The reference for joining.\<close>

fun join_with :: "WString \<Rightarrow> WString list \<Rightarrow> WString" where
  "join_with sep [] = []"
| "join_with sep [c] = c"
| "join_with sep (c # d # cs) = c @ sep @ join_with sep (d # cs)"

lemma join_with_eq:
  "cs \<noteq> [] \<Longrightarrow> concat (map (\<lambda>c. c @ sep) cs) = join_with sep cs @ sep"
  by (induction sep cs rule: join_with.induct) auto

text \<open>
  C36 The array format with a count \<open>left\<close> that is not zero: the first \<open>left\<close> columns are
  elements of their own, and the columns after them, if any, are one more element, joined by the
  separator; a negative count indexes the vector below its start and crashes.
\<close>

theorem format_array_elements:
  assumes "FormatArray_params lib param = Inr (left, sep)" and "left \<noteq> 0" and "columns \<noteq> []"
    and "sep \<noteq> []"
  shows "FormatArray_doFormat lib columns param =
    (if left < 0 then Inl VectorOverflow
     else Inr (JArray (map JString (take (nat left) columns) @
       (if length columns \<le> nat left then []
        else [JString (join_with sep (drop (nat left) columns))]))))"
proof (cases "drop (nat left) columns = []")
  case True
  with assms show ?thesis
    by (auto simp: FormatArray_doFormat_def fold_pushString Let_def)
next
  case False
  then have "concat (map (\<lambda>c. c @ sep) (drop (nat left) columns)) =
      join_with sep (drop (nat left) columns) @ sep"
    by (rule join_with_eq)
  with assms False show ?thesis
    by (auto simp: FormatArray_doFormat_def fold_pushString pushString_def Let_def)
qed

theorem format_array_elements_witness:
  "FormatArray_doFormat ascii_lib [ascii ''a'', ascii ''b'', ascii ''c''] (ascii ''1,:'') =
     Inr (JArray [JString (ascii ''a''), JString (ascii ''b:c'')])"
proof -
  have "FormatArray_params ascii_lib (ascii ''1,:'') = Inr (1, ascii '':'')" by code_simp
  from format_array_elements [OF this, of "[ascii ''a'', ascii ''b'', ascii ''c'']"]
  show ?thesis by (simp add: ascii_def)
qed

end
