(* ===== verification/Filter_Manager.thy ===== *)
theory Filter_Manager
  imports Filters_Column Filter_Format
begin

text \<open>
  The filter manager (src/Source/PurCFetcher/network/filter/CmdFilterManager.cpp): the table of
  filters by name, the list of filters a request asks for, and the run of that list over the
  lines of a command's output. The name and type of each filter are those of its header file.
  The well-formedness of the manager is an invariant of every sequence of calls; under it the
  lookups of a run succeed and the cast to a format is to a format. The trace \<open>doFilterInner\<close> prints
  is left out.
\<close>

section \<open>The table of filters\<close>

datatype FilterType =
    FilterTypeUnknown
  | FilterTypeLineSplit
  | FilterTypeLineCut
  | FilterTypeColumnSplit
  | FilterTypeColumnCut
  | FilterTypeFormat

datatype filter_class =
    LineCharsFilter | LineCutFilter | LineHeadFilter | LineIgnoreFilter | LineLettersFilter
  | LinePickFilter | LineSentencesFilter | LineSplitFilter | LineTailFilter | LineWordsFilter
  | ColumnCharsFilter | ColumnCutFilter | ColumnDelimiterFilter | ColumnHeadFilter
  | ColumnIgnoreFilter | ColumnLettersFilter | ColumnPickFilter | ColumnSentencesFilter
  | ColumnTailFilter | ColumnWordsFilter
  | FormatArray | FormatKeys

fun filter_name :: "filter_class \<Rightarrow> WString" where
  "filter_name LineCharsFilter = ascii ''chars''"
| "filter_name LineCutFilter = ascii ''cut''"
| "filter_name LineHeadFilter = ascii ''head''"
| "filter_name LineIgnoreFilter = ascii ''ignore''"
| "filter_name LineLettersFilter = ascii ''letters''"
| "filter_name LinePickFilter = ascii ''pick''"
| "filter_name LineSentencesFilter = ascii ''sentences''"
| "filter_name LineSplitFilter = ascii ''split''"
| "filter_name LineTailFilter = ascii ''tail''"
| "filter_name LineWordsFilter = ascii ''words''"
| "filter_name ColumnCharsFilter = ascii ''cchars''"
| "filter_name ColumnCutFilter = ascii ''ccut''"
| "filter_name ColumnDelimiterFilter = ascii ''delimiter''"
| "filter_name ColumnHeadFilter = ascii ''chead''"
| "filter_name ColumnIgnoreFilter = ascii ''cignore''"
| "filter_name ColumnLettersFilter = ascii ''cletters''"
| "filter_name ColumnPickFilter = ascii ''cpick''"
| "filter_name ColumnSentencesFilter = ascii ''csentences''"
| "filter_name ColumnTailFilter = ascii ''ctail''"
| "filter_name ColumnWordsFilter = ascii ''cwords''"
| "filter_name FormatArray = ascii ''array''"
| "filter_name FormatKeys = ascii ''keys''"

fun filter_type :: "filter_class \<Rightarrow> FilterType" where
  "filter_type LineCharsFilter = FilterTypeLineSplit"
| "filter_type LineCutFilter = FilterTypeLineCut"
| "filter_type LineHeadFilter = FilterTypeLineCut"
| "filter_type LineIgnoreFilter = FilterTypeLineCut"
| "filter_type LineLettersFilter = FilterTypeLineSplit"
| "filter_type LinePickFilter = FilterTypeLineCut"
| "filter_type LineSentencesFilter = FilterTypeLineSplit"
| "filter_type LineSplitFilter = FilterTypeLineSplit"
| "filter_type LineTailFilter = FilterTypeLineCut"
| "filter_type LineWordsFilter = FilterTypeLineSplit"
| "filter_type ColumnCharsFilter = FilterTypeColumnSplit"
| "filter_type ColumnCutFilter = FilterTypeColumnCut"
| "filter_type ColumnDelimiterFilter = FilterTypeColumnSplit"
| "filter_type ColumnHeadFilter = FilterTypeColumnCut"
| "filter_type ColumnIgnoreFilter = FilterTypeColumnCut"
| "filter_type ColumnLettersFilter = FilterTypeColumnSplit"
| "filter_type ColumnPickFilter = FilterTypeColumnCut"
| "filter_type ColumnSentencesFilter = FilterTypeColumnSplit"
| "filter_type ColumnTailFilter = FilterTypeColumnCut"
| "filter_type ColumnWordsFilter = FilterTypeColumnSplit"
| "filter_type FormatArray = FilterTypeFormat"
| "filter_type FormatKeys = FilterTypeFormat"

definition initFilterVec :: "filter_class list" where
  "initFilterVec =
     [LineCharsFilter, LineCutFilter, LineHeadFilter, LineIgnoreFilter, LineLettersFilter,
      LinePickFilter, LineSentencesFilter, LineSplitFilter, LineTailFilter, LineWordsFilter,
      ColumnCharsFilter, ColumnCutFilter, ColumnDelimiterFilter, ColumnHeadFilter,
      ColumnIgnoreFilter, ColumnLettersFilter, ColumnPickFilter, ColumnSentencesFilter,
      ColumnTailFilter, ColumnWordsFilter, FormatArray, FormatKeys]"

definition initNameFilterMap :: "filter_class list \<Rightarrow> (WString \<rightharpoonup> filter_class)" where
  "initNameFilterMap filterVec =
     foldl (\<lambda>m f. m(convertToASCIILowercase (filter_name f) \<mapsto> f)) Map.empty filterVec"

section \<open>Calling a filter\<close>

text \<open>The languages held by the four filter objects that have one.\<close>

record filter_langs =
  words_lang :: WString
  sentences_lang :: WString
  cwords_lang :: WString
  csentences_lang :: WString

definition with_langs :: "filter_langs \<Rightarrow> Row list res \<Rightarrow> (filter_langs \<times> Row list) res" where
  "with_langs langs r = bind_res r (\<lambda>rows. Inr (langs, rows))"

text \<open>The virtual call \<open>doFilter\<close>; a format returns the rows unchanged (FormatBase.h).\<close>

fun filter_doFilter ::
  "unicode_lib \<Rightarrow> filter_class \<Rightarrow> filter_langs \<Rightarrow> Row list \<Rightarrow> WString \<Rightarrow> (filter_langs \<times> Row list) res"
where
  "filter_doFilter lib LineCharsFilter langs rows param =
     with_langs langs (LineCharsFilter_doFilter lib rows param)"
| "filter_doFilter lib LineCutFilter langs rows param =
     with_langs langs (LineCutFilter_doFilter lib rows param)"
| "filter_doFilter lib LineHeadFilter langs rows param =
     with_langs langs (LineHeadFilter_doFilter lib rows param)"
| "filter_doFilter lib LineIgnoreFilter langs rows param =
     with_langs langs (LineIgnoreFilter_doFilter lib rows param)"
| "filter_doFilter lib LineLettersFilter langs rows param =
     with_langs langs (LineLettersFilter_doFilter lib rows param)"
| "filter_doFilter lib LinePickFilter langs rows param =
     with_langs langs (LinePickFilter_doFilter lib rows param)"
| "filter_doFilter lib LineSentencesFilter langs rows param =
     bind_res (LineSentencesFilter_doFilter lib (sentences_lang langs) rows param) (\<lambda>(lang, rows).
       Inr (langs\<lparr>sentences_lang := lang\<rparr>, rows))"
| "filter_doFilter lib LineSplitFilter langs rows param =
     with_langs langs (LineSplitFilter_doFilter rows param)"
| "filter_doFilter lib LineTailFilter langs rows param =
     with_langs langs (LineTailFilter_doFilter lib rows param)"
| "filter_doFilter lib LineWordsFilter langs rows param =
     bind_res (LineWordsFilter_doFilter lib (words_lang langs) rows param) (\<lambda>(lang, rows).
       Inr (langs\<lparr>words_lang := lang\<rparr>, rows))"
| "filter_doFilter lib ColumnCharsFilter langs rows param =
     with_langs langs (ColumnCharsFilter_doFilter lib rows param)"
| "filter_doFilter lib ColumnCutFilter langs rows param =
     with_langs langs (ColumnCutFilter_doFilter lib rows param)"
| "filter_doFilter lib ColumnDelimiterFilter langs rows param =
     with_langs langs (ColumnDelimiterFilter_doFilter rows param)"
| "filter_doFilter lib ColumnHeadFilter langs rows param =
     with_langs langs (ColumnHeadFilter_doFilter lib rows param)"
| "filter_doFilter lib ColumnIgnoreFilter langs rows param =
     with_langs langs (ColumnIgnoreFilter_doFilter lib rows param)"
| "filter_doFilter lib ColumnLettersFilter langs rows param =
     with_langs langs (ColumnLettersFilter_doFilter lib rows param)"
| "filter_doFilter lib ColumnPickFilter langs rows param =
     with_langs langs (ColumnPickFilter_doFilter lib rows param)"
| "filter_doFilter lib ColumnSentencesFilter langs rows param =
     bind_res (ColumnSentencesFilter_doFilter lib (csentences_lang langs) rows param)
       (\<lambda>(lang, rows). Inr (langs\<lparr>csentences_lang := lang\<rparr>, rows))"
| "filter_doFilter lib ColumnTailFilter langs rows param =
     with_langs langs (ColumnTailFilter_doFilter lib rows param)"
| "filter_doFilter lib ColumnWordsFilter langs rows param =
     bind_res (ColumnWordsFilter_doFilter lib (cwords_lang langs) rows param) (\<lambda>(lang, rows).
       Inr (langs\<lparr>cwords_lang := lang\<rparr>, rows))"
| "filter_doFilter lib FormatArray langs rows param = Inr (langs, rows)"
| "filter_doFilter lib FormatKeys langs rows param = Inr (langs, rows)"

section \<open>The manager\<close>

record CmdFilterManager =
  m_nameFilterMap :: "WString \<rightharpoonup> filter_class"
  m_filterVec :: "filter_class list"
  m_formatFilter :: "WString list"
  m_formatParamFilter :: "WString list"
  m_filterNameVec :: "WString list"
  m_filterParamVec :: "WString list"
  m_langs :: filter_langs

definition CmdFilterManager_new :: CmdFilterManager where
  "CmdFilterManager_new =
     \<lparr>m_nameFilterMap = initNameFilterMap initFilterVec, m_filterVec = initFilterVec,
      m_formatFilter = [], m_formatParamFilter = [], m_filterNameVec = [], m_filterParamVec = [],
      m_langs = \<lparr>words_lang = [], sentences_lang = [], cwords_lang = [], csentences_lang = []\<rparr>\<rparr>"

definition addFilter ::
  "unicode_lib \<Rightarrow> CmdFilterManager \<Rightarrow> WString \<Rightarrow> WString \<Rightarrow> bool \<times> CmdFilterManager" where
  "addFilter lib mgr name param =
     (if name = [] then (False, mgr)
      else
        let nameLowerCase = stripWhiteSpace lib (convertToASCIILowercase name)
        in case m_nameFilterMap mgr nameLowerCase of
             None \<Rightarrow> (False, mgr)
           | Some f \<Rightarrow>
               (case filter_type f of
                  FilterTypeFormat \<Rightarrow>
                    (True, mgr\<lparr>m_formatFilter := m_formatFilter mgr @ [nameLowerCase],
                               m_formatParamFilter := m_formatParamFilter mgr @ [param]\<rparr>)
                | FilterTypeUnknown \<Rightarrow> (False, mgr)
                | _ \<Rightarrow>
                    (True, mgr\<lparr>m_filterNameVec := m_filterNameVec mgr @ [nameLowerCase],
                               m_filterParamVec := m_filterParamVec mgr @ [param]\<rparr>)))"

definition doFilterInner ::
  "unicode_lib \<Rightarrow> CmdFilterManager \<Rightarrow> Row list \<Rightarrow> WString \<Rightarrow> WString \<Rightarrow>
     (CmdFilterManager \<times> Row list) res" where
  "doFilterInner lib mgr rows filterName filterParam =
     (case m_nameFilterMap mgr filterName of
        None \<Rightarrow> Inr (mgr, rows)
      | Some f \<Rightarrow>
          bind_res (filter_doFilter lib f (m_langs mgr) rows filterParam) (\<lambda>(langs, rows).
            Inr (mgr\<lparr>m_langs := langs\<rparr>, rows)))"

text \<open>
  \<open>doFormat\<close> casts what it finds to a format without a test; calling \<open>doFormat\<close> on any other
  filter goes through the wrong slot of its method table.
\<close>

definition manager_doFormat :: "unicode_lib \<Rightarrow> CmdFilterManager \<Rightarrow> WString list \<Rightarrow> json res" where
  "manager_doFormat lib mgr lineColumns =
     (let formatSize = length (m_formatFilter mgr);
          (name, param) =
            (if formatSize \<noteq> 0
             then (m_formatFilter mgr ! (formatSize - 1), vector_at (m_formatParamFilter mgr) (int formatSize - 1))
             else (ascii ''keys'', Inr []))
      in bind_res param (\<lambda>param.
           case m_nameFilterMap mgr name of
             None \<Rightarrow> Inr JNull
           | Some FormatKeys \<Rightarrow> FormatKeys_doFormat lib lineColumns param
           | Some FormatArray \<Rightarrow> FormatArray_doFormat lib lineColumns param
           | Some _ \<Rightarrow> Inl OutOfBounds))"

fun doFilter_loop ::
  "unicode_lib \<Rightarrow> CmdFilterManager \<Rightarrow> nat \<Rightarrow> WString list \<Rightarrow> Row list \<Rightarrow> (CmdFilterManager \<times> Row list) res"
where
  "doFilter_loop lib mgr i [] rows = Inr (mgr, rows)"
| "doFilter_loop lib mgr i (name # names) rows =
     bind_res (vector_at (m_filterParamVec mgr) (int i)) (\<lambda>param.
       bind_res (doFilterInner lib mgr rows name param) (\<lambda>(mgr, rows).
         doFilter_loop lib mgr (Suc i) names rows))"

definition manager_doFilter ::
  "unicode_lib \<Rightarrow> CmdFilterManager \<Rightarrow> WString list \<Rightarrow> (CmdFilterManager \<times> json list) res" where
  "manager_doFilter lib mgr lines =
     (let lineListVec = map (\<lambda>line. [line]) lines
      in bind_res (doFilter_loop lib mgr 0 (m_filterNameVec mgr) lineListVec) (\<lambda>(mgr, lineListVec).
           bind_res (map_res (manager_doFormat lib mgr) lineListVec) (\<lambda>result. Inr (mgr, result))))"

section \<open>The table by name\<close>

lemma foldl_upd_Some:
  "foldl (\<lambda>m f. m(g f \<mapsto> f)) Map.empty fs k = Some f \<Longrightarrow> f \<in> set fs \<and> g f = k"
  by (induction fs rule: rev_induct) (auto split: if_splits)

lemma foldl_upd_lookup:
  "inj_on g (set fs) \<Longrightarrow> f \<in> set fs \<Longrightarrow> foldl (\<lambda>m f. m(g f \<mapsto> f)) Map.empty fs (g f) = Some f"
  by (induction fs rule: rev_induct) (auto simp: inj_on_def)

lemma all_filters: "f \<in> set initFilterVec"
  by (cases f) (simp_all add: initFilterVec_def)

lemma filter_name_lower: "convertToASCIILowercase (filter_name f) = filter_name f"
proof -
  have "list_all (\<lambda>f. convertToASCIILowercase (filter_name f) = filter_name f) initFilterVec"
    by code_simp
  with all_filters [of f] show ?thesis by (simp only: list_all_iff)
qed

lemma filter_name_inj: "inj filter_name"
proof -
  have "distinct (map filter_name initFilterVec)" by code_simp
  moreover have "set initFilterVec = UNIV" using all_filters by auto
  ultimately show ?thesis by (simp add: distinct_map)
qed

lemma nameFilterMap_iff: "initNameFilterMap initFilterVec k = Some f \<longleftrightarrow> k = filter_name f"
proof
  assume "initNameFilterMap initFilterVec k = Some f"
  then have "convertToASCIILowercase (filter_name f) = k"
    unfolding initNameFilterMap_def
    using foldl_upd_Some [of "\<lambda>f. convertToASCIILowercase (filter_name f)" initFilterVec k f] by blast
  then show "k = filter_name f" by (simp only: filter_name_lower)
next
  assume k: "k = filter_name f"
  have "inj_on (\<lambda>f. convertToASCIILowercase (filter_name f)) (set initFilterVec)"
    unfolding filter_name_lower using filter_name_inj by (rule inj_on_subset) simp
  from foldl_upd_lookup [OF this all_filters [of f]]
  show "initNameFilterMap initFilterVec k = Some f"
    unfolding initNameFilterMap_def k by (simp only: filter_name_lower)
qed

section \<open>The invariant\<close>

definition mgr_wf :: "CmdFilterManager \<Rightarrow> bool" where
  "mgr_wf mgr \<longleftrightarrow>
     m_nameFilterMap mgr = initNameFilterMap initFilterVec \<and>
     length (m_filterParamVec mgr) = length (m_filterNameVec mgr) \<and>
     length (m_formatParamFilter mgr) = length (m_formatFilter mgr) \<and>
     set (m_filterNameVec mgr) \<subseteq> filter_name ` {f. filter_type f \<noteq> FilterTypeFormat} \<and>
     set (m_formatFilter mgr) \<subseteq> filter_name ` {FormatKeys, FormatArray}"

inductive mgr_reachable :: "unicode_lib \<Rightarrow> CmdFilterManager \<Rightarrow> bool" for lib where
  new: "mgr_reachable lib CmdFilterManager_new"
| add: "mgr_reachable lib mgr \<Longrightarrow> mgr_reachable lib (snd (addFilter lib mgr name param))"
| run: "mgr_reachable lib mgr \<Longrightarrow> manager_doFilter lib mgr lines = Inr (mgr', out) \<Longrightarrow>
     mgr_reachable lib mgr'"

lemma filter_type_Format: "filter_type f = FilterTypeFormat \<longleftrightarrow> f = FormatKeys \<or> f = FormatArray"
  by (cases f) simp_all

lemma filter_type_known: "filter_type f \<noteq> FilterTypeUnknown"
  by (cases f) simp_all

lemma mgr_wf_new: "mgr_wf CmdFilterManager_new"
  by (simp add: mgr_wf_def CmdFilterManager_new_def)

text \<open>The three outcomes of \<open>addFilter\<close>.\<close>

lemma addFilter_cases:
  assumes "mgr_wf mgr"
  shows "addFilter lib mgr name param =
    (if name \<noteq> [] \<and> stripWhiteSpace lib (map toASCIILower name) \<in> range filter_name then
       let n = stripWhiteSpace lib (map toASCIILower name) in
       if n \<in> filter_name ` {FormatKeys, FormatArray}
       then (True, mgr\<lparr>m_formatFilter := m_formatFilter mgr @ [n],
                       m_formatParamFilter := m_formatParamFilter mgr @ [param]\<rparr>)
       else (True, mgr\<lparr>m_filterNameVec := m_filterNameVec mgr @ [n],
                       m_filterParamVec := m_filterParamVec mgr @ [param]\<rparr>)
     else (False, mgr))"
proof -
  define n where "n = stripWhiteSpace lib (map toASCIILower name)"
  have m: "m_nameFilterMap mgr k = Some f \<longleftrightarrow> k = filter_name f" for k f
    using assms by (simp add: mgr_wf_def nameFilterMap_iff)
  show ?thesis
  proof (cases "n \<in> range filter_name")
    case True
    then obtain f where n: "n = filter_name f" by auto
    then have look: "m_nameFilterMap mgr n = Some f" by (simp add: m)
    have fmt: "n \<in> filter_name ` {FormatKeys, FormatArray} \<longleftrightarrow> filter_type f = FilterTypeFormat"
      unfolding n filter_type_Format inj_image_mem_iff [OF filter_name_inj] by simp
    show ?thesis
      using look fmt filter_type_known [of f] True
      by (auto simp: addFilter_def n_def [symmetric] Let_def split: FilterType.splits)
  next
    case False
    then have "m_nameFilterMap mgr n = None" using m by (cases "m_nameFilterMap mgr n") auto
    with False show ?thesis by (simp add: addFilter_def n_def [symmetric] Let_def)
  qed
qed

lemma mgr_wf_add:
  assumes "mgr_wf mgr"
  shows "mgr_wf (snd (addFilter lib mgr name param))"
proof -
  have "n \<in> filter_name ` {f. filter_type f \<noteq> FilterTypeFormat}"
    if "n \<in> range filter_name" "n \<notin> filter_name ` {FormatKeys, FormatArray}" for n
    using that by (auto simp: filter_type_Format)
  with assms show ?thesis
    unfolding addFilter_cases [OF assms] Let_def by (simp add: mgr_wf_def)
qed

lemma doFilterInner_frame:
  "doFilterInner lib mgr rows name param = Inr (mgr', rows') \<Longrightarrow> \<exists>langs. mgr' = mgr\<lparr>m_langs := langs\<rparr>"
  by (auto simp: doFilterInner_def bind_res_Inr_iff split: option.splits prod.splits
      intro: exI [of _ "m_langs mgr"])

lemma doFilter_loop_frame:
  "doFilter_loop lib mgr i names rows = Inr (mgr', rows') \<Longrightarrow> \<exists>langs. mgr' = mgr\<lparr>m_langs := langs\<rparr>"
proof (induction lib mgr i names rows rule: doFilter_loop.induct)
  case (1 lib mgr i rows)
  then show ?case by (auto intro: exI [of _ "m_langs mgr"])
next
  case (2 lib mgr i name names rows)
  from "2.prems" obtain param mgr1 rows1 where a: "vector_at (m_filterParamVec mgr) (int i) = Inr param"
    and b: "doFilterInner lib mgr rows name param = Inr (mgr1, rows1)"
    and c: "doFilter_loop lib mgr1 (Suc i) names rows1 = Inr (mgr', rows')"
    by (auto simp: bind_res_Inr_iff)
  from "2.IH" [OF a b refl c] doFilterInner_frame [OF b] show ?case by auto
qed

lemma manager_doFilter_frame:
  "manager_doFilter lib mgr lines = Inr (mgr', out) \<Longrightarrow> \<exists>langs. mgr' = mgr\<lparr>m_langs := langs\<rparr>"
  by (auto simp: manager_doFilter_def bind_res_Inr_iff dest!: doFilter_loop_frame)

lemma mgr_wf_langs [simp]: "mgr_wf (mgr\<lparr>m_langs := langs\<rparr>) = mgr_wf mgr"
  by (simp add: mgr_wf_def)

lemma mgr_reachable_wf: "mgr_reachable lib mgr \<Longrightarrow> mgr_wf mgr"
proof (induction rule: mgr_reachable.induct)
  case (run mgr lines mgr' out)
  from manager_doFilter_frame [OF run.hyps(2)] run.IH show ?case by auto
qed (simp_all add: mgr_wf_new mgr_wf_add)

section \<open>The pipeline the manager implements\<close>

text \<open>
  The specification: a list of filters with their parameters, run in order on rows of one column,
  and one format for the rows that come out.
\<close>

fun run_filters ::
  "unicode_lib \<Rightarrow> filter_langs \<Rightarrow> (filter_class \<times> WString) list \<Rightarrow> Row list \<Rightarrow>
     (filter_langs \<times> Row list) res"
where
  "run_filters lib langs [] rows = Inr (langs, rows)"
| "run_filters lib langs ((f, param) # fs) rows =
     bind_res (filter_doFilter lib f langs rows param) (\<lambda>(langs, rows). run_filters lib langs fs rows)"

datatype row_format = Keys WString | Array WString

fun format_row :: "unicode_lib \<Rightarrow> row_format \<Rightarrow> WString list \<Rightarrow> json res" where
  "format_row lib (Keys param) columns = FormatKeys_doFormat lib columns param"
| "format_row lib (Array param) columns = FormatArray_doFormat lib columns param"

definition pipeline ::
  "unicode_lib \<Rightarrow> filter_langs \<Rightarrow> (filter_class \<times> WString) list \<Rightarrow> row_format \<Rightarrow> WString list \<Rightarrow>
     (filter_langs \<times> json list) res" where
  "pipeline lib langs fs fmt lines =
     bind_res (run_filters lib langs fs (map (\<lambda>line. [line]) lines)) (\<lambda>(langs, rows).
       bind_res (map_res (format_row lib fmt) rows) (\<lambda>out. Inr (langs, out)))"

text \<open>The pipeline a manager stands for.\<close>

definition filters_of :: "CmdFilterManager \<Rightarrow> (filter_class \<times> WString) list" where
  "filters_of mgr =
     map (\<lambda>(name, param). (the (initNameFilterMap initFilterVec name), param))
       (zip (m_filterNameVec mgr) (m_filterParamVec mgr))"

definition format_of :: "CmdFilterManager \<Rightarrow> row_format" where
  "format_of mgr =
     (if m_formatFilter mgr = [] then Keys []
      else if last (m_formatFilter mgr) = filter_name FormatKeys
      then Keys (last (m_formatParamFilter mgr)) else Array (last (m_formatParamFilter mgr)))"

lemma nameFilterMap_name [simp]: "initNameFilterMap initFilterVec (filter_name f) = Some f"
  by (simp add: nameFilterMap_iff)

lemma doFilter_loop_refines:
  assumes "mgr_wf mgr" and "m_filterNameVec mgr = prev @ names" and "i = length prev"
    and "ps = drop i (m_filterParamVec mgr)"
  shows "doFilter_loop lib mgr i names rows =
    bind_res (run_filters lib (m_langs mgr)
      (map (\<lambda>(name, param). (the (initNameFilterMap initFilterVec name), param)) (zip names ps)) rows)
      (\<lambda>(langs, rows). Inr (mgr\<lparr>m_langs := langs\<rparr>, rows))"
  using assms
proof (induction names arbitrary: mgr prev i ps rows)
  case (Cons name names)
  from Cons.prems(1,2) obtain f where f: "name = filter_name f"
    and look: "m_nameFilterMap mgr name = Some f"
    by (auto simp: mgr_wf_def)
  have i: "i < length (m_filterParamVec mgr)" using Cons.prems by (auto simp: mgr_wf_def)
  then have ps: "ps = m_filterParamVec mgr ! i # drop (Suc i) (m_filterParamVec mgr)"
    using Cons.prems(4) by (simp add: Cons_nth_drop_Suc)
  show ?case
  proof (cases "filter_doFilter lib f (m_langs mgr) rows (m_filterParamVec mgr ! i)")
    case (Inl e)
    with i look f ps show ?thesis by (simp add: doFilterInner_def)
  next
    case (Inr r)
    obtain langs rows1 where r: "r = (langs, rows1)" by fastforce
    have "doFilter_loop lib (mgr\<lparr>m_langs := langs\<rparr>) (Suc i) names rows1 =
      bind_res (run_filters lib langs
        (map (\<lambda>(name, param). (the (initNameFilterMap initFilterVec name), param))
          (zip names (drop (Suc i) (m_filterParamVec mgr)))) rows1)
        (\<lambda>(langs', rows). Inr (mgr\<lparr>m_langs := langs'\<rparr>, rows))"
      using Cons.IH [of "mgr\<lparr>m_langs := langs\<rparr>" "prev @ [name]" "Suc i" _ rows1] Cons.prems
      by simp
    with Inr r i look f ps show ?thesis by (simp add: doFilterInner_def)
  qed
qed simp

lemma manager_doFormat_refines:
  assumes "mgr_wf mgr"
  shows "manager_doFormat lib mgr = format_row lib (format_of mgr)"
proof
  fix columns
  have m: "m_nameFilterMap mgr = initNameFilterMap initFilterVec" using assms by (simp add: mgr_wf_def)
  have keys: "initNameFilterMap initFilterVec (ascii ''keys'') = Some FormatKeys"
    using nameFilterMap_name [of FormatKeys] by simp
  show "manager_doFormat lib mgr columns = format_row lib (format_of mgr) columns"
  proof (cases "m_formatFilter mgr = []")
    case True
    with keys show ?thesis by (simp add: manager_doFormat_def format_of_def m)
  next
    case False
    then have "last (m_formatFilter mgr) \<in> set (m_formatFilter mgr)" by simp
    with assms obtain f where f: "last (m_formatFilter mgr) = filter_name f"
      and "f = FormatKeys \<or> f = FormatArray"
      unfolding mgr_wf_def by blast
    moreover have ne: "m_formatParamFilter mgr \<noteq> []"
      and len: "length (m_formatParamFilter mgr) = length (m_formatFilter mgr)"
      using False assms by (auto simp: mgr_wf_def)
    moreover have "vector_at (m_formatParamFilter mgr) (int (length (m_formatFilter mgr)) - 1) =
        Inr (last (m_formatParamFilter mgr))"
    proof -
      have e: "int (length (m_formatFilter mgr)) - 1 = int (length (m_formatFilter mgr) - 1)"
        using False by (simp add: of_nat_diff Suc_le_eq)
      have "length (m_formatFilter mgr) - 1 < length (m_formatParamFilter mgr)"
        using False len by simp
      then have "vector_at (m_formatParamFilter mgr) (int (length (m_formatFilter mgr) - 1)) =
          Inr (m_formatParamFilter mgr ! (length (m_formatFilter mgr) - 1))"
        by (rule vector_at_nat)
      also have "m_formatParamFilter mgr ! (length (m_formatFilter mgr) - 1) =
          last (m_formatParamFilter mgr)"
        unfolding len [symmetric] using ne by (rule last_conv_nth [symmetric])
      finally show ?thesis unfolding e .
    qed
    moreover have "filter_name FormatArray \<noteq> filter_name FormatKeys"
      using filter_name_inj by (auto dest: injD)
    moreover have "m_formatFilter mgr ! (length (m_formatFilter mgr) - 1) = last (m_formatFilter mgr)"
      using False by (simp add: last_conv_nth)
    ultimately show ?thesis
      using False nameFilterMap_name [of f]
      by (auto simp: manager_doFormat_def format_of_def m Let_def simp del: filter_name.simps)
  qed
qed

lemma manager_doFilter_refines:
  assumes "mgr_wf mgr"
  shows "map_sum id (\<lambda>(mgr', out). (m_langs mgr', out)) (manager_doFilter lib mgr lines) =
    pipeline lib (m_langs mgr) (filters_of mgr) (format_of mgr) lines"
proof -
  have loop: "doFilter_loop lib mgr 0 (m_filterNameVec mgr) (map (\<lambda>line. [line]) lines) =
    bind_res (run_filters lib (m_langs mgr) (filters_of mgr) (map (\<lambda>line. [line]) lines))
      (\<lambda>(langs, rows). Inr (mgr\<lparr>m_langs := langs\<rparr>, rows))"
    unfolding filters_of_def
    by (rule doFilter_loop_refines [where prev = "[]"]) (use assms in simp_all)
  show ?thesis
  proof (cases "run_filters lib (m_langs mgr) (filters_of mgr) (map (\<lambda>line. [line]) lines)")
    case (Inr r)
    obtain langs rows where r: "r = (langs, rows)" by fastforce
    have "manager_doFormat lib (mgr\<lparr>m_langs := langs\<rparr>) = format_row lib (format_of mgr)"
      using manager_doFormat_refines [of "mgr\<lparr>m_langs := langs\<rparr>" lib] assms
      by (simp add: format_of_def)
    with Inr r loop show ?thesis
      by (cases "map_res (format_row lib (format_of mgr)) rows")
        (simp_all add: manager_doFilter_def pipeline_def)
  qed (simp add: manager_doFilter_def pipeline_def loop)
qed

lemma addFilter_refines:
  assumes "mgr_wf mgr" and "stripWhiteSpace lib (map toASCIILower name) = filter_name f" and "name \<noteq> []"
  shows "filters_of (snd (addFilter lib mgr name param)) =
      (if filter_type f = FilterTypeFormat then filters_of mgr else filters_of mgr @ [(f, param)])"
    and "format_of (snd (addFilter lib mgr name param)) =
      (if f = FormatKeys then Keys param else if f = FormatArray then Array param else format_of mgr)"
    and "fst (addFilter lib mgr name param)"
proof -
  have fmt: "filter_name f \<in> filter_name ` {FormatKeys, FormatArray} \<longleftrightarrow> filter_type f = FilterTypeFormat"
    unfolding filter_type_Format inj_image_mem_iff [OF filter_name_inj] by simp
  have keys: "filter_name f = filter_name FormatKeys \<longleftrightarrow> f = FormatKeys"
    using filter_name_inj by (auto simp del: filter_name.simps dest: injD)
  note a = addFilter_cases [OF assms(1), of lib name param, unfolded assms(2) Let_def]
  have len: "length (m_filterParamVec mgr) = length (m_filterNameVec mgr)"
    using assms(1) by (simp add: mgr_wf_def)
  show "filters_of (snd (addFilter lib mgr name param)) =
      (if filter_type f = FilterTypeFormat then filters_of mgr else filters_of mgr @ [(f, param)])"
    unfolding a using assms(3) fmt len
    by (simp add: filters_of_def del: filter_name.simps)
  show "format_of (snd (addFilter lib mgr name param)) =
      (if f = FormatKeys then Keys param else if f = FormatArray then Array param else format_of mgr)"
    unfolding a using assms(3) fmt keys
    by (auto simp: format_of_def filter_type_Format simp del: filter_name.simps)
  show "fst (addFilter lib mgr name param)"
    unfolding a using assms(3) by simp
qed

section \<open>What the types of the filters promise\<close>

lemma lang_result: "m = Inr (lang, rows) \<Longrightarrow> map_sum id snd m = Inr rows"
  by simp

lemmas lang_filter_length = cwords.doFilter_length [OF lang_result] csentences.doFilter_length [OF lang_result]

lemmas lang_filter_latin1 =
  cwords.doFilter_latin1 [OF _ lang_result] csentences.doFilter_latin1 [OF _ lang_result]
  line_words.doFilter_latin1 [OF _ lang_result] line_sentences.doFilter_latin1 [OF _ lang_result]

lemma column_filter_length:
  assumes "filter_doFilter lib f langs rows param = Inr (langs', rows')"
    and "filter_type f \<in> {FilterTypeColumnSplit, FilterTypeColumnCut}"
  shows "length rows' = length rows"
  using assms
  by (cases f)
    (auto simp: with_langs_def bind_res_Inr_iff
      dest: chead.doFilter_length ctail.doFilter_length cpick.doFilter_length ccut.doFilter_length
        cignore.doFilter_length cchars.doFilter_length cletters.doFilter_length
        delimiter.doFilter_length lang_filter_length)

lemma line_cut_subset:
  assumes "filter_doFilter lib f langs rows param = Inr (langs', rows')"
    and "filter_type f = FilterTypeLineCut"
  shows "set rows' \<subseteq> set rows"
  using assms
  by (cases f)
    (auto simp: with_langs_def bind_res_Inr_iff LineCutFilter_doFilter_def LineHeadFilter_doFilter_def
      LineIgnoreFilter_doFilter_def LinePickFilter_doFilter_def LineTailFilter_doFilter_def
      dest!: select_subset)

lemma LineSplit_latin1:
  "latin1_rows rows \<Longrightarrow> LineSplitFilter_doFilter rows param = Inr rows' \<Longrightarrow> latin1_rows rows'"
proof (induction param arbitrary: rows)
  case (Cons c cs)
  show ?case
  proof (cases "cs = []")
    case True
    with Cons.prems split_at.doFilter_latin1 [of rows c rows'] show ?thesis by simp
  next
    case False
    with Cons.prems obtain rs where "LineSplitFilter_doFilter rows [c] = Inr rs"
      and "LineSplitFilter_doFilter rs cs = Inr rows'"
      by (auto simp: LineSplit_Cons bind_res_Inr_iff)
    with Cons.IH Cons.prems(1) show ?thesis by (blast intro: split_at.doFilter_latin1)
  qed
qed (simp add: LineSplitFilter_doFilter.simps)

lemma filter_latin1:
  assumes "filter_doFilter lib f langs rows param = Inr (langs', rows')" and "latin1_rows rows"
  shows "latin1_rows rows'"
proof (cases "filter_type f = FilterTypeLineCut")
  case True
  from latin1_rows_subset [OF line_cut_subset [OF assms(1) True] assms(2)] show ?thesis .
next
  case False
  with assms show ?thesis
    by (cases f)
      (auto simp: with_langs_def bind_res_Inr_iff
        dest: chead.doFilter_latin1 ctail.doFilter_latin1 cpick.doFilter_latin1 ccut.doFilter_latin1
          cignore.doFilter_latin1 cchars.doFilter_latin1 cletters.doFilter_latin1
          delimiter.doFilter_latin1 line_chars.doFilter_latin1 line_letters.doFilter_latin1
          lang_filter_latin1 LineSplit_latin1)
qed

section \<open>Runs of filters\<close>

text \<open>
  What a run needs of the filters it calls: a filter that is given 8-bit rows and returns, returns
  8-bit rows. The run itself is any function that calls the filters in order.
\<close>

locale row_pipeline =
  fixes call :: "'f \<Rightarrow> 's \<Rightarrow> Row list \<Rightarrow> WString \<Rightarrow> ('s \<times> Row list) res"
    and run :: "'s \<Rightarrow> ('f \<times> WString) list \<Rightarrow> Row list \<Rightarrow> ('s \<times> Row list) res"
  assumes run_Nil: "run st [] rows = Inr (st, rows)"
    and run_Cons: "run st ((f, param) # fs) rows = bind_res (call f st rows param) (\<lambda>(st, rows). run st fs rows)"
    and call_latin1: "call f st rows param = Inr (st', rows') \<Longrightarrow> latin1_rows rows \<Longrightarrow> latin1_rows rows'"
begin

lemma run_append:
  "run st (fs @ gs) rows = bind_res (run st fs rows) (\<lambda>(st, rows). run st gs rows)"
proof (induction fs arbitrary: st rows)
  case (Cons f fs)
  then show ?case
    by (cases f; cases "call (fst f) st rows (snd f)") (auto simp: run_Cons)
qed (simp add: run_Nil)

lemma run_latin1:
  "run st fs rows = Inr (st', rows') \<Longrightarrow> latin1_rows rows \<Longrightarrow> latin1_rows rows'"
proof (induction fs arbitrary: st rows)
  case (Cons f fs)
  obtain g param where f: "f = (g, param)" by fastforce
  from Cons.prems(1) obtain st1 rows1 where "call g st rows param = Inr (st1, rows1)"
    and "run st1 fs rows1 = Inr (st', rows')"
    by (auto simp: f run_Cons bind_res_Inr_iff)
  with Cons.IH Cons.prems(2) show ?case by (blast intro: call_latin1)
qed (simp add: run_Nil)

end

interpretation filter_run: row_pipeline "filter_doFilter lib" "run_filters lib" for lib
  by unfold_locales (auto intro: filter_latin1)

section \<open>Properties\<close>

text \<open>
  C4 Every manager that a sequence of \<open>addFilter\<close> and \<open>doFilter\<close> calls can produce is well formed:
  its table is the initial one, the names and parameters are of the same number, every name in the
  filter list is that of a line or column filter and every name in the format list that of a
  format.
\<close>

theorem manager_invariant:
  assumes "mgr_reachable lib mgr"
  shows "mgr_wf mgr"
  using assms by (rule mgr_reachable_wf)

theorem manager_invariant_witness:
  "mgr_wf (snd (addFilter ascii_lib CmdFilterManager_new (ascii '' Head'') (ascii ''3'')))"
  by (rule manager_invariant [of ascii_lib]) (intro mgr_reachable.intros)

text \<open>
  C3 The manager implements the pipeline it stands for: on a reachable manager, \<open>doFilter\<close> runs the
  filters that were added, in order, on rows of one column, and formats every row that comes out
  with the format added last (keys without parameter by default). The table lookups by name
  and the unchecked cast to a format never go wrong.
\<close>

theorem manager_refines_pipeline:
  assumes "mgr_reachable lib mgr"
  shows "map_sum id (\<lambda>(mgr', out). (m_langs mgr', out)) (manager_doFilter lib mgr lines) =
    pipeline lib (m_langs mgr) (filters_of mgr) (format_of mgr) lines"
  using manager_doFilter_refines [OF mgr_reachable_wf [OF assms]] .

theorem manager_refines_pipeline_witness:
  "map_sum id (\<lambda>(mgr', out). (m_langs mgr', out))
     (manager_doFilter ascii_lib CmdFilterManager_new [ascii ''a'', ascii ''b'']) =
   pipeline ascii_lib (m_langs CmdFilterManager_new) [] (Keys []) [ascii ''a'', ascii ''b'']"
  using manager_refines_pipeline [OF mgr_reachable.new, of ascii_lib "[ascii ''a'', ascii ''b'']"]
  by (simp add: filters_of_def format_of_def CmdFilterManager_new_def)

text \<open>
  C23 \<open>addFilter\<close> with a name that, lower-cased and stripped, is that of a filter: it answers true
  and adds exactly that filter with its parameter at the end of the pipeline, or, for a format,
  makes it the format of the pipeline; any other name is refused and changes nothing.
\<close>

theorem addFilter_extends_pipeline:
  assumes "mgr_reachable lib mgr" and "name \<noteq> []"
  shows "(\<forall>f. stripWhiteSpace lib (convertToASCIILowercase name) = filter_name f \<longrightarrow>
      fst (addFilter lib mgr name param) \<and>
      filters_of (snd (addFilter lib mgr name param)) =
        (if filter_type f = FilterTypeFormat then filters_of mgr else filters_of mgr @ [(f, param)]) \<and>
      format_of (snd (addFilter lib mgr name param)) =
        (if f = FormatKeys then Keys param else if f = FormatArray then Array param
         else format_of mgr)) \<and>
    (stripWhiteSpace lib (convertToASCIILowercase name) \<notin> range filter_name \<longrightarrow>
      addFilter lib mgr name param = (False, mgr))"
proof -
  note wf = mgr_reachable_wf [OF assms(1)]
  show ?thesis
  proof (intro conjI allI impI)
    fix f
    assume "stripWhiteSpace lib (convertToASCIILowercase name) = filter_name f"
    then have f: "stripWhiteSpace lib (map toASCIILower name) = filter_name f"
      by (simp only: convertToASCIILowercase_eq)
    note refines = addFilter_refines [OF wf f assms(2)]
    show "fst (addFilter lib mgr name param)" by (rule refines(3))
    show "filters_of (snd (addFilter lib mgr name param)) =
        (if filter_type f = FilterTypeFormat then filters_of mgr else filters_of mgr @ [(f, param)])"
      by (rule refines(1))
    show "format_of (snd (addFilter lib mgr name param)) =
        (if f = FormatKeys then Keys param else if f = FormatArray then Array param
         else format_of mgr)"
      by (rule refines(2))
  next
    assume "stripWhiteSpace lib (convertToASCIILowercase name) \<notin> range filter_name"
    then show "addFilter lib mgr name param = (False, mgr)"
      unfolding convertToASCIILowercase_eq addFilter_cases [OF wf] by (simp only: simp_thms if_False)
  qed
qed

theorem addFilter_extends_pipeline_witness:
  "filters_of (snd (addFilter ascii_lib CmdFilterManager_new (ascii '' Head'') (ascii ''3''))) =
     [(LineHeadFilter, ascii ''3'')]"
proof -
  have "stripWhiteSpace ascii_lib (convertToASCIILowercase (ascii '' Head'')) = filter_name LineHeadFilter"
    by code_simp
  moreover have "filters_of CmdFilterManager_new = []"
    by (simp add: filters_of_def CmdFilterManager_new_def)
  moreover have "ascii '' Head'' \<noteq> []" by (simp add: ascii_def)
  note addFilter_extends_pipeline [OF mgr_reachable.new this, THEN conjunct1, THEN spec,
    of ascii_lib LineHeadFilter "ascii ''3''"]
  ultimately show ?thesis by (simp only: filter_type.simps FilterType.distinct if_False append_Nil simp_thms)
qed

text \<open>
  C24 The filter types are promises: a column filter that returns keeps the number of rows, a
  line-cut filter only returns rows it was given, and a format leaves the rows alone.
\<close>

theorem filter_types_promise:
  assumes "filter_doFilter lib f langs rows param = Inr (langs', rows')"
  shows "case filter_type f of
      FilterTypeColumnSplit \<Rightarrow> length rows' = length rows
    | FilterTypeColumnCut \<Rightarrow> length rows' = length rows
    | FilterTypeLineCut \<Rightarrow> set rows' \<subseteq> set rows
    | FilterTypeFormat \<Rightarrow> rows' = rows
    | _ \<Rightarrow> True"
proof (cases "filter_type f")
  case FilterTypeFormat
  with assms show ?thesis by (auto simp: filter_type_Format)
qed (use assms column_filter_length [OF assms] line_cut_subset [OF assms] in simp_all)

theorem filter_types_promise_witness:
  "filter_type LineCutFilter = FilterTypeLineCut \<and> set [[[97]], [[99]]] \<subseteq> set [[[97]], [[98]], [[99::nat]]]"
proof -
  have "filter_doFilter ascii_lib LineCutFilter (m_langs CmdFilterManager_new) [[[97]], [[98]], [[99]]]
      (ascii ''2,1'') = Inr (m_langs CmdFilterManager_new, [[[97]], [[99]]])"
    by code_simp
  from filter_types_promise [OF this] show ?thesis by simp
qed

text \<open>
  Without filters the manager returns one object per line, with the line under the name \<open>C0\<close>.
\<close>

theorem manager_default_output:
  "manager_doFilter lib CmdFilterManager_new lines =
     Inr (CmdFilterManager_new, map (\<lambda>line. JObject [(ascii ''C0'', JString line)]) lines)"
proof -
  have keys: "manager_doFormat lib CmdFilterManager_new = format_row lib (Keys [])"
    using manager_doFormat_refines [OF mgr_wf_new, of lib]
    by (simp add: format_of_def CmdFilterManager_new_def)
  have name: "column_name 0 = ascii ''C0''" by code_simp
  have "format_row lib (Keys []) [line] = Inr (JObject [(ascii ''C0'', JString line)])" for line
    using FormatKeys_fresh [of lib "[]" "[]" "[line]"] name
    by (simp add: FormatKeys_keyVec_def int_limits)
  then have "map_res (format_row lib (Keys [])) (map (\<lambda>line. [line]) lines) =
      Inr (map (\<lambda>line. JObject [(ascii ''C0'', JString line)]) lines)"
    by (induction lines) simp_all
  moreover have "m_filterNameVec CmdFilterManager_new = []" by (simp add: CmdFilterManager_new_def)
  ultimately show ?thesis by (simp add: manager_doFilter_def keys)
qed

end
