(* ===== verification/Break_Tables.thy ===== *)
theory Break_Tables
  imports UChar_Breaker
begin

text \<open>
  The tables of the break algorithm (src/Source/PurCFetcher/network/filter/FilterBase.cpp, before
  \<open>genBreaks\<close>): the line-break classes and the pair table, the Hangul properties, and the
  character ranges the algorithm tests. The indexing macros are results, since C does not check
  an index; the facts at the end show that every index the guards let through is inside its table.
\<close>

section \<open>Enumerations\<close>

datatype BreakOpportunity =
   BREAK_ALREADY_HANDLED | BREAK_PROHIBITED | BREAK_IF_SPACES | BREAK_ALLOWED

datatype LineBreakIndex =
   INDEX_OPEN_PUNCTUATION | INDEX_CLOSE_PUNCTUATION | INDEX_QUOTATION | INDEX_NON_BREAKING_GLUE
  | INDEX_NON_STARTER | INDEX_EXCLAMATION | INDEX_SYMBOL | INDEX_INFIX_SEPARATOR | INDEX_PREFIX
  | INDEX_POSTFIX | INDEX_NUMERIC | INDEX_ALPHABETIC | INDEX_IDEOGRAPHIC | INDEX_INSEPARABLE
  | INDEX_HYPHEN | INDEX_AFTER | INDEX_BEFORE | INDEX_BEFORE_AND_AFTER | INDEX_ZERO_WIDTH_SPACE
  | INDEX_COMBINING_MARK | INDEX_WORD_JOINER | INDEX_END_OF_TABLE | INDEX_MANDATORY
  | INDEX_CARRIAGE_RETURN | INDEX_LINE_FEED | INDEX_SURROGATE | INDEX_CONTINGENT | INDEX_SPACE
  | INDEX_COMPLEX_CONTEXT | INDEX_AMBIGUOUS | INDEX_UNKNOWN | INDEX_NEXT_LINE
  | INDEX_HANGUL_L_JAMO | INDEX_HANGUL_V_JAMO | INDEX_HANGUL_T_JAMO | INDEX_HANGUL_LV_SYLLABLE
  | INDEX_HANGUL_LVT_SYLLABLE

text \<open>The enumerators are numbered in the order of their declaration.\<close>

primrec index_value :: "LineBreakIndex \<Rightarrow> nat" where
  "index_value INDEX_OPEN_PUNCTUATION = 0"
| "index_value INDEX_CLOSE_PUNCTUATION = 1"
| "index_value INDEX_QUOTATION = 2"
| "index_value INDEX_NON_BREAKING_GLUE = 3"
| "index_value INDEX_NON_STARTER = 4"
| "index_value INDEX_EXCLAMATION = 5"
| "index_value INDEX_SYMBOL = 6"
| "index_value INDEX_INFIX_SEPARATOR = 7"
| "index_value INDEX_PREFIX = 8"
| "index_value INDEX_POSTFIX = 9"
| "index_value INDEX_NUMERIC = 10"
| "index_value INDEX_ALPHABETIC = 11"
| "index_value INDEX_IDEOGRAPHIC = 12"
| "index_value INDEX_INSEPARABLE = 13"
| "index_value INDEX_HYPHEN = 14"
| "index_value INDEX_AFTER = 15"
| "index_value INDEX_BEFORE = 16"
| "index_value INDEX_BEFORE_AND_AFTER = 17"
| "index_value INDEX_ZERO_WIDTH_SPACE = 18"
| "index_value INDEX_COMBINING_MARK = 19"
| "index_value INDEX_WORD_JOINER = 20"
| "index_value INDEX_END_OF_TABLE = 21"
| "index_value INDEX_MANDATORY = 22"
| "index_value INDEX_CARRIAGE_RETURN = 23"
| "index_value INDEX_LINE_FEED = 24"
| "index_value INDEX_SURROGATE = 25"
| "index_value INDEX_CONTINGENT = 26"
| "index_value INDEX_SPACE = 27"
| "index_value INDEX_COMPLEX_CONTEXT = 28"
| "index_value INDEX_AMBIGUOUS = 29"
| "index_value INDEX_UNKNOWN = 30"
| "index_value INDEX_NEXT_LINE = 31"
| "index_value INDEX_HANGUL_L_JAMO = 32"
| "index_value INDEX_HANGUL_V_JAMO = 33"
| "index_value INDEX_HANGUL_T_JAMO = 34"
| "index_value INDEX_HANGUL_LV_SYLLABLE = 35"
| "index_value INDEX_HANGUL_LVT_SYLLABLE = 36"

text \<open>\<open>IN_BREAK_TABLE\<close> compares enumerators.\<close>

instantiation LineBreakIndex :: linorder
begin

definition less_eq_LineBreakIndex :: "LineBreakIndex \<Rightarrow> LineBreakIndex \<Rightarrow> bool" where
  "x \<le> y \<longleftrightarrow> index_value x \<le> index_value y"

definition less_LineBreakIndex :: "LineBreakIndex \<Rightarrow> LineBreakIndex \<Rightarrow> bool" where
  "x < y \<longleftrightarrow> index_value x < index_value y"

lemma index_value_inject: "index_value x = index_value y \<Longrightarrow> x = y"
  by (cases x; cases y; simp)

instance
  by standard
    (auto simp: less_eq_LineBreakIndex_def less_LineBreakIndex_def intro: index_value_inject)

end

datatype SentenceState =
   STATE_SENTENCE_OUTSIDE | STATE_SENTENCE_BODY | STATE_SENTENCE_TERM
  | STATE_SENTENCE_POST_TERM_CLOSE | STATE_SENTENCE_POST_TERM_SPACE
  | STATE_SENTENCE_POST_TERM_SEP | STATE_SENTENCE_DOT | STATE_SENTENCE_POST_DOT_CLOSE
  | STATE_SENTENCE_POST_DOT_SPACE | STATE_SENTENCE_POST_DOT_OPEN | STATE_SENTENCE_POST_DOT_SEP

datatype WordType = WordNone | WordLetters | WordNumbers

datatype JamoType = JAMO_L | JAMO_V | JAMO_T | JAMO_LV | JAMO_LVT | NO_JAMO

section \<open>The pair table\<close>

definition line_break_indexes :: "LineBreakIndex list" where
  "line_break_indexes =
     [INDEX_MANDATORY, INDEX_CARRIAGE_RETURN, INDEX_LINE_FEED, INDEX_COMBINING_MARK,
      INDEX_SURROGATE, INDEX_ZERO_WIDTH_SPACE, INDEX_INSEPARABLE, INDEX_NON_BREAKING_GLUE,
      INDEX_CONTINGENT, INDEX_SPACE, INDEX_AFTER, INDEX_BEFORE, INDEX_BEFORE_AND_AFTER,
      INDEX_HYPHEN, INDEX_NON_STARTER, INDEX_OPEN_PUNCTUATION, INDEX_CLOSE_PUNCTUATION,
      INDEX_QUOTATION, INDEX_EXCLAMATION, INDEX_IDEOGRAPHIC, INDEX_NUMERIC,
      INDEX_INFIX_SEPARATOR, INDEX_SYMBOL, INDEX_ALPHABETIC, INDEX_PREFIX, INDEX_POSTFIX,
      INDEX_COMPLEX_CONTEXT, INDEX_AMBIGUOUS, INDEX_UNKNOWN, INDEX_NEXT_LINE, INDEX_WORD_JOINER,
      INDEX_HANGUL_L_JAMO, INDEX_HANGUL_V_JAMO, INDEX_HANGUL_T_JAMO, INDEX_HANGUL_LV_SYLLABLE,
      INDEX_HANGUL_LVT_SYLLABLE]"

definition row_OPEN_PUNCTUATION :: "BreakOpportunity list" where
  "row_OPEN_PUNCTUATION =
     [BREAK_PROHIBITED, BREAK_PROHIBITED, BREAK_PROHIBITED, BREAK_PROHIBITED, BREAK_PROHIBITED,
      BREAK_PROHIBITED, BREAK_PROHIBITED, BREAK_PROHIBITED, BREAK_PROHIBITED, BREAK_PROHIBITED,
      BREAK_PROHIBITED, BREAK_PROHIBITED, BREAK_PROHIBITED, BREAK_PROHIBITED, BREAK_PROHIBITED,
      BREAK_PROHIBITED, BREAK_PROHIBITED, BREAK_PROHIBITED, BREAK_PROHIBITED, BREAK_PROHIBITED,
      BREAK_PROHIBITED]"

definition row_CLOSE_PUNCTUATION :: "BreakOpportunity list" where
  "row_CLOSE_PUNCTUATION =
     [BREAK_ALLOWED, BREAK_PROHIBITED, BREAK_IF_SPACES, BREAK_IF_SPACES, BREAK_PROHIBITED,
      BREAK_PROHIBITED, BREAK_PROHIBITED, BREAK_PROHIBITED, BREAK_ALLOWED, BREAK_IF_SPACES,
      BREAK_ALLOWED, BREAK_ALLOWED, BREAK_ALLOWED, BREAK_ALLOWED, BREAK_IF_SPACES,
      BREAK_IF_SPACES, BREAK_ALLOWED, BREAK_ALLOWED, BREAK_PROHIBITED, BREAK_PROHIBITED,
      BREAK_PROHIBITED]"

definition row_QUOTATION :: "BreakOpportunity list" where
  "row_QUOTATION =
     [BREAK_PROHIBITED, BREAK_PROHIBITED, BREAK_IF_SPACES, BREAK_IF_SPACES, BREAK_IF_SPACES,
      BREAK_PROHIBITED, BREAK_PROHIBITED, BREAK_PROHIBITED, BREAK_IF_SPACES, BREAK_IF_SPACES,
      BREAK_IF_SPACES, BREAK_IF_SPACES, BREAK_IF_SPACES, BREAK_IF_SPACES, BREAK_IF_SPACES,
      BREAK_IF_SPACES, BREAK_IF_SPACES, BREAK_IF_SPACES, BREAK_PROHIBITED, BREAK_PROHIBITED,
      BREAK_PROHIBITED]"

definition row_NON_BREAKING_GLUE :: "BreakOpportunity list" where
  "row_NON_BREAKING_GLUE =
     [BREAK_IF_SPACES, BREAK_PROHIBITED, BREAK_IF_SPACES, BREAK_IF_SPACES, BREAK_IF_SPACES,
      BREAK_PROHIBITED, BREAK_PROHIBITED, BREAK_PROHIBITED, BREAK_IF_SPACES, BREAK_IF_SPACES,
      BREAK_IF_SPACES, BREAK_IF_SPACES, BREAK_IF_SPACES, BREAK_IF_SPACES, BREAK_IF_SPACES,
      BREAK_IF_SPACES, BREAK_IF_SPACES, BREAK_IF_SPACES, BREAK_PROHIBITED, BREAK_PROHIBITED,
      BREAK_PROHIBITED]"

definition row_NON_STARTER :: "BreakOpportunity list" where
  "row_NON_STARTER =
     [BREAK_ALLOWED, BREAK_PROHIBITED, BREAK_IF_SPACES, BREAK_IF_SPACES, BREAK_IF_SPACES,
      BREAK_PROHIBITED, BREAK_PROHIBITED, BREAK_PROHIBITED, BREAK_ALLOWED, BREAK_ALLOWED,
      BREAK_ALLOWED, BREAK_ALLOWED, BREAK_ALLOWED, BREAK_ALLOWED, BREAK_IF_SPACES,
      BREAK_IF_SPACES, BREAK_ALLOWED, BREAK_ALLOWED, BREAK_PROHIBITED, BREAK_PROHIBITED,
      BREAK_PROHIBITED]"

definition row_EXCLAMATION :: "BreakOpportunity list" where
  "row_EXCLAMATION =
     [BREAK_ALLOWED, BREAK_PROHIBITED, BREAK_IF_SPACES, BREAK_IF_SPACES, BREAK_IF_SPACES,
      BREAK_PROHIBITED, BREAK_PROHIBITED, BREAK_PROHIBITED, BREAK_ALLOWED, BREAK_ALLOWED,
      BREAK_ALLOWED, BREAK_ALLOWED, BREAK_ALLOWED, BREAK_ALLOWED, BREAK_IF_SPACES,
      BREAK_IF_SPACES, BREAK_ALLOWED, BREAK_ALLOWED, BREAK_PROHIBITED, BREAK_PROHIBITED,
      BREAK_PROHIBITED]"

definition row_SYMBOL :: "BreakOpportunity list" where
  "row_SYMBOL =
     [BREAK_ALLOWED, BREAK_PROHIBITED, BREAK_IF_SPACES, BREAK_IF_SPACES, BREAK_IF_SPACES,
      BREAK_PROHIBITED, BREAK_PROHIBITED, BREAK_PROHIBITED, BREAK_ALLOWED, BREAK_ALLOWED,
      BREAK_IF_SPACES, BREAK_ALLOWED, BREAK_ALLOWED, BREAK_ALLOWED, BREAK_IF_SPACES,
      BREAK_IF_SPACES, BREAK_ALLOWED, BREAK_ALLOWED, BREAK_PROHIBITED, BREAK_PROHIBITED,
      BREAK_PROHIBITED]"

definition row_INFIX_SEPARATOR :: "BreakOpportunity list" where
  "row_INFIX_SEPARATOR =
     [BREAK_ALLOWED, BREAK_PROHIBITED, BREAK_IF_SPACES, BREAK_IF_SPACES, BREAK_IF_SPACES,
      BREAK_PROHIBITED, BREAK_PROHIBITED, BREAK_PROHIBITED, BREAK_ALLOWED, BREAK_ALLOWED,
      BREAK_IF_SPACES, BREAK_IF_SPACES, BREAK_ALLOWED, BREAK_ALLOWED, BREAK_IF_SPACES,
      BREAK_IF_SPACES, BREAK_ALLOWED, BREAK_ALLOWED, BREAK_PROHIBITED, BREAK_PROHIBITED,
      BREAK_PROHIBITED]"

definition row_PREFIX :: "BreakOpportunity list" where
  "row_PREFIX =
     [BREAK_IF_SPACES, BREAK_PROHIBITED, BREAK_IF_SPACES, BREAK_IF_SPACES, BREAK_IF_SPACES,
      BREAK_PROHIBITED, BREAK_PROHIBITED, BREAK_PROHIBITED, BREAK_ALLOWED, BREAK_ALLOWED,
      BREAK_IF_SPACES, BREAK_IF_SPACES, BREAK_IF_SPACES, BREAK_ALLOWED, BREAK_IF_SPACES,
      BREAK_IF_SPACES, BREAK_ALLOWED, BREAK_ALLOWED, BREAK_PROHIBITED, BREAK_PROHIBITED,
      BREAK_PROHIBITED]"

definition row_POSTFIX :: "BreakOpportunity list" where
  "row_POSTFIX =
     [BREAK_ALLOWED, BREAK_PROHIBITED, BREAK_IF_SPACES, BREAK_IF_SPACES, BREAK_IF_SPACES,
      BREAK_PROHIBITED, BREAK_PROHIBITED, BREAK_PROHIBITED, BREAK_ALLOWED, BREAK_ALLOWED,
      BREAK_ALLOWED, BREAK_ALLOWED, BREAK_ALLOWED, BREAK_ALLOWED, BREAK_IF_SPACES,
      BREAK_IF_SPACES, BREAK_ALLOWED, BREAK_ALLOWED, BREAK_PROHIBITED, BREAK_PROHIBITED,
      BREAK_PROHIBITED]"

definition row_NUMERIC :: "BreakOpportunity list" where
  "row_NUMERIC =
     [BREAK_ALLOWED, BREAK_PROHIBITED, BREAK_IF_SPACES, BREAK_IF_SPACES, BREAK_IF_SPACES,
      BREAK_PROHIBITED, BREAK_PROHIBITED, BREAK_PROHIBITED, BREAK_ALLOWED, BREAK_IF_SPACES,
      BREAK_IF_SPACES, BREAK_IF_SPACES, BREAK_ALLOWED, BREAK_IF_SPACES, BREAK_IF_SPACES,
      BREAK_IF_SPACES, BREAK_ALLOWED, BREAK_ALLOWED, BREAK_PROHIBITED, BREAK_PROHIBITED,
      BREAK_PROHIBITED]"

definition row_ALPHABETIC :: "BreakOpportunity list" where
  "row_ALPHABETIC =
     [BREAK_ALLOWED, BREAK_PROHIBITED, BREAK_IF_SPACES, BREAK_IF_SPACES, BREAK_IF_SPACES,
      BREAK_PROHIBITED, BREAK_PROHIBITED, BREAK_PROHIBITED, BREAK_ALLOWED, BREAK_ALLOWED,
      BREAK_IF_SPACES, BREAK_IF_SPACES, BREAK_ALLOWED, BREAK_IF_SPACES, BREAK_IF_SPACES,
      BREAK_IF_SPACES, BREAK_ALLOWED, BREAK_ALLOWED, BREAK_PROHIBITED, BREAK_PROHIBITED,
      BREAK_PROHIBITED]"

definition row_IDEOGRAPHIC :: "BreakOpportunity list" where
  "row_IDEOGRAPHIC =
     [BREAK_ALLOWED, BREAK_PROHIBITED, BREAK_IF_SPACES, BREAK_IF_SPACES, BREAK_IF_SPACES,
      BREAK_PROHIBITED, BREAK_PROHIBITED, BREAK_PROHIBITED, BREAK_ALLOWED, BREAK_IF_SPACES,
      BREAK_ALLOWED, BREAK_ALLOWED, BREAK_ALLOWED, BREAK_IF_SPACES, BREAK_IF_SPACES,
      BREAK_IF_SPACES, BREAK_ALLOWED, BREAK_ALLOWED, BREAK_PROHIBITED, BREAK_PROHIBITED,
      BREAK_PROHIBITED]"

definition row_INSEPARABLE :: "BreakOpportunity list" where
  "row_INSEPARABLE =
     [BREAK_ALLOWED, BREAK_PROHIBITED, BREAK_IF_SPACES, BREAK_IF_SPACES, BREAK_IF_SPACES,
      BREAK_PROHIBITED, BREAK_PROHIBITED, BREAK_PROHIBITED, BREAK_ALLOWED, BREAK_ALLOWED,
      BREAK_ALLOWED, BREAK_ALLOWED, BREAK_ALLOWED, BREAK_IF_SPACES, BREAK_IF_SPACES,
      BREAK_IF_SPACES, BREAK_ALLOWED, BREAK_ALLOWED, BREAK_PROHIBITED, BREAK_PROHIBITED,
      BREAK_PROHIBITED]"

definition row_HYPHEN :: "BreakOpportunity list" where
  "row_HYPHEN =
     [BREAK_ALLOWED, BREAK_PROHIBITED, BREAK_IF_SPACES, BREAK_IF_SPACES, BREAK_IF_SPACES,
      BREAK_PROHIBITED, BREAK_PROHIBITED, BREAK_PROHIBITED, BREAK_ALLOWED, BREAK_ALLOWED,
      BREAK_IF_SPACES, BREAK_ALLOWED, BREAK_ALLOWED, BREAK_ALLOWED, BREAK_IF_SPACES,
      BREAK_IF_SPACES, BREAK_ALLOWED, BREAK_ALLOWED, BREAK_PROHIBITED, BREAK_PROHIBITED,
      BREAK_PROHIBITED]"

definition row_AFTER :: "BreakOpportunity list" where
  "row_AFTER =
     [BREAK_ALLOWED, BREAK_PROHIBITED, BREAK_IF_SPACES, BREAK_IF_SPACES, BREAK_IF_SPACES,
      BREAK_PROHIBITED, BREAK_PROHIBITED, BREAK_PROHIBITED, BREAK_ALLOWED, BREAK_ALLOWED,
      BREAK_ALLOWED, BREAK_ALLOWED, BREAK_ALLOWED, BREAK_ALLOWED, BREAK_IF_SPACES,
      BREAK_IF_SPACES, BREAK_ALLOWED, BREAK_ALLOWED, BREAK_PROHIBITED, BREAK_PROHIBITED,
      BREAK_PROHIBITED]"

definition row_BEFORE :: "BreakOpportunity list" where
  "row_BEFORE =
     [BREAK_IF_SPACES, BREAK_PROHIBITED, BREAK_IF_SPACES, BREAK_IF_SPACES, BREAK_IF_SPACES,
      BREAK_PROHIBITED, BREAK_PROHIBITED, BREAK_PROHIBITED, BREAK_IF_SPACES, BREAK_IF_SPACES,
      BREAK_IF_SPACES, BREAK_IF_SPACES, BREAK_IF_SPACES, BREAK_IF_SPACES, BREAK_IF_SPACES,
      BREAK_IF_SPACES, BREAK_IF_SPACES, BREAK_IF_SPACES, BREAK_PROHIBITED, BREAK_PROHIBITED,
      BREAK_PROHIBITED]"

definition row_BEFORE_AND_AFTER :: "BreakOpportunity list" where
  "row_BEFORE_AND_AFTER =
     [BREAK_ALLOWED, BREAK_PROHIBITED, BREAK_IF_SPACES, BREAK_IF_SPACES, BREAK_IF_SPACES,
      BREAK_PROHIBITED, BREAK_PROHIBITED, BREAK_PROHIBITED, BREAK_ALLOWED, BREAK_ALLOWED,
      BREAK_ALLOWED, BREAK_ALLOWED, BREAK_ALLOWED, BREAK_ALLOWED, BREAK_IF_SPACES,
      BREAK_IF_SPACES, BREAK_ALLOWED, BREAK_PROHIBITED, BREAK_PROHIBITED, BREAK_PROHIBITED,
      BREAK_PROHIBITED]"

definition row_ZERO_WIDTH_SPACE :: "BreakOpportunity list" where
  "row_ZERO_WIDTH_SPACE =
     [BREAK_ALLOWED, BREAK_ALLOWED, BREAK_ALLOWED, BREAK_ALLOWED, BREAK_ALLOWED, BREAK_ALLOWED,
      BREAK_ALLOWED, BREAK_ALLOWED, BREAK_ALLOWED, BREAK_ALLOWED, BREAK_ALLOWED, BREAK_ALLOWED,
      BREAK_ALLOWED, BREAK_ALLOWED, BREAK_ALLOWED, BREAK_ALLOWED, BREAK_ALLOWED, BREAK_ALLOWED,
      BREAK_PROHIBITED, BREAK_PROHIBITED, BREAK_ALLOWED]"

definition row_COMBINING_MARK :: "BreakOpportunity list" where
  "row_COMBINING_MARK =
     [BREAK_ALLOWED, BREAK_PROHIBITED, BREAK_IF_SPACES, BREAK_IF_SPACES, BREAK_IF_SPACES,
      BREAK_PROHIBITED, BREAK_PROHIBITED, BREAK_PROHIBITED, BREAK_ALLOWED, BREAK_ALLOWED,
      BREAK_IF_SPACES, BREAK_IF_SPACES, BREAK_ALLOWED, BREAK_IF_SPACES, BREAK_IF_SPACES,
      BREAK_IF_SPACES, BREAK_ALLOWED, BREAK_ALLOWED, BREAK_PROHIBITED, BREAK_PROHIBITED,
      BREAK_PROHIBITED]"

definition row_WORD_JOINER :: "BreakOpportunity list" where
  "row_WORD_JOINER =
     [BREAK_IF_SPACES, BREAK_PROHIBITED, BREAK_IF_SPACES, BREAK_IF_SPACES, BREAK_IF_SPACES,
      BREAK_PROHIBITED, BREAK_PROHIBITED, BREAK_PROHIBITED, BREAK_IF_SPACES, BREAK_IF_SPACES,
      BREAK_IF_SPACES, BREAK_IF_SPACES, BREAK_IF_SPACES, BREAK_IF_SPACES, BREAK_IF_SPACES,
      BREAK_IF_SPACES, BREAK_IF_SPACES, BREAK_IF_SPACES, BREAK_PROHIBITED, BREAK_PROHIBITED,
      BREAK_PROHIBITED]"

definition line_break_rows :: "BreakOpportunity list list" where
  "line_break_rows =
     [row_OPEN_PUNCTUATION, row_CLOSE_PUNCTUATION, row_QUOTATION, row_NON_BREAKING_GLUE,
      row_NON_STARTER, row_EXCLAMATION, row_SYMBOL, row_INFIX_SEPARATOR, row_PREFIX,
      row_POSTFIX, row_NUMERIC, row_ALPHABETIC, row_IDEOGRAPHIC, row_INSEPARABLE, row_HYPHEN,
      row_AFTER, row_BEFORE, row_BEFORE_AND_AFTER, row_ZERO_WIDTH_SPACE, row_COMBINING_MARK,
      row_WORD_JOINER]"

definition BREAK_TYPE_SAFE :: "GUnicodeBreakType \<Rightarrow> GUnicodeBreakType" where
  "BREAK_TYPE_SAFE btype =
     (if btype < length line_break_indexes then btype else G_UNICODE_BREAK_UNKNOWN)"

definition BREAK_INDEX :: "GUnicodeBreakType \<Rightarrow> LineBreakIndex res" where
  "BREAK_INDEX btype = array_at line_break_indexes btype"

definition BREAK_ROW :: "GUnicodeBreakType \<Rightarrow> BreakOpportunity list res" where
  "BREAK_ROW before_type =
     bind_res (BREAK_INDEX before_type) (\<lambda>x. array_at line_break_rows (index_value x))"

definition BREAK_OP :: "GUnicodeBreakType \<Rightarrow> GUnicodeBreakType \<Rightarrow> BreakOpportunity res" where
  "BREAK_OP before_type after_type =
     bind_res (BREAK_ROW before_type) (\<lambda>row.
       bind_res (BREAK_INDEX after_type) (\<lambda>x. array_at row (index_value x)))"

definition IN_BREAK_TABLE :: "GUnicodeBreakType \<Rightarrow> bool" where
  "IN_BREAK_TABLE btype \<longleftrightarrow>
     btype < length line_break_indexes \<and>
     (case BREAK_INDEX btype of Inl _ \<Rightarrow> False | Inr x \<Rightarrow> x < INDEX_END_OF_TABLE)"

section \<open>Hangul\<close>

primrec jamo_value :: "JamoType \<Rightarrow> nat" where
  "jamo_value JAMO_L = 0"
| "jamo_value JAMO_V = 1"
| "jamo_value JAMO_T = 2"
| "jamo_value JAMO_LV = 3"
| "jamo_value JAMO_LVT = 4"
| "jamo_value NO_JAMO = 5"

definition IS_JAMO :: "GUnicodeBreakType \<Rightarrow> bool" where
  "IS_JAMO btype \<longleftrightarrow>
     G_UNICODE_BREAK_HANGUL_L_JAMO \<le> btype \<and> btype \<le> G_UNICODE_BREAK_HANGUL_LVT_SYLLABLE"

text \<open>The cast to \<open>JamoType\<close> picks the enumerator with that number.\<close>

definition JAMO_TYPE :: "GUnicodeBreakType \<Rightarrow> JamoType" where
  "JAMO_TYPE btype =
     (if IS_JAMO btype
      then [JAMO_L, JAMO_V, JAMO_T, JAMO_LV, JAMO_LVT] ! (btype - G_UNICODE_BREAK_HANGUL_L_JAMO)
      else NO_JAMO)"

record CharJamoProps =
  start :: JamoType
  end_of :: JamoType

definition HangulJamoProps :: "CharJamoProps list" where
  "HangulJamoProps =
     [\<lparr>start = JAMO_L, end_of = JAMO_L\<rparr>,
      \<lparr>start = JAMO_V, end_of = JAMO_V\<rparr>,
      \<lparr>start = JAMO_T, end_of = JAMO_T\<rparr>,
      \<lparr>start = JAMO_L, end_of = JAMO_V\<rparr>,
      \<lparr>start = JAMO_L, end_of = JAMO_T\<rparr>,
      \<lparr>start = NO_JAMO, end_of = NO_JAMO\<rparr>]"

text \<open>The condition for a character to form one Hangul syllable with the one before it.\<close>

definition makes_hangul_syllable :: "JamoType \<Rightarrow> JamoType \<Rightarrow> bool res" where
  "makes_hangul_syllable prev_jamo jamo =
     (if jamo = NO_JAMO then Inr False
      else bind_res (array_at HangulJamoProps (jamo_value prev_jamo)) (\<lambda>p.
        bind_res (array_at HangulJamoProps (jamo_value jamo)) (\<lambda>t.
          let prev_end = end_of p; this_start = start t
          in Inr (prev_end = this_start \<or> jamo_value prev_end + 1 = jamo_value this_start))))"

section \<open>Character ranges\<close>

definition JAPANESE :: "nat \<Rightarrow> bool" where
  "JAPANESE wc \<longleftrightarrow> 0x2F00 \<le> wc \<and> wc \<le> 0x30FF"

definition KANJI :: "nat \<Rightarrow> bool" where
  "KANJI wc \<longleftrightarrow> 0x2F00 \<le> wc \<and> wc \<le> 0x2FDF"

definition HIRAGANA :: "nat \<Rightarrow> bool" where
  "HIRAGANA wc \<longleftrightarrow> 0x3040 \<le> wc \<and> wc \<le> 0x309F"

definition KATAKANA :: "nat \<Rightarrow> bool" where
  "KATAKANA wc \<longleftrightarrow> 0x30A0 \<le> wc \<and> wc \<le> 0x30FF"

definition LATIN :: "nat \<Rightarrow> bool" where
  "LATIN wc \<longleftrightarrow> (0x0020 \<le> wc \<and> wc \<le> 0x02AF) \<or> (0x1E00 \<le> wc \<and> wc \<le> 0x1EFF)"

definition CYRILLIC :: "nat \<Rightarrow> bool" where
  "CYRILLIC wc \<longleftrightarrow> 0x0400 \<le> wc \<and> wc \<le> 0x052F"

definition GREEK :: "nat \<Rightarrow> bool" where
  "GREEK wc \<longleftrightarrow> (0x0370 \<le> wc \<and> wc \<le> 0x3FF) \<or> (0x1F00 \<le> wc \<and> wc \<le> 0x1FFF)"

definition KANA :: "nat \<Rightarrow> bool" where
  "KANA wc \<longleftrightarrow> 0x3040 \<le> wc \<and> wc \<le> 0x30FF"

definition HANGUL :: "nat \<Rightarrow> bool" where
  "HANGUL wc \<longleftrightarrow> 0xAC00 \<le> wc \<and> wc \<le> 0xD7A3"

definition BACKSPACE_DELETES_CHARACTER :: "nat \<Rightarrow> bool" where
  "BACKSPACE_DELETES_CHARACTER wc \<longleftrightarrow>
     \<not> LATIN wc \<and> \<not> CYRILLIC wc \<and> \<not> GREEK wc \<and> \<not> KANA wc \<and> \<not> HANGUL wc"

section \<open>Every guarded index is inside its table\<close>

lemma length_line_break_indexes [simp]: "length line_break_indexes = 36"
  by (simp add: line_break_indexes_def)

lemma BREAK_TYPE_SAFE_less: "BREAK_TYPE_SAFE btype < 36"
  by (simp add: BREAK_TYPE_SAFE_def)

lemma all_below_list: "list_all P [0..<n] \<Longrightarrow> b < n \<Longrightarrow> P b"
  by (simp add: list_all_iff)

text \<open>The break types outside the pair table.\<close>

definition off_table :: "GUnicodeBreakType \<Rightarrow> bool" where
  "off_table b \<longleftrightarrow>
     b \<in> set [G_UNICODE_BREAK_MANDATORY, G_UNICODE_BREAK_CARRIAGE_RETURN, G_UNICODE_BREAK_LINE_FEED,
       G_UNICODE_BREAK_SURROGATE, G_UNICODE_BREAK_CONTINGENT, G_UNICODE_BREAK_SPACE,
       G_UNICODE_BREAK_COMPLEX_CONTEXT, G_UNICODE_BREAK_AMBIGUOUS, G_UNICODE_BREAK_UNKNOWN,
       G_UNICODE_BREAK_NEXT_LINE] \<or> IS_JAMO b"

lemma table_classes: "list_all (\<lambda>b. IN_BREAK_TABLE b \<or> off_table b) [0..<36]"
  by code_simp

lemma in_table_or_off: "b < 36 \<Longrightarrow> \<not> off_table b \<Longrightarrow> IN_BREAK_TABLE b"
  using all_below_list [OF table_classes] by blast

lemma in_table_less: "IN_BREAK_TABLE b \<Longrightarrow> b < 36"
  by (simp add: IN_BREAK_TABLE_def)

lemma pair_table:
  "list_all (\<lambda>b. list_all (\<lambda>a. IN_BREAK_TABLE b \<and> IN_BREAK_TABLE a \<longrightarrow>
     (case BREAK_OP b a of Inl _ \<Rightarrow> False | Inr brk \<Rightarrow> brk \<noteq> BREAK_ALREADY_HANDLED)) [0..<36]) [0..<36]"
  by code_simp

lemma BREAK_OP_total:
  assumes "IN_BREAK_TABLE b" and "IN_BREAK_TABLE a"
  obtains brk where "BREAK_OP b a = Inr brk" and "brk \<noteq> BREAK_ALREADY_HANDLED"
  using all_below_list [OF all_below_list [OF pair_table in_table_less [OF assms(1)]]
      in_table_less [OF assms(2)]] assms
  by (auto split: sum.splits)

lemma makes_hangul_syllable_total: "\<exists>h. makes_hangul_syllable prev_jamo jamo = Inr h"
  by (cases prev_jamo; cases jamo)
    (auto simp: makes_hangul_syllable_def HangulJamoProps_def array_at_def)

section \<open>Properties of the tables\<close>

text \<open>
  The Hangul test computes the syllable rules of UAX #29: L joins L, V, LV and LVT; LV and V
  join V and T; LVT and T join T; nothing else joins.
\<close>

theorem hangul_syllable_rules:
  "makes_hangul_syllable prev_jamo jamo =
     Inr (prev_jamo = JAMO_L \<and> jamo \<in> {JAMO_L, JAMO_V, JAMO_LV, JAMO_LVT} \<or>
          prev_jamo \<in> {JAMO_LV, JAMO_V} \<and> jamo \<in> {JAMO_V, JAMO_T} \<or>
          prev_jamo \<in> {JAMO_LVT, JAMO_T} \<and> jamo = JAMO_T)"
  by (cases prev_jamo; cases jamo)
    (auto simp: makes_hangul_syllable_def HangulJamoProps_def array_at_def)

end
