(* ===== verification/Gen_Breaks.thy ===== *)
theory Gen_Breaks
  imports Break_Tables
begin

text \<open>
  The break algorithm (src/Source/PurCFetcher/network/filter/FilterBase.cpp, \<open>genBreaks\<close> and
  \<open>doUStrGetBreaks\<close>). The variables that live across iterations are one record; each of the
  commented phases of an iteration (white space, grapheme boundaries, word boundaries, line breaks,
  word starts and ends, sentences) is a function on it, a step is their sequence, and the loop
  repeats it until the end of the text. Every write of the attribute array is checked, and a
  failing \<open>g_assert\<close> is a fault. Between the phases and the loop, the locale \<open>break_phase\<close> states
  what every phase leaves alone, on which the termination of the loop rests.
\<close>

section \<open>State\<close>

datatype GraphemeBreakType =
    GB_Other | GB_ControlCRLF | GB_Extend | GB_Prepend | GB_SpacingMark | GB_InHangulSyllable

datatype WordBreakType =
    WB_Other | WB_NewlineCRLF | WB_ExtendFormat | WB_Katakana | WB_ALetter | WB_MidNumLet
  | WB_MidLetter | WB_MidNum | WB_Numeric | WB_ExtendNumLet

text \<open>
  The variables of \<open>genBreaks\<close> that live across iterations; \<open>idx\<close> is \<open>i\<close>, \<open>nxt\<close> the offset
  of \<open>next\<close> in the text, \<open>all_done\<close> the flag \<open>done\<close>, and \<open>gb_attrs\<close> the array \<open>attrs\<close>.
\<close>

record gb_state =
  idx :: nat
  nxt :: nat
  prev_wc :: nat
  next_wc :: nat
  prev_jamo :: JamoType
  next_break_type :: GUnicodeBreakType
  prev_type :: GUnicodeType
  prev_break_type :: GUnicodeBreakType
  prev_was_break_space :: bool
  prev_GB_type :: GraphemeBreakType
  prev_prev_WB_type :: WordBreakType
  prev_WB_type :: WordBreakType
  prev_WB_i :: int
  current_word_type :: WordType
  last_word_letter :: nat
  base_character :: nat
  sentence_state :: SentenceState
  possible_sentence_end :: int
  possible_sentence_boundary :: int
  almost_done :: bool
  all_done :: bool
  gb_attrs :: "UCharBreakAttr list"

text \<open>Writes and reads of \<open>attrs\<close>; no phase of an iteration changes \<open>i\<close>.\<close>

definition set_attr :: "int \<Rightarrow> (UCharBreakAttr \<Rightarrow> UCharBreakAttr) \<Rightarrow> gb_state \<Rightarrow> gb_state res" where
  "set_attr j f st = bind_res (array_modify f j (gb_attrs st)) (\<lambda>a. Inr (st\<lparr>gb_attrs := a\<rparr>))"

definition set_attr_i :: "(UCharBreakAttr \<Rightarrow> UCharBreakAttr) \<Rightarrow> gb_state \<Rightarrow> gb_state res" where
  "set_attr_i f st = set_attr (int (idx st)) f st"

definition attr_i :: "gb_state \<Rightarrow> UCharBreakAttr res" where
  "attr_i st = array_at (gb_attrs st) (idx st)"

section \<open>Reading the text\<close>

abbreviation (input) "PARAGRAPH_SEPARATOR \<equiv> (0x2029::nat)"

text \<open>The bytes of a C string, with its terminator.\<close>

definition c_byte :: "nat list \<Rightarrow> nat \<Rightarrow> nat res" where
  "c_byte txt k = array_at (txt @ [0]) k"

definition gb_at_end :: "nat list \<Rightarrow> int \<Rightarrow> nat \<Rightarrow> bool res" where
  "gb_at_end txt len n =
     (if 0 \<le> len \<and> len \<le> int n then Inr True
      else bind_res (c_byte txt n) (\<lambda>b. Inr (b = 0)))"

definition genBreaks_init ::
  "unicode_lib \<Rightarrow> nat list \<Rightarrow> int \<Rightarrow> UCharBreakAttr list \<Rightarrow> gb_state res" where
  "genBreaks_init lib txt len attrs =
     bind_res (if len = 0 then Inr True else bind_res (c_byte txt 0) (\<lambda>b. Inr (b = 0))) (\<lambda>empty.
       let wc = if empty then PARAGRAPH_SEPARATOR else g_utf8_get_char lib txt
       in Inr \<lparr>idx = 0, nxt = 0, prev_wc = 0, next_wc = wc, prev_jamo = NO_JAMO,
            next_break_type = BREAK_TYPE_SAFE (g_unichar_break_type lib wc),
            prev_type = G_UNICODE_PARAGRAPH_SEPARATOR,
            prev_break_type = G_UNICODE_BREAK_UNKNOWN, prev_was_break_space = False,
            prev_GB_type = GB_Other, prev_prev_WB_type = WB_Other, prev_WB_type = WB_Other,
            prev_WB_i = -1, current_word_type = WordNone, last_word_letter = 0,
            base_character = 0, sentence_state = STATE_SENTENCE_OUTSIDE,
            possible_sentence_end = -1, possible_sentence_boundary = -1,
            almost_done = empty, all_done = False, gb_attrs = attrs\<rparr>)"

definition read_next :: "unicode_lib \<Rightarrow> nat list \<Rightarrow> int \<Rightarrow> gb_state \<Rightarrow> gb_state res" where
  "read_next lib txt len st =
     (if almost_done st
      then Inr (st\<lparr>next_wc := 0, next_break_type := G_UNICODE_BREAK_UNKNOWN, all_done := True\<rparr>)
      else bind_res (c_byte txt (nxt st)) (\<lambda>b.
        let n = nxt st + g_utf8_skip lib b
        in bind_res (gb_at_end txt len n) (\<lambda>at_end.
          let wc = if at_end then PARAGRAPH_SEPARATOR else g_utf8_get_char lib (drop n txt)
          in Inr (st\<lparr>nxt := n, almost_done := at_end, next_wc := wc,
               next_break_type := BREAK_TYPE_SAFE (g_unichar_break_type lib wc)\<rparr>))))"

section \<open>White space\<close>

definition white_char :: "GUnicodeType \<Rightarrow> nat \<Rightarrow> bool" where
  "white_char ty wc \<longleftrightarrow>
     ty = G_UNICODE_SPACE_SEPARATOR \<or> ty = G_UNICODE_LINE_SEPARATOR \<or>
     ty = G_UNICODE_PARAGRAPH_SEPARATOR \<or> wc = 9 \<or> wc = 10 \<or> wc = 13 \<or> wc = 12"

definition white_phase :: "GUnicodeType \<Rightarrow> nat \<Rightarrow> gb_state \<Rightarrow> gb_state res" where
  "white_phase ty wc =
     set_attr_i (\<lambda>a. a\<lparr>is_white := white_char ty wc,
       is_expandable_space := (wc = 0x0020 \<or> wc = 0x00A0)\<rparr>)"

section \<open>Grapheme boundaries\<close>

definition GB_type_of :: "GUnicodeType \<Rightarrow> nat \<Rightarrow> bool \<Rightarrow> GraphemeBreakType" where
  "GB_type_of ty wc hangul =
     (if ty = G_UNICODE_FORMAT \<and> (wc = 0x200C \<or> wc = 0x200D) then GB_Extend
      else if ty = G_UNICODE_FORMAT \<or> ty = G_UNICODE_CONTROL \<or> ty = G_UNICODE_LINE_SEPARATOR \<or>
        ty = G_UNICODE_PARAGRAPH_SEPARATOR \<or> ty = G_UNICODE_SURROGATE then GB_ControlCRLF
      else if ty = G_UNICODE_UNASSIGNED \<and>
        (0xFFF0 \<le> wc \<and> wc \<le> 0xFFF8 \<or> 0xE0000 \<le> wc \<and> wc \<le> 0xE0FFF) then GB_ControlCRLF
      else if ty = G_UNICODE_UNASSIGNED \<or> ty = G_UNICODE_OTHER_LETTER then
        (if hangul then GB_InHangulSyllable else GB_Other)
      else if ty = G_UNICODE_MODIFIER_LETTER then
        (if 0xFF9E \<le> wc \<and> wc \<le> 0xFF9F then GB_Extend else GB_Other)
      else if ty = G_UNICODE_SPACING_MARK then
        (if 0x0900 \<le> wc \<and>
            (wc = 0x09BE \<or> wc = 0x09D7 \<or> wc = 0x0B3E \<or> wc = 0x0B57 \<or> wc = 0x0BBE \<or> wc = 0x0BD7 \<or>
             wc = 0x0CC2 \<or> wc = 0x0CD5 \<or> wc = 0x0CD6 \<or> wc = 0x0D3E \<or> wc = 0x0D57 \<or> wc = 0x0DCF \<or>
             wc = 0x0DDF \<or> wc = 0x1D165 \<or> (0x1D16E \<le> wc \<and> wc \<le> 0x1D172))
         then GB_Extend else GB_SpacingMark)
      else if ty = G_UNICODE_ENCLOSING_MARK \<or> ty = G_UNICODE_NON_SPACING_MARK then GB_Extend
      else GB_Other)"

definition grapheme_boundary ::
  "nat \<Rightarrow> nat \<Rightarrow> GraphemeBreakType \<Rightarrow> GraphemeBreakType \<Rightarrow> bool" where
  "grapheme_boundary pwc wc prev_GB GB =
     (if wc = 10 \<and> pwc = 13 then False
      else if prev_GB = GB_ControlCRLF \<or> GB = GB_ControlCRLF then True
      else if GB = GB_InHangulSyllable then False
      else if GB = GB_Extend then False
      else if GB = GB_SpacingMark then False
      else if prev_GB = GB_Prepend then False
      else True)"

definition grapheme_phase ::
  "GUnicodeType \<Rightarrow> nat \<Rightarrow> bool \<Rightarrow> gb_state \<Rightarrow> (bool \<times> gb_state) res" where
  "grapheme_phase ty wc hangul st =
     (let GB = GB_type_of ty wc hangul;
          is_grapheme_boundary = grapheme_boundary (prev_wc st) wc (prev_GB_type st) GB
      in bind_res
           (set_attr_i (\<lambda>a. a\<lparr>is_cursor_position := is_grapheme_boundary,
              backspace_deletes_character :=
                is_grapheme_boundary \<and> BACKSPACE_DELETES_CHARACTER (base_character st)\<rparr>)
              (st\<lparr>prev_GB_type := GB\<rparr>))
           (\<lambda>st. Inr (is_grapheme_boundary, st)))"

section \<open>Word boundaries\<close>

text \<open>
  The word-break type of a character: each stage decides only what the stages before it left at
  \<open>WB_Other\<close>.
\<close>

definition WB_by_block :: "nat \<Rightarrow> WordBreakType" where
  "WB_by_block wc =
     (if wc div 256 = 0x30 then
        (if wc = 0x3031 \<or> wc = 0x3032 \<or> wc = 0x3033 \<or> wc = 0x3034 \<or> wc = 0x3035 \<or>
            wc = 0x309b \<or> wc = 0x309c \<or> wc = 0x30a0 \<or> wc = 0x30fc
         then WB_Katakana else WB_Other)
      else if wc div 256 = 0xFF then
        (if wc = 0xFF70 then WB_Katakana
         else if 0xFF9E \<le> wc \<and> wc \<le> 0xFF9F then WB_ExtendFormat
         else WB_Other)
      else if wc div 256 = 0x05 then (if wc = 0x05F3 then WB_ALetter else WB_Other)
      else WB_Other)"

definition WB_by_break_type :: "GUnicodeBreakType \<Rightarrow> nat \<Rightarrow> WordBreakType" where
  "WB_by_break_type break_type wc =
     (if break_type = G_UNICODE_BREAK_NUMERIC then (if wc \<noteq> 0x066C then WB_Numeric else WB_Other)
      else if break_type = G_UNICODE_BREAK_INFIX_SEPARATOR then
        (if wc \<noteq> 0x003A \<and> wc \<noteq> 0xFE13 \<and> wc \<noteq> 0x002E then WB_MidNum else WB_Other)
      else WB_Other)"

text \<open>The label \<open>Alphabetic\<close>.\<close>

definition WB_alphabetic :: "GUnicodeBreakType \<Rightarrow> GUnicodeScript \<Rightarrow> WordBreakType" where
  "WB_alphabetic break_type script =
     (if break_type \<noteq> G_UNICODE_BREAK_COMPLEX_CONTEXT \<and> script \<noteq> G_UNICODE_SCRIPT_HIRAGANA
      then WB_ALetter else WB_Other)"

definition WB_by_type ::
  "GUnicodeType \<Rightarrow> GUnicodeBreakType \<Rightarrow> GUnicodeScript \<Rightarrow> nat \<Rightarrow> WordBreakType" where
  "WB_by_type ty break_type script wc =
     (if ty = G_UNICODE_CONTROL then
        (if wc \<noteq> 0x000D \<and> wc \<noteq> 0x000A \<and> wc \<noteq> 0x000B \<and> wc \<noteq> 0x000C \<and> wc \<noteq> 0x0085
         then WB_Other else WB_NewlineCRLF)
      else if ty = G_UNICODE_LINE_SEPARATOR \<or> ty = G_UNICODE_PARAGRAPH_SEPARATOR then WB_NewlineCRLF
      else if ty = G_UNICODE_FORMAT \<or> ty = G_UNICODE_SPACING_MARK \<or> ty = G_UNICODE_ENCLOSING_MARK \<or>
        ty = G_UNICODE_NON_SPACING_MARK then WB_ExtendFormat
      else if ty = G_UNICODE_CONNECT_PUNCTUATION then WB_ExtendNumLet
      else if ty = G_UNICODE_INITIAL_PUNCTUATION \<or> ty = G_UNICODE_FINAL_PUNCTUATION then
        (if wc = 0x2018 \<or> wc = 0x2019 then WB_MidNumLet else WB_Other)
      else if ty = G_UNICODE_OTHER_PUNCTUATION then
        (if wc = 0x0027 \<or> wc = 0x002e \<or> wc = 0x2024 \<or> wc = 0xfe52 \<or> wc = 0xff07 \<or> wc = 0xff0e
         then WB_MidNumLet
         else if wc = 0x00b7 \<or> wc = 0x05f4 \<or> wc = 0x2027 \<or> wc = 0x003a \<or> wc = 0x0387 \<or>
           wc = 0xfe13 \<or> wc = 0xfe55 \<or> wc = 0xff1a
         then WB_MidLetter
         else if wc = 0x066c \<or> wc = 0xfe50 \<or> wc = 0xfe54 \<or> wc = 0xff0c \<or> wc = 0xff1b
         then WB_MidNum else WB_Other)
      else if ty = G_UNICODE_OTHER_SYMBOL then
        (if 0x24B6 \<le> wc \<and> wc \<le> 0x24E9 then WB_alphabetic break_type script else WB_Other)
      else if ty = G_UNICODE_OTHER_LETTER \<or> ty = G_UNICODE_LETTER_NUMBER then
        (if wc = 0x3006 \<or> wc = 0x3007 \<or> (0x3021 \<le> wc \<and> wc \<le> 0x3029) \<or>
            (0x3038 \<le> wc \<and> wc \<le> 0x303A) \<or> (0x3400 \<le> wc \<and> wc \<le> 0x4DB5) \<or>
            (0x4E00 \<le> wc \<and> wc \<le> 0x9FC3) \<or> (0xF900 \<le> wc \<and> wc \<le> 0xFA2D) \<or>
            (0xFA30 \<le> wc \<and> wc \<le> 0xFA6A) \<or> (0xFA70 \<le> wc \<and> wc \<le> 0xFAD9) \<or>
            (0x20000 \<le> wc \<and> wc \<le> 0x2A6D6) \<or> (0x2F800 \<le> wc \<and> wc \<le> 0x2FA1D)
         then WB_Other else WB_alphabetic break_type script)
      else if ty = G_UNICODE_LOWERCASE_LETTER \<or> ty = G_UNICODE_MODIFIER_LETTER \<or>
        ty = G_UNICODE_TITLECASE_LETTER \<or> ty = G_UNICODE_UPPERCASE_LETTER
      then WB_alphabetic break_type script
      else WB_Other)"

definition WB_type_of ::
  "GUnicodeType \<Rightarrow> GUnicodeBreakType \<Rightarrow> GUnicodeScript \<Rightarrow> nat \<Rightarrow> WordBreakType" where
  "WB_type_of ty break_type script wc =
     (let t = (if script = G_UNICODE_SCRIPT_KATAKANA then WB_Katakana else WB_Other);
          t = (if t = WB_Other then WB_by_block wc else t);
          t = (if t = WB_Other then WB_by_break_type break_type wc else t)
      in if t = WB_Other then WB_by_type ty break_type script wc else t)"

text \<open>
  The rules, for the types of the two characters before that are not \<open>ExtendFormat\<close>; \<open>adjacent\<close>
  is \<open>prev_WB_i + 1 == i\<close>. The second component says whether the boundary noted at
  \<open>prev_WB_i\<close> is withdrawn.
\<close>

definition word_boundary_rule ::
  "WordBreakType \<Rightarrow> WordBreakType \<Rightarrow> WordBreakType \<Rightarrow> bool \<Rightarrow> bool \<times> bool" where
  "word_boundary_rule prev_prev prev WB adjacent =
     (if prev = WB_NewlineCRLF \<and> adjacent then (True, False)
      else if WB = WB_NewlineCRLF then (True, False)
      else if WB = WB_ExtendFormat then (False, False)
      else if (prev = WB_ALetter \<or> prev = WB_Numeric \<or> prev = WB_ExtendNumLet) \<and>
        (WB = WB_ALetter \<or> WB = WB_Numeric \<or> WB = WB_ExtendNumLet) then (False, False)
      else if (prev = WB_Katakana \<or> prev = WB_ExtendNumLet) \<and>
        (WB = WB_Katakana \<or> WB = WB_ExtendNumLet) then (False, False)
      else if (prev_prev = WB_ALetter \<and> WB = WB_ALetter) \<and>
        (prev = WB_MidLetter \<or> prev = WB_MidNumLet) then (False, True)
      else if (prev_prev = WB_Numeric \<and> WB = WB_Numeric) \<and>
        (prev = WB_MidNum \<or> prev = WB_MidNumLet) then (False, True)
      else (True, False))"

definition word_boundary_phase ::
  "unicode_lib \<Rightarrow> GUnicodeType \<Rightarrow> nat \<Rightarrow> GUnicodeBreakType \<Rightarrow> bool \<Rightarrow> gb_state \<Rightarrow> gb_state res"
where
  "word_boundary_phase lib ty wc break_type is_grapheme_boundary st =
     (if is_grapheme_boundary then
        let WB = WB_type_of ty break_type (g_unichar_get_script lib wc) wc;
            (is_boundary, withdraw) =
              word_boundary_rule (prev_prev_WB_type st) (prev_WB_type st) WB
                (prev_WB_i st + 1 = int (idx st))
        in bind_res
             (if withdraw then set_attr (prev_WB_i st) (\<lambda>a. a\<lparr>is_word_boundary := False\<rparr>) st
              else Inr st)
             (\<lambda>st. set_attr_i (\<lambda>a. a\<lparr>is_word_boundary := is_boundary\<rparr>)
                (if WB \<noteq> WB_ExtendFormat
                 then st\<lparr>prev_prev_WB_type := prev_WB_type st, prev_WB_type := WB,
                        prev_WB_i := int (idx st)\<rparr>
                 else st))
      else set_attr_i (\<lambda>a. a\<lparr>is_word_boundary := False\<rparr>) st)"

section \<open>Line breaks\<close>

definition resolve_prev_break_type :: "GUnicodeBreakType \<Rightarrow> GUnicodeBreakType" where
  "resolve_prev_break_type b =
     (if IS_JAMO b then G_UNICODE_BREAK_IDEOGRAPHIC
      else if b = G_UNICODE_BREAK_AMBIGUOUS \<or> b = G_UNICODE_BREAK_COMPLEX_CONTEXT \<or>
        b = G_UNICODE_BREAK_UNKNOWN then G_UNICODE_BREAK_ALPHABETIC
      else b)"

text \<open>
  The inner switch, on the type of the character after the position, with the type that character
  has from then on.
\<close>

definition break_op_in_table ::
  "GUnicodeBreakType \<Rightarrow> GUnicodeBreakType \<Rightarrow> bool \<Rightarrow> (BreakOpportunity \<times> GUnicodeBreakType) res" where
  "break_op_in_table prev b hangul =
     (if b = G_UNICODE_BREAK_MANDATORY \<or> b = G_UNICODE_BREAK_LINE_FEED \<or>
         b = G_UNICODE_BREAK_CARRIAGE_RETURN \<or> b = G_UNICODE_BREAK_NEXT_LINE \<or>
         b = G_UNICODE_BREAK_SPACE then Inr (BREAK_PROHIBITED, b)
      else if b = G_UNICODE_BREAK_CONTINGENT then Inr (BREAK_ALLOWED, b)
      else if b = G_UNICODE_BREAK_SURROGATE then Inr (BREAK_ALLOWED, b)
      else if IS_JAMO b then
        Inr (if hangul then BREAK_IF_SPACES else BREAK_ALLOWED, G_UNICODE_BREAK_IDEOGRAPHIC)
      else if b = G_UNICODE_BREAK_AMBIGUOUS \<or> b = G_UNICODE_BREAK_COMPLEX_CONTEXT \<or>
        b = G_UNICODE_BREAK_UNKNOWN then
        bind_res (BREAK_OP prev G_UNICODE_BREAK_ALPHABETIC) (\<lambda>brk. Inr (brk, b))
      else if \<not> IN_BREAK_TABLE b then Inl AssertFailed
      else bind_res (BREAK_OP prev b) (\<lambda>brk. Inr (brk, b)))"

text \<open>
  The switch on the type before the position; the last component says whether it marked a
  mandatory break.
\<close>

definition break_op_at ::
  "nat \<Rightarrow> GUnicodeBreakType \<Rightarrow> GUnicodeBreakType \<Rightarrow> bool
     \<Rightarrow> (BreakOpportunity \<times> GUnicodeBreakType \<times> bool) res" where
  "break_op_at wc prev b hangul =
     (if prev = G_UNICODE_BREAK_MANDATORY \<or> prev = G_UNICODE_BREAK_LINE_FEED \<or>
         prev = G_UNICODE_BREAK_NEXT_LINE then Inr (BREAK_ALREADY_HANDLED, b, True)
      else if prev = G_UNICODE_BREAK_CARRIAGE_RETURN then
        Inr (BREAK_ALREADY_HANDLED, b, wc \<noteq> 10)
      else if prev = G_UNICODE_BREAK_CONTINGENT then Inr (BREAK_ALLOWED, b, False)
      else if prev = G_UNICODE_BREAK_SURROGATE then Inr (BREAK_ALLOWED, b, False)
      else if \<not> IN_BREAK_TABLE prev then Inl AssertFailed
      else bind_res (break_op_in_table prev b hangul) (\<lambda>(brk, b). Inr (brk, b, False)))"

text \<open>What the decision writes: the marks of the mandatory break, then the switch on \<open>break_op\<close>.\<close>

definition apply_break_op ::
  "BreakOpportunity \<Rightarrow> bool \<Rightarrow> bool \<Rightarrow> UCharBreakAttr \<Rightarrow> UCharBreakAttr" where
  "apply_break_op brk mandatory was_space a =
     (let a = a\<lparr>is_char_break := True\<rparr>;
          a = (if mandatory then a\<lparr>is_line_break := True, is_mandatory_break := True\<rparr> else a)
      in case brk of
           BREAK_PROHIBITED \<Rightarrow> a\<lparr>is_char_break := False\<rparr>
         | BREAK_IF_SPACES \<Rightarrow> if was_space then a\<lparr>is_line_break := True\<rparr> else a
         | BREAK_ALLOWED \<Rightarrow> a\<lparr>is_line_break := True\<rparr>
         | BREAK_ALREADY_HANDLED \<Rightarrow> a)"

definition line_break_at ::
  "nat \<Rightarrow> GUnicodeBreakType \<Rightarrow> bool \<Rightarrow> gb_state \<Rightarrow> (GUnicodeBreakType \<times> gb_state) res" where
  "line_break_at wc break_type hangul st =
     (let b = (if break_type = G_UNICODE_BREAK_SPACE \<and>
                  next_break_type st = G_UNICODE_BREAK_COMBINING_MARK
               then G_UNICODE_BREAK_IDEOGRAPHIC else break_type);
          prev = resolve_prev_break_type (prev_break_type st)
      in bind_res (break_op_at wc prev b hangul) (\<lambda>(brk, b, mandatory).
           bind_res (set_attr_i (apply_break_op brk mandatory (prev_was_break_space st))
               (st\<lparr>prev_break_type := prev\<rparr>))
             (\<lambda>st. Inr (b, st))))"

definition remember_break_type :: "GUnicodeBreakType \<Rightarrow> JamoType \<Rightarrow> gb_state \<Rightarrow> gb_state" where
  "remember_break_type break_type jamo st =
     (if break_type \<noteq> G_UNICODE_BREAK_SPACE
      then st\<lparr>prev_break_type := break_type, prev_was_break_space := False, prev_jamo := jamo\<rparr>
      else st\<lparr>prev_was_break_space := True\<rparr>)"

definition line_break_phase ::
  "nat \<Rightarrow> GUnicodeBreakType \<Rightarrow> JamoType \<Rightarrow> bool \<Rightarrow> gb_state \<Rightarrow> gb_state res" where
  "line_break_phase wc break_type jamo hangul st =
     (if prev_break_type st = G_UNICODE_BREAK_SPACE then Inl AssertFailed
      else bind_res
        (set_attr_i (\<lambda>a. a\<lparr>is_char_break := False, is_line_break := False,
           is_mandatory_break := False\<rparr>) st) (\<lambda>st.
        bind_res (attr_i st) (\<lambda>a.
          bind_res
            (if is_cursor_position a then line_break_at wc break_type hangul st
             else Inr (break_type, st)) (\<lambda>(b, st). Inr (remember_break_type b jamo st)))))"

section \<open>Word starts and ends\<close>

definition letter_type :: "GUnicodeType \<Rightarrow> bool" where
  "letter_type ty \<longleftrightarrow>
     ty = G_UNICODE_LOWERCASE_LETTER \<or> ty = G_UNICODE_MODIFIER_LETTER \<or>
     ty = G_UNICODE_OTHER_LETTER \<or> ty = G_UNICODE_TITLECASE_LETTER \<or>
     ty = G_UNICODE_UPPERCASE_LETTER"

definition number_type :: "GUnicodeType \<Rightarrow> bool" where
  "number_type ty \<longleftrightarrow>
     ty = G_UNICODE_DECIMAL_NUMBER \<or> ty = G_UNICODE_LETTER_NUMBER \<or> ty = G_UNICODE_OTHER_NUMBER"

text \<open>The Japanese special cases for ending a word.\<close>

definition japanese_word_end :: "nat \<Rightarrow> nat \<Rightarrow> bool" where
  "japanese_word_end letter wc \<longleftrightarrow>
     (JAPANESE letter \<or> JAPANESE wc) \<and>
     ((HIRAGANA letter \<and> \<not> HIRAGANA wc) \<or>
      (KATAKANA letter \<and> \<not> (KATAKANA wc \<or> HIRAGANA wc)) \<or>
      (KANJI letter \<and> \<not> (HIRAGANA wc \<or> KANJI wc)) \<or>
      (JAPANESE letter \<and> \<not> JAPANESE wc) \<or>
      (\<not> JAPANESE letter \<and> JAPANESE wc))"

definition word_phase :: "GUnicodeType \<Rightarrow> nat \<Rightarrow> gb_state \<Rightarrow> gb_state res" where
  "word_phase ty wc st =
     bind_res (set_attr_i (\<lambda>a. a\<lparr>is_word_start := False, is_word_end := False\<rparr>) st) (\<lambda>st.
       if current_word_type st \<noteq> WordNone then
         (if ty = G_UNICODE_SPACING_MARK \<or> ty = G_UNICODE_ENCLOSING_MARK \<or>
             ty = G_UNICODE_NON_SPACING_MARK \<or> ty = G_UNICODE_FORMAT then Inr st
          else if letter_type ty then
            bind_res
              (if current_word_type st = WordLetters \<and> japanese_word_end (last_word_letter st) wc
               then set_attr_i (\<lambda>a. a\<lparr>is_word_end := True\<rparr>) st else Inr st)
              (\<lambda>st. Inr (st\<lparr>last_word_letter := wc\<rparr>))
          else if number_type ty then Inr (st\<lparr>last_word_letter := wc\<rparr>)
          else set_attr_i (\<lambda>a. a\<lparr>is_word_end := True\<rparr>) (st\<lparr>current_word_type := WordNone\<rparr>))
       else if letter_type ty then
         set_attr_i (\<lambda>a. a\<lparr>is_word_start := True\<rparr>)
           (st\<lparr>current_word_type := WordLetters, last_word_letter := wc\<rparr>)
       else if number_type ty then
         set_attr_i (\<lambda>a. a\<lparr>is_word_start := True\<rparr>)
           (st\<lparr>current_word_type := WordNumbers, last_word_letter := wc\<rparr>)
       else Inr st)"

section \<open>Sentences\<close>

definition separator_type :: "GUnicodeType \<Rightarrow> bool" where
  "separator_type ty \<longleftrightarrow>
     ty = G_UNICODE_LINE_SEPARATOR \<or> ty = G_UNICODE_PARAGRAPH_SEPARATOR \<or>
     ty = G_UNICODE_CONTROL \<or> ty = G_UNICODE_FORMAT"

definition MAYBE_START_NEW_SENTENCE :: "GUnicodeType \<Rightarrow> gb_state \<Rightarrow> gb_state res" where
  "MAYBE_START_NEW_SENTENCE ty st =
     (if separator_type ty \<or> ty = G_UNICODE_SPACE_SEPARATOR
      then Inr (st\<lparr>sentence_state := STATE_SENTENCE_OUTSIDE\<rparr>)
      else set_attr_i (\<lambda>a. a\<lparr>is_sentence_start := True\<rparr>)
             (st\<lparr>sentence_state := STATE_SENTENCE_BODY\<rparr>))"

text \<open>The breaks around separators, before the state machine is consulted.\<close>

definition separator_break :: "GUnicodeType \<Rightarrow> GUnicodeType \<Rightarrow> nat \<Rightarrow> nat \<Rightarrow> nat \<Rightarrow> bool" where
  "separator_break prev_ty ty pwc wc nwc \<longleftrightarrow>
     separator_type prev_ty \<and> (wc = 13 \<longrightarrow> nwc \<noteq> 10) \<or>
     separator_type ty \<and> (wc = 10 \<longrightarrow> pwc \<noteq> 13)"

definition sentence_outside :: "GUnicodeType \<Rightarrow> gb_state \<Rightarrow> gb_state res" where
  "sentence_outside ty st =
     (if separator_type ty \<or> ty = G_UNICODE_SPACE_SEPARATOR then Inr st
      else set_attr_i (\<lambda>a. a\<lparr>is_sentence_start := True\<rparr>)
             (st\<lparr>sentence_state := STATE_SENTENCE_BODY\<rparr>))"

definition sentence_body :: "GUnicodeType \<Rightarrow> nat \<Rightarrow> gb_state \<Rightarrow> gb_state res" where
  "sentence_body ty wc st =
     bind_res (attr_i st) (\<lambda>a.
       if is_sentence_boundary a then
         bind_res (set_attr_i (\<lambda>a. a\<lparr>is_sentence_end := True\<rparr>) st) (MAYBE_START_NEW_SENTENCE ty)
       else if wc = 46 then Inr (st\<lparr>sentence_state := STATE_SENTENCE_DOT\<rparr>)
       else if wc = 63 \<or> wc = 33 then Inr (st\<lparr>sentence_state := STATE_SENTENCE_TERM\<rparr>)
       else Inr st)"

text \<open>The sentence ends here, with a boundary, and another may start.\<close>

definition end_sentence :: "GUnicodeType \<Rightarrow> gb_state \<Rightarrow> gb_state res" where
  "end_sentence ty st =
     bind_res (set_attr_i (\<lambda>a. a\<lparr>is_sentence_end := True, is_sentence_boundary := True\<rparr>) st)
       (MAYBE_START_NEW_SENTENCE ty)"

definition sentence_term :: "GUnicodeType \<Rightarrow> nat \<Rightarrow> gb_state \<Rightarrow> gb_state res" where
  "sentence_term ty wc st =
     (if ty = G_UNICODE_OTHER_PUNCTUATION \<or> ty = G_UNICODE_CLOSE_PUNCTUATION then
        (if ty = G_UNICODE_CLOSE_PUNCTUATION \<or> wc = 46 \<or> wc = 44 \<or> wc = 63 \<or> wc = 33
         then Inr (st\<lparr>sentence_state := STATE_SENTENCE_POST_TERM_CLOSE\<rparr>)
         else end_sentence ty st)
      else if ty = G_UNICODE_SPACE_SEPARATOR then
        set_attr_i (\<lambda>a. a\<lparr>is_sentence_end := True\<rparr>)
          (st\<lparr>sentence_state := STATE_SENTENCE_POST_TERM_SPACE\<rparr>)
      else if ty = G_UNICODE_LINE_SEPARATOR \<or> ty = G_UNICODE_PARAGRAPH_SEPARATOR then
        set_attr_i (\<lambda>a. a\<lparr>is_sentence_end := True\<rparr>)
          (st\<lparr>sentence_state := STATE_SENTENCE_POST_TERM_SEP\<rparr>)
      else end_sentence ty st)"

definition sentence_post_term_close :: "GUnicodeType \<Rightarrow> nat \<Rightarrow> gb_state \<Rightarrow> gb_state res" where
  "sentence_post_term_close ty wc st =
     (if ty = G_UNICODE_OTHER_PUNCTUATION \<or> ty = G_UNICODE_CLOSE_PUNCTUATION then
        (if ty = G_UNICODE_CLOSE_PUNCTUATION \<or> wc = 46 \<or> wc = 44 \<or> wc = 63 \<or> wc = 33
         then Inr st
         else end_sentence ty st)
      else if ty = G_UNICODE_SPACE_SEPARATOR then
        set_attr_i (\<lambda>a. a\<lparr>is_sentence_end := True\<rparr>)
          (st\<lparr>sentence_state := STATE_SENTENCE_POST_TERM_SPACE\<rparr>)
      else if ty = G_UNICODE_LINE_SEPARATOR \<or> ty = G_UNICODE_PARAGRAPH_SEPARATOR then
        set_attr_i (\<lambda>a. a\<lparr>is_sentence_end := True, is_sentence_boundary := False\<rparr>)
          (st\<lparr>sentence_state := STATE_SENTENCE_POST_TERM_SEP\<rparr>)
      else end_sentence ty st)"

definition sentence_post_term_space :: "GUnicodeType \<Rightarrow> gb_state \<Rightarrow> gb_state res" where
  "sentence_post_term_space ty st =
     (if ty = G_UNICODE_SPACE_SEPARATOR then Inr st
      else if ty = G_UNICODE_LINE_SEPARATOR \<or> ty = G_UNICODE_PARAGRAPH_SEPARATOR then
        set_attr_i (\<lambda>a. a\<lparr>is_sentence_boundary := False\<rparr>)
          (st\<lparr>sentence_state := STATE_SENTENCE_POST_TERM_SEP\<rparr>)
      else bind_res (set_attr_i (\<lambda>a. a\<lparr>is_sentence_boundary := True\<rparr>) st)
             (MAYBE_START_NEW_SENTENCE ty))"

text \<open>The forced break that starts both states after a separator.\<close>

definition forced_break :: "nat \<Rightarrow> gb_state \<Rightarrow> gb_state res" where
  "forced_break wc st =
     (if \<not> (prev_wc st = 13 \<and> wc = 10)
      then set_attr_i (\<lambda>a. a\<lparr>is_sentence_boundary := True\<rparr>) st else Inr st)"

definition sentence_post_term_sep :: "GUnicodeType \<Rightarrow> nat \<Rightarrow> gb_state \<Rightarrow> gb_state res" where
  "sentence_post_term_sep ty wc st = bind_res (forced_break wc st) (MAYBE_START_NEW_SENTENCE ty)"

text \<open>The default branch of the states after a full stop and its closing punctuation.\<close>

definition not_sentence_dot :: "GUnicodeType \<Rightarrow> gb_state \<Rightarrow> gb_state res" where
  "not_sentence_dot ty st =
     bind_res (attr_i st) (\<lambda>a.
       if is_sentence_boundary a then
         bind_res (set_attr_i (\<lambda>a. a\<lparr>is_sentence_end := True\<rparr>) st) (MAYBE_START_NEW_SENTENCE ty)
       else Inr (st\<lparr>sentence_state := STATE_SENTENCE_BODY\<rparr>))"

definition sentence_dot :: "GUnicodeType \<Rightarrow> gb_state \<Rightarrow> gb_state res" where
  "sentence_dot ty st =
     (if ty = G_UNICODE_CLOSE_PUNCTUATION
      then Inr (st\<lparr>sentence_state := STATE_SENTENCE_POST_DOT_CLOSE\<rparr>)
      else if ty = G_UNICODE_SPACE_SEPARATOR then
        Inr (st\<lparr>possible_sentence_end := int (idx st),
               sentence_state := STATE_SENTENCE_POST_DOT_SPACE\<rparr>)
      else not_sentence_dot ty st)"

definition sentence_post_dot_close :: "GUnicodeType \<Rightarrow> gb_state \<Rightarrow> gb_state res" where
  "sentence_post_dot_close ty st =
     (if ty = G_UNICODE_SPACE_SEPARATOR then
        Inr (st\<lparr>possible_sentence_end := int (idx st),
               sentence_state := STATE_SENTENCE_POST_DOT_SPACE\<rparr>)
      else not_sentence_dot ty st)"

text \<open>
  \<open>g_assert (possible_sentence_end >= 0)\<close> and \<open>g_assert (possible_sentence_boundary >= 0)\<close>, then
  the marks at both positions.
\<close>

definition end_possible_sentence :: "GUnicodeType \<Rightarrow> gb_state \<Rightarrow> gb_state res" where
  "end_possible_sentence ty st =
     (if possible_sentence_end st < 0 \<or> possible_sentence_boundary st < 0 then Inl AssertFailed
      else bind_res
        (set_attr (possible_sentence_boundary st) (\<lambda>a. a\<lparr>is_sentence_boundary := True\<rparr>) st) (\<lambda>st.
        bind_res (set_attr (possible_sentence_end st) (\<lambda>a. a\<lparr>is_sentence_end := True\<rparr>) st) (\<lambda>st.
          MAYBE_START_NEW_SENTENCE ty
            (st\<lparr>possible_sentence_end := -1, possible_sentence_boundary := -1\<rparr>))))"

definition sentence_post_dot_space :: "GUnicodeType \<Rightarrow> gb_state \<Rightarrow> gb_state res" where
  "sentence_post_dot_space ty st =
     (let st = st\<lparr>possible_sentence_boundary := int (idx st)\<rparr>
      in if ty = G_UNICODE_SPACE_SEPARATOR then Inr st
         else if ty = G_UNICODE_OPEN_PUNCTUATION
         then Inr (st\<lparr>sentence_state := STATE_SENTENCE_POST_DOT_OPEN\<rparr>)
         else if ty = G_UNICODE_LOWERCASE_LETTER
         then Inr (st\<lparr>sentence_state := STATE_SENTENCE_BODY\<rparr>)
         else end_possible_sentence ty st)"

definition sentence_post_dot_open :: "GUnicodeType \<Rightarrow> gb_state \<Rightarrow> gb_state res" where
  "sentence_post_dot_open ty st =
     (if ty = G_UNICODE_OPEN_PUNCTUATION then Inr st
      else if ty = G_UNICODE_LOWERCASE_LETTER
      then Inr (st\<lparr>sentence_state := STATE_SENTENCE_BODY\<rparr>)
      else end_possible_sentence ty st)"

definition sentence_post_dot_sep :: "GUnicodeType \<Rightarrow> nat \<Rightarrow> gb_state \<Rightarrow> gb_state res" where
  "sentence_post_dot_sep ty wc st =
     bind_res (forced_break wc st) (\<lambda>st.
       if possible_sentence_end st < 0 \<or> possible_sentence_boundary st < 0 then Inl AssertFailed
       else bind_res (set_attr (possible_sentence_end st) (\<lambda>a. a\<lparr>is_sentence_end := True\<rparr>) st) (\<lambda>st.
         MAYBE_START_NEW_SENTENCE ty
           (st\<lparr>possible_sentence_end := -1, possible_sentence_boundary := -1\<rparr>)))"

definition sentence_machine :: "GUnicodeType \<Rightarrow> nat \<Rightarrow> gb_state \<Rightarrow> gb_state res" where
  "sentence_machine ty wc st =
     (case sentence_state st of
        STATE_SENTENCE_OUTSIDE \<Rightarrow> sentence_outside ty st
      | STATE_SENTENCE_BODY \<Rightarrow> sentence_body ty wc st
      | STATE_SENTENCE_TERM \<Rightarrow> sentence_term ty wc st
      | STATE_SENTENCE_POST_TERM_CLOSE \<Rightarrow> sentence_post_term_close ty wc st
      | STATE_SENTENCE_POST_TERM_SPACE \<Rightarrow> sentence_post_term_space ty st
      | STATE_SENTENCE_POST_TERM_SEP \<Rightarrow> sentence_post_term_sep ty wc st
      | STATE_SENTENCE_DOT \<Rightarrow> sentence_dot ty st
      | STATE_SENTENCE_POST_DOT_CLOSE \<Rightarrow> sentence_post_dot_close ty st
      | STATE_SENTENCE_POST_DOT_SPACE \<Rightarrow> sentence_post_dot_space ty st
      | STATE_SENTENCE_POST_DOT_OPEN \<Rightarrow> sentence_post_dot_open ty st
      | STATE_SENTENCE_POST_DOT_SEP \<Rightarrow> sentence_post_dot_sep ty wc st)"

definition sentence_phase :: "GUnicodeType \<Rightarrow> nat \<Rightarrow> gb_state \<Rightarrow> gb_state res" where
  "sentence_phase ty wc st =
     bind_res
       (set_attr_i (\<lambda>a. a\<lparr>is_sentence_start := False, is_sentence_end := False,
          is_sentence_boundary :=
            separator_break (prev_type st) ty (prev_wc st) wc (next_wc st)\<rparr>) st)
       (sentence_machine ty wc)"

section \<open>The loop\<close>

definition mark_type :: "GUnicodeType \<Rightarrow> bool" where
  "mark_type ty \<longleftrightarrow>
     ty = G_UNICODE_SPACING_MARK \<or> ty = G_UNICODE_ENCLOSING_MARK \<or> ty = G_UNICODE_NON_SPACING_MARK"

text \<open>The end of an iteration, with the \<open>i++\<close> of the loop.\<close>

definition next_char :: "GUnicodeType \<Rightarrow> nat \<Rightarrow> gb_state \<Rightarrow> gb_state" where
  "next_char ty wc st =
     st\<lparr>prev_type := ty, prev_wc := wc,
        base_character := (if mark_type ty then base_character st else wc), idx := Suc (idx st)\<rparr>"

text \<open>The phases of an iteration, after the next character has been read.\<close>

definition classify ::
  "unicode_lib \<Rightarrow> nat \<Rightarrow> GUnicodeBreakType \<Rightarrow> gb_state \<Rightarrow> gb_state res" where
  "classify lib wc break_type st =
     (let ty = g_unichar_type lib wc; jamo = JAMO_TYPE break_type
      in bind_res (makes_hangul_syllable (prev_jamo st) jamo) (\<lambda>hangul.
         bind_res (white_phase ty wc st) (\<lambda>st.
         bind_res (grapheme_phase ty wc hangul st) (\<lambda>(is_grapheme_boundary, st).
         bind_res (word_boundary_phase lib ty wc break_type is_grapheme_boundary st) (\<lambda>st.
         bind_res (line_break_phase wc break_type jamo hangul st) (\<lambda>st.
         bind_res (word_phase ty wc st) (\<lambda>st.
         bind_res (sentence_phase ty wc st) (\<lambda>st. Inr (next_char ty wc st)))))))))"

definition genBreaks_step :: "unicode_lib \<Rightarrow> nat list \<Rightarrow> int \<Rightarrow> gb_state \<Rightarrow> gb_state res" where
  "genBreaks_step lib txt len st =
     bind_res (read_next lib txt len st) (classify lib (next_wc st) (next_break_type st))"

section \<open>Progress of the loop\<close>

text \<open>
  What the phases of an iteration leave alone: the position, the reading of the text and the size
  of the array.
\<close>

definition reader :: "gb_state \<Rightarrow> nat \<times> nat \<times> nat \<times> GUnicodeBreakType \<times> bool \<times> bool \<times> nat" where
  "reader st = (idx st, nxt st, next_wc st, next_break_type st, almost_done st, all_done st,
     length (gb_attrs st))"

lemma reader_updates [simp]:
  "reader (st\<lparr>gb_attrs := (gb_attrs st)[j := a]\<rparr>) = reader st"
  "reader (st\<lparr>prev_jamo := j'\<rparr>) = reader st"
  "reader (st\<lparr>prev_break_type := b\<rparr>) = reader st"
  "reader (st\<lparr>prev_was_break_space := s\<rparr>) = reader st"
  "reader (st\<lparr>prev_GB_type := g\<rparr>) = reader st"
  "reader (st\<lparr>prev_prev_WB_type := w\<rparr>) = reader st"
  "reader (st\<lparr>prev_WB_type := w\<rparr>) = reader st"
  "reader (st\<lparr>prev_WB_i := i\<rparr>) = reader st"
  "reader (st\<lparr>current_word_type := t\<rparr>) = reader st"
  "reader (st\<lparr>last_word_letter := c\<rparr>) = reader st"
  "reader (st\<lparr>sentence_state := ss\<rparr>) = reader st"
  "reader (st\<lparr>possible_sentence_end := i\<rparr>) = reader st"
  "reader (st\<lparr>possible_sentence_boundary := i\<rparr>) = reader st"
  by (simp_all add: reader_def)

locale break_phase =
  fixes run :: "gb_state \<Rightarrow> gb_state res"
  assumes reader_kept: "run st = Inr st' \<Longrightarrow> reader st' = reader st"
begin

lemma kept_since: "reader st = r \<Longrightarrow> run st = Inr st' \<Longrightarrow> reader st' = r"
  using reader_kept by simp

end

lemma set_attr_reader: "set_attr j f st = Inr st' \<Longrightarrow> reader st' = reader st"
  by (auto simp: set_attr_def bind_res_Inr_iff array_modify_Inr_iff)

lemma set_attr_i_reader: "set_attr_i f st = Inr st' \<Longrightarrow> reader st' = reader st"
  unfolding set_attr_i_def by (rule set_attr_reader)

interpretation white_run: break_phase "white_phase ty wc" for ty wc
  by unfold_locales (simp add: white_phase_def set_attr_i_reader)

interpretation boundary_run: break_phase "word_boundary_phase lib ty wc bt b" for lib ty wc bt b
  by unfold_locales
    (auto simp: word_boundary_phase_def bind_res_Inr_iff Let_def dest!: set_attr_i_reader set_attr_reader
      split: if_splits prod.splits)

interpretation line_run: break_phase "line_break_phase wc bt jamo h" for wc bt jamo h
  by unfold_locales
    (auto simp: line_break_phase_def line_break_at_def remember_break_type_def bind_res_Inr_iff Let_def
      dest!: set_attr_i_reader split: if_splits prod.splits)

interpretation word_run: break_phase "word_phase ty wc" for ty wc
  by unfold_locales
    (auto simp: word_phase_def bind_res_Inr_iff dest!: set_attr_i_reader split: if_splits)

interpretation start_run: break_phase "MAYBE_START_NEW_SENTENCE ty" for ty
  by unfold_locales
    (auto simp: MAYBE_START_NEW_SENTENCE_def dest!: set_attr_i_reader split: if_splits)

lemmas phase_readers = set_attr_i_reader set_attr_reader start_run.reader_kept

interpretation end_run: break_phase "end_sentence ty" for ty
  by unfold_locales
    (auto simp: end_sentence_def bind_res_Inr_iff dest!: phase_readers split: if_splits)

lemmas sentence_readers = phase_readers end_run.reader_kept

interpretation forced_run: break_phase "forced_break wc" for wc
  by unfold_locales
    (auto simp: forced_break_def bind_res_Inr_iff dest!: sentence_readers split: if_splits)

interpretation not_dot_run: break_phase "not_sentence_dot ty" for ty
  by unfold_locales
    (auto simp: not_sentence_dot_def bind_res_Inr_iff dest!: sentence_readers split: if_splits)

interpretation possible_run: break_phase "end_possible_sentence ty" for ty
  by unfold_locales
    (auto simp: end_possible_sentence_def bind_res_Inr_iff dest!: sentence_readers split: if_splits)

lemmas state_readers =
  sentence_readers forced_run.reader_kept not_dot_run.reader_kept possible_run.reader_kept

interpretation outside_run: break_phase "sentence_outside ty" for ty
  by unfold_locales
    (auto simp: sentence_outside_def bind_res_Inr_iff dest!: state_readers split: if_splits)

interpretation body_run: break_phase "sentence_body ty wc" for ty wc
  by unfold_locales
    (auto simp: sentence_body_def bind_res_Inr_iff dest!: state_readers split: if_splits)

interpretation term_run: break_phase "sentence_term ty wc" for ty wc
  by unfold_locales
    (auto simp: sentence_term_def bind_res_Inr_iff dest!: state_readers split: if_splits)

interpretation post_term_close_run: break_phase "sentence_post_term_close ty wc" for ty wc
  by unfold_locales
    (auto simp: sentence_post_term_close_def bind_res_Inr_iff dest!: state_readers split: if_splits)

interpretation post_term_space_run: break_phase "sentence_post_term_space ty" for ty
  by unfold_locales
    (auto simp: sentence_post_term_space_def bind_res_Inr_iff dest!: state_readers split: if_splits)

interpretation post_term_sep_run: break_phase "sentence_post_term_sep ty wc" for ty wc
  by unfold_locales
    (auto simp: sentence_post_term_sep_def bind_res_Inr_iff dest!: state_readers split: if_splits)

interpretation dot_run: break_phase "sentence_dot ty" for ty
  by unfold_locales
    (auto simp: sentence_dot_def bind_res_Inr_iff dest!: state_readers split: if_splits)

interpretation post_dot_close_run: break_phase "sentence_post_dot_close ty" for ty
  by unfold_locales
    (auto simp: sentence_post_dot_close_def bind_res_Inr_iff dest!: state_readers split: if_splits)

interpretation post_dot_space_run: break_phase "sentence_post_dot_space ty" for ty
  by unfold_locales
    (auto simp: sentence_post_dot_space_def Let_def bind_res_Inr_iff dest!: state_readers split: if_splits)

interpretation post_dot_open_run: break_phase "sentence_post_dot_open ty" for ty
  by unfold_locales
    (auto simp: sentence_post_dot_open_def bind_res_Inr_iff dest!: state_readers split: if_splits)

interpretation post_dot_sep_run: break_phase "sentence_post_dot_sep ty wc" for ty wc
  by unfold_locales
    (auto simp: sentence_post_dot_sep_def bind_res_Inr_iff dest!: state_readers split: if_splits)

interpretation machine_run: break_phase "sentence_machine ty wc" for ty wc
proof unfold_locales
  fix st st'
  assume "sentence_machine ty wc st = Inr st'"
  then show "reader st' = reader st"
    by (cases "sentence_state st")
      (simp_all add: sentence_machine_def outside_run.reader_kept body_run.reader_kept
        term_run.reader_kept post_term_close_run.reader_kept post_term_space_run.reader_kept
        post_term_sep_run.reader_kept dot_run.reader_kept post_dot_close_run.reader_kept
        post_dot_space_run.reader_kept post_dot_open_run.reader_kept post_dot_sep_run.reader_kept)
qed

interpretation sentence_run: break_phase "sentence_phase ty wc" for ty wc
  by unfold_locales
    (auto simp: sentence_phase_def bind_res_Inr_iff dest!: phase_readers machine_run.reader_kept)

lemma grapheme_phase_reader: "grapheme_phase ty wc h st = Inr (b, st') \<Longrightarrow> reader st' = reader st"
  by (auto simp: grapheme_phase_def Let_def bind_res_Inr_iff dest!: set_attr_i_reader)

lemma classify_advances:
  assumes "classify lib wc bt st = Inr st'"
  shows "idx st < length (gb_attrs st) \<and> length (gb_attrs st') = length (gb_attrs st) \<and>
    idx st' = Suc (idx st) \<and> nxt st' = nxt st \<and> next_wc st' = next_wc st \<and>
    next_break_type st' = next_break_type st \<and> almost_done st' = almost_done st \<and>
    all_done st' = all_done st"
proof -
  from assms obtain h st1 b st2 st3 st4 st5 st6 where
    1: "white_phase (g_unichar_type lib wc) wc st = Inr st1" and
    2: "grapheme_phase (g_unichar_type lib wc) wc h st1 = Inr (b, st2)" and
    3: "word_boundary_phase lib (g_unichar_type lib wc) wc bt b st2 = Inr st3" and
    4: "line_break_phase wc bt (JAMO_TYPE bt) h st3 = Inr st4" and
    5: "word_phase (g_unichar_type lib wc) wc st4 = Inr st5" and
    6: "sentence_phase (g_unichar_type lib wc) wc st5 = Inr st6" and
    7: "st' = next_char (g_unichar_type lib wc) wc st6"
    by (auto simp: classify_def Let_def bind_res_Inr_iff)
  note 3 [THEN boundary_run.kept_since [rotated]] 4 [THEN line_run.kept_since [rotated]]
    5 [THEN word_run.kept_since [rotated]] 6 [THEN sentence_run.kept_since [rotated]]
  with white_run.reader_kept [OF 1] grapheme_phase_reader [OF 2]
  have "reader st6 = reader st" by simp
  moreover have "idx st < length (gb_attrs st)"
    using 1 by (simp add: white_phase_def set_attr_i_def set_attr_def bind_res_Inr_iff array_modify_Inr_iff)
  ultimately show ?thesis by (simp add: 7 next_char_def reader_def)
qed

lemma read_next_kept:
  "read_next lib txt len st = Inr st' \<Longrightarrow> idx st' = idx st \<and> gb_attrs st' = gb_attrs st"
  by (auto simp: read_next_def bind_res_Inr_iff Let_def split: if_splits)

lemma genBreaks_step_advances:
  assumes "genBreaks_step lib txt len st = Inr st'"
  shows "idx st < length (gb_attrs st) \<and> length (gb_attrs st') = length (gb_attrs st) \<and>
    idx st' = Suc (idx st)"
  using assms read_next_kept [of lib "txt" len st]
  by (auto simp: genBreaks_step_def bind_res_Inr_iff dest!: classify_advances)

text \<open>
  The loop ends whatever the text is: each iteration writes \<open>attrs[i]\<close>, so that one which does not
  reach the end of the text leaves the array.
\<close>

function genBreaks_loop :: "unicode_lib \<Rightarrow> nat list \<Rightarrow> int \<Rightarrow> gb_state \<Rightarrow> gb_state res" where
  "genBreaks_loop lib txt len st =
     (if all_done st then Inr st
      else bind_res (genBreaks_step lib txt len st) (genBreaks_loop lib txt len))"
  by pat_completeness auto

termination
  by (relation "measure (\<lambda>(_, _, _, st). length (gb_attrs st) - idx st)")
    (auto dest!: genBreaks_step_advances)

declare genBreaks_loop.simps [simp del]

text \<open>The rules for the ends of the text.\<close>

definition genBreaks_ends :: "gb_state \<Rightarrow> UCharBreakAttr list res" where
  "genBreaks_ends st =
     (let i = int (idx st) - 1
      in bind_res (set_attr i (\<lambda>a. a\<lparr>is_cursor_position := True\<rparr>) st) (\<lambda>st.
         bind_res (set_attr 0 (\<lambda>a. a\<lparr>is_cursor_position := True\<rparr>) st) (\<lambda>st.
         bind_res (set_attr i (\<lambda>a. a\<lparr>is_word_boundary := True\<rparr>) st) (\<lambda>st.
         bind_res (set_attr 0 (\<lambda>a. a\<lparr>is_word_boundary := True\<rparr>) st) (\<lambda>st.
         bind_res (set_attr i (\<lambda>a. a\<lparr>is_line_break := True\<rparr>) st) (\<lambda>st.
         bind_res (set_attr 0 (\<lambda>a. a\<lparr>is_line_break := False\<rparr>) st) (\<lambda>st. Inr (gb_attrs st))))))))"

text \<open>A null array is the empty list; the routine then returns at once.\<close>

definition genBreaks ::
  "unicode_lib \<Rightarrow> nat list \<Rightarrow> int \<Rightarrow> UCharBreakAttr list \<Rightarrow> UCharBreakAttr list res" where
  "genBreaks lib txt len attrs =
     (if attrs = [] then Inr attrs
      else bind_res (genBreaks_init lib txt len attrs) (\<lambda>st.
        bind_res (genBreaks_loop lib txt len st) genBreaks_ends))"

text \<open>\<open>int textLen = strlen(m_text)\<close>: the conversion keeps the low 32 bits.\<close>

definition to_int :: "nat \<Rightarrow> int" where
  "to_int n = (int n + 2 ^ 31) mod 2 ^ 32 - 2 ^ 31"

definition doUStrGetBreaks :: "unicode_lib \<Rightarrow> UCharBreaker \<Rightarrow> UCharBreaker res" where
  "doUStrGetBreaks lib breaker =
     (let textLen = to_int (length (m_text breaker))
      in if textLen \<le> 0 then Inr breaker
         else
           let attrs = replicate (nat textLen) zero_attr;
               uchar = g_utf8_to_ucs4_fast lib (m_text breaker);
               breaker = breaker\<lparr>m_breakAttrs := attrs, m_uchar := uchar\<rparr>
           in if uchar = [] then Inr breaker
              else bind_res (genBreaks lib (m_text breaker) textLen attrs) (\<lambda>attrs.
                Inr (breaker\<lparr>m_breakAttrs := attrs\<rparr>)))"

end
