(* ===== verification/Gen_Breaks_Facts.thy ===== *)
theory Gen_Breaks_Facts
  imports Gen_Breaks
begin

text \<open>
  The correctness of the break algorithm: the invariant of the loop of \<open>genBreaks\<close> (no assertion
  fails, the late writes stay inside the array, the attributes of every classified position mean
  what FilterBase.h says), phase by phase; the characters the loop visits; and the properties of
  \<open>genBreaks\<close> and \<open>doUStrGetBreaks\<close> that follow.
\<close>

section \<open>Writes\<close>

lemma yields_set_attr [simp]:
  assumes "0 \<le> j" and "j < int (length (gb_attrs st))"
  shows "yields (set_attr j f st) Q \<longleftrightarrow>
    Q (st\<lparr>gb_attrs := (gb_attrs st)[nat j := f (gb_attrs st ! nat j)]\<rparr>)"
  using assms by (simp add: set_attr_def array_modify_def)

lemma yields_set_attr_i [simp]:
  "idx st < length (gb_attrs st) \<Longrightarrow> yields (set_attr_i f st) Q \<longleftrightarrow>
     Q (st\<lparr>gb_attrs := (gb_attrs st)[idx st := f (gb_attrs st ! idx st)]\<rparr>)"
  by (simp add: set_attr_i_def)

lemma yields_attr_i [simp]:
  "idx st < length (gb_attrs st) \<Longrightarrow> yields (attr_i st) Q \<longleftrightarrow> Q (gb_attrs st ! idx st)"
  by (simp add: attr_i_def)

text \<open>Outside its array a write fails.\<close>

lemma set_attr_i_outside: "length (gb_attrs st) \<le> idx st \<Longrightarrow> set_attr_i f st = Inl OutOfBounds"
  by (simp add: set_attr_i_def set_attr_def array_modify_def)

subsection \<open>What the attributes of a position mean\<close>

text \<open>
  The grapheme type a character can get: only a Jamo can join a Hangul syllable.
\<close>

definition gb_rel :: "unicode_lib \<Rightarrow> nat \<Rightarrow> GraphemeBreakType \<Rightarrow> bool" where
  "gb_rel lib wc GB \<longleftrightarrow>
     (\<exists>h. GB = GB_type_of (g_unichar_type lib wc) wc h \<and>
       (h \<longrightarrow> IS_JAMO (BREAK_TYPE_SAFE (g_unichar_break_type lib wc))))"

definition white_ok :: "unicode_lib \<Rightarrow> nat \<Rightarrow> UCharBreakAttr \<Rightarrow> bool" where
  "white_ok lib wc a \<longleftrightarrow> is_white a = white_char (g_unichar_type lib wc) wc \<and>
     is_expandable_space a = (wc = 0x0020 \<or> wc = 0x00A0)"

definition cursor_ok :: "unicode_lib \<Rightarrow> nat list \<Rightarrow> nat \<Rightarrow> UCharBreakAttr \<Rightarrow> bool" where
  "cursor_ok lib before wc a \<longleftrightarrow>
     (before \<noteq> [] \<longrightarrow>
       (\<exists>P G. gb_rel lib (last before) P \<and> gb_rel lib wc G \<and>
         is_cursor_position a = grapheme_boundary (last before) wc P G))"

definition boundary_ok :: "UCharBreakAttr \<Rightarrow> bool" where
  "boundary_ok a \<longleftrightarrow> (is_word_boundary a \<longrightarrow> is_cursor_position a)"

definition line_ok :: "nat list \<Rightarrow> UCharBreakAttr \<Rightarrow> bool" where
  "line_ok before a \<longleftrightarrow>
     (is_line_break a \<longrightarrow> is_char_break a) \<and> (is_char_break a \<longrightarrow> is_cursor_position a) \<and>
     (is_mandatory_break a \<longrightarrow> is_line_break a \<and> before \<noteq> [])"

definition word_ok :: "unicode_lib \<Rightarrow> nat \<Rightarrow> UCharBreakAttr \<Rightarrow> bool" where
  "word_ok lib wc a \<longleftrightarrow> \<not> (is_word_start a \<and> is_word_end a) \<and>
     (is_word_start a \<longrightarrow> letter_type (g_unichar_type lib wc) \<or> number_type (g_unichar_type lib wc))"

definition sentence_ok :: "unicode_lib \<Rightarrow> nat \<Rightarrow> UCharBreakAttr \<Rightarrow> bool" where
  "sentence_ok lib wc a \<longleftrightarrow> (is_sentence_start a \<longrightarrow>
     \<not> separator_type (g_unichar_type lib wc) \<and> g_unichar_type lib wc \<noteq> G_UNICODE_SPACE_SEPARATOR)"

text \<open>
  The breaks after and before a separator. The sentence machine takes them back only at a line or
  paragraph separator.
\<close>

definition line_separator :: "GUnicodeType \<Rightarrow> bool" where
  "line_separator ty \<longleftrightarrow> ty = G_UNICODE_LINE_SEPARATOR \<or> ty = G_UNICODE_PARAGRAPH_SEPARATOR"

declare line_separator_def [simp]

definition separator_ok :: "unicode_lib \<Rightarrow> nat list \<Rightarrow> nat \<Rightarrow> UCharBreakAttr \<Rightarrow> bool" where
  "separator_ok lib before wc a \<longleftrightarrow> line_separator (g_unichar_type lib wc) \<or>
     (before \<noteq> [] \<and> separator_type (g_unichar_type lib (last before)) \<and> wc \<noteq> 13 \<or>
      separator_type (g_unichar_type lib wc) \<and> wc \<noteq> 10 \<longrightarrow> is_sentence_boundary a)"

lemmas attr_oks = white_ok_def cursor_ok_def boundary_ok_def line_ok_def word_ok_def sentence_ok_def
  separator_ok_def

text \<open>Cumulatively, in the order of the phases.\<close>

definition marks1 :: "unicode_lib \<Rightarrow> nat list \<Rightarrow> nat \<Rightarrow> UCharBreakAttr \<Rightarrow> bool" where
  "marks1 lib before wc a \<longleftrightarrow> white_ok lib wc a \<and> cursor_ok lib before wc a"

definition marks2 :: "unicode_lib \<Rightarrow> nat list \<Rightarrow> nat \<Rightarrow> UCharBreakAttr \<Rightarrow> bool" where
  "marks2 lib before wc a \<longleftrightarrow> marks1 lib before wc a \<and> boundary_ok a"

definition marks3 :: "unicode_lib \<Rightarrow> nat list \<Rightarrow> nat \<Rightarrow> UCharBreakAttr \<Rightarrow> bool" where
  "marks3 lib before wc a \<longleftrightarrow> marks2 lib before wc a \<and> line_ok before a"

definition marks4 :: "unicode_lib \<Rightarrow> nat list \<Rightarrow> nat \<Rightarrow> UCharBreakAttr \<Rightarrow> bool" where
  "marks4 lib before wc a \<longleftrightarrow> marks3 lib before wc a \<and> word_ok lib wc a"

definition attr_ok :: "unicode_lib \<Rightarrow> nat list \<Rightarrow> nat \<Rightarrow> UCharBreakAttr \<Rightarrow> bool" where
  "attr_ok lib before wc a \<longleftrightarrow> marks4 lib before wc a \<and> sentence_ok lib wc a \<and>
     separator_ok lib before wc a"

lemmas marks_defs = marks1_def marks2_def marks3_def marks4_def attr_ok_def

subsection \<open>The loop invariant\<close>

definition sentence_inv :: "gb_state \<Rightarrow> bool" where
  "sentence_inv st \<longleftrightarrow>
     possible_sentence_end st \<le> int (idx st) \<and> possible_sentence_boundary st \<le> int (idx st) \<and>
     (sentence_state st = STATE_SENTENCE_POST_DOT_SPACE \<longrightarrow> 0 \<le> possible_sentence_end st) \<and>
     (sentence_state st = STATE_SENTENCE_POST_DOT_OPEN \<longrightarrow>
        0 \<le> possible_sentence_end st \<and> 0 \<le> possible_sentence_boundary st) \<and>
     sentence_state st \<noteq> STATE_SENTENCE_POST_DOT_SEP"

definition word_inv :: "gb_state \<Rightarrow> bool" where
  "word_inv st \<longleftrightarrow> prev_WB_i st \<le> int (idx st) \<and> (prev_WB_type st \<noteq> WB_Other \<longrightarrow> 0 \<le> prev_WB_i st)"

definition line_inv :: "gb_state \<Rightarrow> bool" where
  "line_inv st \<longleftrightarrow> prev_break_type st < 36 \<and> prev_break_type st \<noteq> G_UNICODE_BREAK_SPACE"

definition attrs_ok :: "unicode_lib \<Rightarrow> nat list \<Rightarrow> UCharBreakAttr list \<Rightarrow> bool" where
  "attrs_ok lib seen attrs \<longleftrightarrow> length seen \<le> length attrs \<and>
     (\<forall>j<length seen. attr_ok lib (take j seen) (seen ! j) (attrs ! j))"

definition gb_inv :: "unicode_lib \<Rightarrow> nat list \<Rightarrow> gb_state \<Rightarrow> bool" where
  "gb_inv lib seen st \<longleftrightarrow> idx st = length seen \<and> attrs_ok lib seen (gb_attrs st) \<and>
     line_inv st \<and> word_inv st \<and> sentence_inv st \<and>
     (seen \<noteq> [] \<longrightarrow> prev_type st = g_unichar_type lib (last seen))"

text \<open>What holds of the previous character; before the first there is none.\<close>

definition prev_inv :: "unicode_lib \<Rightarrow> nat list \<Rightarrow> gb_state \<Rightarrow> bool" where
  "prev_inv lib seen st \<longleftrightarrow>
     (if seen = [] then prev_break_type st = G_UNICODE_BREAK_UNKNOWN
      else prev_wc st = last seen \<and> gb_rel lib (last seen) (prev_GB_type st))"

lemmas gb_invs = line_inv_def word_inv_def sentence_inv_def

text \<open>
  Writes at the current position keep the meaning of the earlier ones; the late writes of the
  word and sentence phases keep it everywhere.
\<close>

lemma attrs_ok_write_i [simp]:
  "attrs_ok lib seen (attrs[length seen := a]) \<longleftrightarrow> attrs_ok lib seen attrs"
  by (simp add: attrs_ok_def)

lemma attr_ok_late_boundary:
  "attr_ok lib before wc a \<Longrightarrow> b \<or> line_separator (g_unichar_type lib wc) \<Longrightarrow>
     attr_ok lib before wc (a\<lparr>is_sentence_boundary := b\<rparr>)"
  by (cases b) (simp_all add: marks_defs attr_oks)

lemma attr_ok_late_writes:
  "attr_ok lib before wc a \<Longrightarrow> attr_ok lib before wc (a\<lparr>is_word_boundary := False\<rparr>)"
  "attr_ok lib before wc a \<Longrightarrow> b \<or> line_separator (g_unichar_type lib wc) \<Longrightarrow>
     attr_ok lib before wc (a\<lparr>is_sentence_boundary := b\<rparr>)"
  "attr_ok lib before wc a \<Longrightarrow> attr_ok lib before wc (a\<lparr>is_sentence_end := b\<rparr>)"
  by (simp_all add: attr_ok_late_boundary) (simp_all add: marks_defs attr_oks)

lemma attrs_ok_late_write:
  assumes "attrs_ok lib seen attrs"
    and "\<And>before wc a. attr_ok lib before wc a \<Longrightarrow> attr_ok lib before wc (f a)"
  shows "attrs_ok lib seen (attrs[j := f (attrs ! j)])"
proof -
  have "attr_ok lib (take k seen) (seen ! k) (attrs[j := f (attrs ! j)] ! k)" if "k < length seen" for k
    using that assms by (cases "k = j") (simp_all add: attrs_ok_def)
  with assms(1) show ?thesis by (simp add: attrs_ok_def)
qed

lemma attrs_ok_late_writes [simp]:
  assumes "attrs_ok lib seen attrs"
  shows "attrs_ok lib seen (attrs[j := (attrs ! j)\<lparr>is_word_boundary := False\<rparr>])"
    and "attrs_ok lib seen (attrs[j := (attrs ! j)\<lparr>is_sentence_boundary := True\<rparr>])"
    and "attrs_ok lib seen (attrs[j := (attrs ! j)\<lparr>is_sentence_end := b\<rparr>])"
  by (rule attrs_ok_late_write [OF assms], simp add: attr_ok_late_writes)+

subsection \<open>The phases\<close>

text \<open>
  Each phase returns and keeps the invariant, and the attributes of the current position get
  their meaning group by group.
\<close>

abbreviation (input) attr_now :: "nat list \<Rightarrow> gb_state \<Rightarrow> UCharBreakAttr" where
  "attr_now seen st \<equiv> gb_attrs st ! length seen"

definition gb_in :: "unicode_lib \<Rightarrow> nat list \<Rightarrow> gb_state \<Rightarrow> bool" where
  "gb_in lib seen st \<longleftrightarrow> gb_inv lib seen st \<and> length seen < length (gb_attrs st)"

lemmas gb_in_defs = gb_in_def gb_inv_def gb_invs

lemma gb_in_idx: "gb_in lib seen st \<Longrightarrow> idx st = length seen \<and> length seen < length (gb_attrs st)"
  by (simp add: gb_in_defs)

lemma gb_in_updates [simp]:
  "attrs = gb_attrs st \<Longrightarrow>
     gb_in lib seen (st\<lparr>gb_attrs := attrs[length seen := a]\<rparr>) = gb_in lib seen st"
  "gb_in lib seen (st\<lparr>prev_GB_type := GB\<rparr>) = gb_in lib seen st"
  "gb_in lib seen (st\<lparr>prev_was_break_space := s\<rparr>) = gb_in lib seen st"
  "gb_in lib seen (st\<lparr>current_word_type := w\<rparr>) = gb_in lib seen st"
  "gb_in lib seen (st\<lparr>last_word_letter := c\<rparr>) = gb_in lib seen st"
  by (simp_all add: gb_in_defs)

lemma white_phase_ok:
  assumes "gb_in lib seen st"
  shows "yields (white_phase (g_unichar_type lib wc) wc st) (\<lambda>st'. gb_in lib seen st' \<and>
    prev_inv lib seen st' = prev_inv lib seen st \<and> white_ok lib wc (attr_now seen st'))"
  using assms gb_in_idx [OF assms] by (simp add: white_phase_def white_ok_def prev_inv_def)

text \<open>At the first character, the only thing to remember is that there is none before it.\<close>

definition first_inv :: "nat list \<Rightarrow> gb_state \<Rightarrow> bool" where
  "first_inv seen st \<longleftrightarrow> (seen = [] \<longrightarrow> prev_break_type st = G_UNICODE_BREAK_UNKNOWN)"

lemma grapheme_phase_ok:
  assumes "gb_in lib seen st" and "prev_inv lib seen st" and "white_ok lib wc (attr_now seen st)"
    and "h \<longrightarrow> IS_JAMO (BREAK_TYPE_SAFE (g_unichar_break_type lib wc))"
  shows "yields (grapheme_phase (g_unichar_type lib wc) wc h st) (\<lambda>(b, st').
    gb_in lib seen st' \<and> first_inv seen st' \<and> gb_rel lib wc (prev_GB_type st') \<and>
    marks1 lib seen wc (attr_now seen st') \<and> is_cursor_position (attr_now seen st') = b)"
proof -
  have "gb_rel lib wc (GB_type_of (g_unichar_type lib wc) wc h)"
    using assms(4) by (auto simp: gb_rel_def)
  with assms(1-3) gb_in_idx [OF assms(1)] show ?thesis
    by (auto simp: grapheme_phase_def Let_def attr_oks prev_inv_def first_inv_def marks1_def
      gb_in_defs)
qed

text \<open>A late write leaves everything else about an entry as it is.\<close>

lemma late_write_stable:
  assumes "\<And>a. P (f a) = P a"
  shows "P (attrs[j := f (attrs ! j)] ! k) = P (attrs ! k)"
  using assms by (cases "k = j"; cases "j < length attrs") (simp_all add: list_update_beyond)

lemma marks1_boundary [simp]:
  "marks1 lib before wc (a\<lparr>is_word_boundary := b\<rparr>) = marks1 lib before wc a"
  by (simp add: marks_defs attr_oks)

lemma late_boundary [simp]:
  "marks1 lib before wc (attrs[j := (attrs ! j)\<lparr>is_word_boundary := b\<rparr>] ! k) =
     marks1 lib before wc (attrs ! k)"
  "is_cursor_position (attrs[j := (attrs ! j)\<lparr>is_word_boundary := b\<rparr>] ! k) =
     is_cursor_position (attrs ! k)"
  by (rule late_write_stable, simp)+

lemma word_boundary_rule_withdraws:
  "snd (word_boundary_rule pp p w adj) \<Longrightarrow> p \<noteq> WB_Other"
  by (auto simp: word_boundary_rule_def split: if_splits)

lemma word_boundary_phase_ok:
  assumes st: "gb_in lib seen st" "first_inv seen st" "gb_rel lib wc (prev_GB_type st)"
    "marks1 lib seen wc (attr_now seen st)" "is_cursor_position (attr_now seen st) = b"
  shows "yields (word_boundary_phase lib ty wc bt b st) (\<lambda>st'.
    gb_in lib seen st' \<and> first_inv seen st' \<and> gb_rel lib wc (prev_GB_type st') \<and>
    marks2 lib seen wc (attr_now seen st'))"
proof (cases b)
  case True
  define WB where "WB = WB_type_of ty bt (g_unichar_get_script lib wc) wc"
  obtain ib wd where r: "word_boundary_rule (prev_prev_WB_type st) (prev_WB_type st) WB
      (prev_WB_i st + 1 = int (length seen)) = (ib, wd)"
    by fastforce
  have p: "0 \<le> prev_WB_i st \<and> prev_WB_i st < int (length (gb_attrs st))" if wd
    using word_boundary_rule_withdraws [of "prev_prev_WB_type st" "prev_WB_type st" WB
      "prev_WB_i st + 1 = int (length seen)"] r st(1) that
    by (simp add: gb_in_defs)
  show ?thesis
    using st gb_in_idx [OF st(1)] r True p
    by (cases wd; cases "WB = WB_ExtendFormat")
      (simp_all add: word_boundary_phase_def WB_def [symmetric] Let_def first_inv_def marks2_def
        boundary_ok_def gb_in_defs)
next
  case False
  with st gb_in_idx [OF st(1)] show ?thesis
    by (simp add: word_boundary_phase_def first_inv_def marks2_def boundary_ok_def)
qed

lemma resolve_prev_in_table:
  assumes "p < 36" and "p \<noteq> G_UNICODE_BREAK_SPACE"
  shows "resolve_prev_break_type p \<in> {G_UNICODE_BREAK_MANDATORY, G_UNICODE_BREAK_LINE_FEED,
      G_UNICODE_BREAK_NEXT_LINE, G_UNICODE_BREAK_CARRIAGE_RETURN, G_UNICODE_BREAK_CONTINGENT,
      G_UNICODE_BREAK_SURROGATE} \<or> IN_BREAK_TABLE (resolve_prev_break_type p)"
proof -
  have "IN_BREAK_TABLE G_UNICODE_BREAK_IDEOGRAPHIC" "IN_BREAK_TABLE G_UNICODE_BREAK_ALPHABETIC"
    by code_simp+
  then show ?thesis
    using in_table_or_off [OF assms(1)] assms(2)
    by (auto simp: resolve_prev_break_type_def off_table_def)
qed

lemma resolve_prev_range:
  "p < 36 \<Longrightarrow> p \<noteq> G_UNICODE_BREAK_SPACE \<Longrightarrow>
     resolve_prev_break_type p < 36 \<and> resolve_prev_break_type p \<noteq> G_UNICODE_BREAK_SPACE"
  by (simp add: resolve_prev_break_type_def)

lemma break_op_in_table_ok:
  assumes "IN_BREAK_TABLE p" and "b < 36"
  shows "yields (break_op_in_table p b h) (\<lambda>(brk, b'). brk \<noteq> BREAK_ALREADY_HANDLED \<and> b' < 36)"
proof -
  have a: "IN_BREAK_TABLE G_UNICODE_BREAK_ALPHABETIC" by code_simp
  obtain o1 where o1: "BREAK_OP p G_UNICODE_BREAK_ALPHABETIC = Inr o1" "o1 \<noteq> BREAK_ALREADY_HANDLED"
    using BREAK_OP_total [OF assms(1) a] .
  show ?thesis
  proof (cases "IN_BREAK_TABLE b")
    case True
    then obtain o2 where "BREAK_OP p b = Inr o2" "o2 \<noteq> BREAK_ALREADY_HANDLED"
      using BREAK_OP_total [OF assms(1)] by blast
    with o1 assms(2) True show ?thesis by (simp add: break_op_in_table_def)
  next
    case False
    with in_table_or_off [OF assms(2)] have "off_table b" by blast
    with o1 assms(2) show ?thesis by (auto simp: break_op_in_table_def off_table_def)
  qed
qed

lemma break_op_at_ok:
  assumes "p < 36" and "p \<noteq> G_UNICODE_BREAK_SPACE" and "b < 36"
  shows "yields (break_op_at wc (resolve_prev_break_type p) b h)
    (\<lambda>(brk, b', m). (m \<longrightarrow> brk = BREAK_ALREADY_HANDLED \<and> p \<noteq> G_UNICODE_BREAK_UNKNOWN) \<and> b' < 36)"
proof -
  define r where "r = resolve_prev_break_type p"
  have u: "p = G_UNICODE_BREAK_UNKNOWN \<Longrightarrow> r = G_UNICODE_BREAK_ALPHABETIC"
    by (simp add: r_def resolve_prev_break_type_def IS_JAMO_def)
  show ?thesis
  proof (cases "IN_BREAK_TABLE r")
    case True
    from break_op_in_table_ok [OF this assms(3), of h] True u assms(3)
    show ?thesis
      unfolding r_def [symmetric] by (auto simp: break_op_at_def elim!: yields_mono)
  next
    case False
    with resolve_prev_in_table [OF assms(1,2)] u assms(3) show ?thesis
      unfolding r_def [symmetric] by (auto simp: break_op_at_def)
  qed
qed

lemma marks2_line [simp]:
  "marks2 lib seen wc (apply_break_op brk m s a) = marks2 lib seen wc a"
  "marks2 lib seen wc (a\<lparr>is_char_break := x, is_line_break := y, is_mandatory_break := z\<rparr>) =
     marks2 lib seen wc a"
  by (auto simp: apply_break_op_def Let_def marks_defs attr_oks split: BreakOpportunity.splits)

lemma apply_break_op_line_ok:
  "m \<longrightarrow> brk = BREAK_ALREADY_HANDLED \<and> seen \<noteq> [] \<Longrightarrow> is_cursor_position a \<Longrightarrow>
     \<not> is_line_break a \<Longrightarrow> \<not> is_mandatory_break a \<Longrightarrow> line_ok seen (apply_break_op brk m s a)"
  by (auto simp: apply_break_op_def Let_def line_ok_def split: BreakOpportunity.splits)

lemma gb_in_prev_break [simp]:
  "gb_in lib seen st \<Longrightarrow> b < 36 \<Longrightarrow> b \<noteq> G_UNICODE_BREAK_SPACE \<Longrightarrow>
     gb_in lib seen (st\<lparr>prev_break_type := b\<rparr>)"
  by (simp add: gb_in_defs)

lemma remember_break_type_simps [simp]:
  "gb_in lib seen st \<Longrightarrow> b < 36 \<Longrightarrow> gb_in lib seen (remember_break_type b jamo st)"
  "prev_GB_type (remember_break_type b jamo st) = prev_GB_type st"
  "gb_attrs (remember_break_type b jamo st) = gb_attrs st"
  by (simp_all add: remember_break_type_def gb_in_defs)

lemma line_break_at_ok:
  assumes st: "gb_in lib seen st" "first_inv seen st" "gb_rel lib wc (prev_GB_type st)"
    "marks2 lib seen wc (attr_now seen st)"
    and bt: "bt < 36" and now: "is_cursor_position (attr_now seen st)"
      "\<not> is_line_break (attr_now seen st)" "\<not> is_mandatory_break (attr_now seen st)"
  shows "yields (line_break_at wc bt h st) (\<lambda>(b, st'). gb_in lib seen st' \<and> b < 36 \<and>
    gb_rel lib wc (prev_GB_type st') \<and> marks3 lib seen wc (attr_now seen st'))"
proof -
  define b where "b = (if bt = G_UNICODE_BREAK_SPACE \<and>
    next_break_type st = G_UNICODE_BREAK_COMBINING_MARK then G_UNICODE_BREAK_IDEOGRAPHIC else bt)"
  have p: "prev_break_type st < 36" "prev_break_type st \<noteq> G_UNICODE_BREAK_SPACE"
    using st(1) by (simp_all add: gb_in_defs)
  have "b < 36" using bt by (simp add: b_def)
  from break_op_at_ok [OF p this, of wc h] obtain brk b' m where
    brk: "break_op_at wc (resolve_prev_break_type (prev_break_type st)) b h = Inr (brk, b', m)"
    "m \<longrightarrow> brk = BREAK_ALREADY_HANDLED \<and> seen \<noteq> []" "b' < 36"
    using st(2) by (auto simp: first_inv_def elim!: yieldsE)
  define st1 where "st1 = st\<lparr>prev_break_type := resolve_prev_break_type (prev_break_type st)\<rparr>"
  have "gb_in lib seen st1" "gb_attrs st1 = gb_attrs st" "prev_GB_type st1 = prev_GB_type st"
    using st(1) resolve_prev_range [OF p] by (simp_all add: st1_def)
  then show ?thesis
    unfolding line_break_at_def Let_def b_def [symmetric] st1_def [symmetric] brk(1)
    using apply_break_op_line_ok [OF brk(2) now] brk(3) st gb_in_idx [of lib seen st1]
    by (simp add: marks3_def)
qed

lemma line_break_phase_ok:
  assumes st: "gb_in lib seen st" "first_inv seen st" "gb_rel lib wc (prev_GB_type st)"
    "marks2 lib seen wc (attr_now seen st)" and bt: "bt < 36"
  shows "yields (line_break_phase wc bt jamo h st) (\<lambda>st'. gb_in lib seen st' \<and>
    gb_rel lib wc (prev_GB_type st') \<and> marks3 lib seen wc (attr_now seen st'))"
proof -
  note i = gb_in_idx [OF st(1)]
  define st1 where "st1 = st\<lparr>gb_attrs := (gb_attrs st)[length seen := (attr_now seen st)
    \<lparr>is_char_break := False, is_line_break := False, is_mandatory_break := False\<rparr>]\<rparr>"
  have st1: "gb_in lib seen st1" "first_inv seen st1" "gb_rel lib wc (prev_GB_type st1)"
    "marks2 lib seen wc (attr_now seen st1)" "\<not> is_line_break (attr_now seen st1)"
    "\<not> is_mandatory_break (attr_now seen st1)" "\<not> is_char_break (attr_now seen st1)"
    using st i by (simp_all add: st1_def first_inv_def)
  have "yields (if is_cursor_position (attr_now seen st1) then line_break_at wc bt h st1
      else Inr (bt, st1)) (\<lambda>(b, st'). gb_in lib seen st' \<and> b < 36 \<and>
    gb_rel lib wc (prev_GB_type st') \<and> marks3 lib seen wc (attr_now seen st'))"
    using line_break_at_ok [OF st1(1-4) bt _ st1(5,6), of h] st1 bt
    by (simp add: marks3_def line_ok_def)
  moreover have "prev_break_type st \<noteq> G_UNICODE_BREAK_SPACE" using st(1) by (simp add: gb_in_defs)
  ultimately show ?thesis
    using i gb_in_idx [OF st1(1)]
    by (auto simp: line_break_phase_def st1_def [symmetric] elim!: yields_mono)
qed

lemma marks3_word [simp]:
  "marks3 lib seen wc (a\<lparr>is_word_start := x\<rparr>) = marks3 lib seen wc a"
  "marks3 lib seen wc (a\<lparr>is_word_end := x\<rparr>) = marks3 lib seen wc a"
  by (simp_all add: marks_defs attr_oks)

lemma word_phase_ok:
  assumes "gb_in lib seen st" and "gb_rel lib wc (prev_GB_type st)"
    and "marks3 lib seen wc (attr_now seen st)"
  shows "yields (word_phase (g_unichar_type lib wc) wc st) (\<lambda>st'. gb_in lib seen st' \<and>
    gb_rel lib wc (prev_GB_type st') \<and> marks4 lib seen wc (attr_now seen st'))"
  using assms gb_in_idx [OF assms(1)]
  by (simp add: word_phase_def marks4_def word_ok_def)

text \<open>What the sentence machine keeps from its start, where no sentence starts at the position.\<close>

definition gb_sent :: "unicode_lib \<Rightarrow> nat list \<Rightarrow> nat \<Rightarrow> gb_state \<Rightarrow> bool" where
  "gb_sent lib seen wc st \<longleftrightarrow> gb_in lib seen st \<and> gb_rel lib wc (prev_GB_type st) \<and>
     attr_ok lib seen wc (attr_now seen st)"

lemma gb_sent_idx: "gb_sent lib seen wc st \<Longrightarrow> idx st = length seen \<and> length seen < length (gb_attrs st)"
  using gb_in_idx unfolding gb_sent_def by blast

text \<open>Only the three states after a full stop rely on the remembered positions.\<close>

definition free_state :: "SentenceState \<Rightarrow> bool" where
  "free_state s \<longleftrightarrow> s \<noteq> STATE_SENTENCE_POST_DOT_SPACE \<and> s \<noteq> STATE_SENTENCE_POST_DOT_OPEN \<and>
     s \<noteq> STATE_SENTENCE_POST_DOT_SEP"

lemma gb_sent_state [simp]: "gb_sent lib seen wc st \<Longrightarrow> free_state s \<Longrightarrow>
    gb_sent lib seen wc (st\<lparr>sentence_state := s\<rparr>)"
  by (simp add: gb_sent_def gb_in_defs free_state_def)

lemma gb_sent_write_i:
  assumes "gb_sent lib seen wc st" and "attr_ok lib seen wc a"
  shows "gb_sent lib seen wc (st\<lparr>gb_attrs := (gb_attrs st)[length seen := a]\<rparr>)"
  using assms gb_sent_idx [OF assms(1)] by (simp add: gb_sent_def)

lemma gb_sent_attr_ok: "gb_sent lib seen wc st \<Longrightarrow> attr_ok lib seen wc (attr_now seen st)"
  by (simp add: gb_sent_def)

lemma gb_sent_writes [simp]:
  assumes "gb_sent lib seen wc st" and "attrs = gb_attrs st"
  shows "gb_sent lib seen wc (st\<lparr>gb_attrs := attrs
      [length seen := (attrs ! length seen)\<lparr>is_sentence_end := x\<rparr>]\<rparr>)"
    and "y \<or> line_separator (g_unichar_type lib wc) \<Longrightarrow> gb_sent lib seen wc (st\<lparr>gb_attrs := attrs
      [length seen := (attrs ! length seen)\<lparr>is_sentence_boundary := y\<rparr>]\<rparr>)"
    and "y \<or> line_separator (g_unichar_type lib wc) \<Longrightarrow> gb_sent lib seen wc (st\<lparr>gb_attrs := attrs
      [length seen := (attrs ! length seen)\<lparr>is_sentence_end := x, is_sentence_boundary := y\<rparr>]\<rparr>)"
    and "\<not> separator_type (g_unichar_type lib wc) \<Longrightarrow>
      g_unichar_type lib wc \<noteq> G_UNICODE_SPACE_SEPARATOR \<Longrightarrow>
      gb_sent lib seen wc (st\<lparr>gb_attrs := attrs
        [length seen := (attrs ! length seen)\<lparr>is_sentence_start := True\<rparr>]\<rparr>)"
  using gb_sent_attr_ok [OF assms(1)]
  by (simp_all add: assms(2) gb_sent_write_i [OF assms(1)] attr_ok_late_writes)
    (intro gb_sent_write_i [OF assms(1)], simp add: marks_defs attr_oks)

lemma yields_gb_sent [simp]:
  "gb_sent lib seen wc st \<Longrightarrow> yields (set_attr_i f st) Q \<longleftrightarrow>
     Q (st\<lparr>gb_attrs := (gb_attrs st)[length seen := f (attr_now seen st)]\<rparr>)"
  "gb_sent lib seen wc st \<Longrightarrow> yields (attr_i st) R \<longleftrightarrow> R (attr_now seen st)"
  using gb_sent_idx [of lib seen wc st] by simp_all

lemma MAYBE_START_NEW_SENTENCE_ok [simp]:
  assumes "gb_sent lib seen wc st"
  shows "yields (MAYBE_START_NEW_SENTENCE (g_unichar_type lib wc) st) (gb_sent lib seen wc)"
proof -
  have "gb_sent lib seen wc (st\<lparr>sentence_state := STATE_SENTENCE_BODY\<rparr>)"
    "gb_sent lib seen wc (st\<lparr>sentence_state := STATE_SENTENCE_OUTSIDE\<rparr>)"
    using assms by (simp_all add: free_state_def)
  then show ?thesis
    unfolding MAYBE_START_NEW_SENTENCE_def
    by (simp add: yields_gb_sent(1) [of lib seen wc])
qed

lemma sentence_cases_free:
  assumes st: "gb_sent lib seen wc st"
  shows "yields (sentence_outside (g_unichar_type lib wc) st) (gb_sent lib seen wc)"
    and "yields (sentence_body (g_unichar_type lib wc) wc st) (gb_sent lib seen wc)"
    and "yields (end_sentence (g_unichar_type lib wc) st) (gb_sent lib seen wc)"
    and "yields (sentence_post_term_space (g_unichar_type lib wc) st) (gb_sent lib seen wc)"
    and "yields (forced_break wc st) (gb_sent lib seen wc)"
    and "yields (not_sentence_dot (g_unichar_type lib wc) st) (gb_sent lib seen wc)"
  using st gb_sent_state [OF st]
  by (auto simp: sentence_outside_def sentence_body_def end_sentence_def
      sentence_post_term_space_def forced_break_def not_sentence_dot_def free_state_def
      yields_gb_sent [of lib seen wc])

lemma sentence_cases_term:
  assumes st: "gb_sent lib seen wc st"
  shows "yields (sentence_term (g_unichar_type lib wc) wc st) (gb_sent lib seen wc)"
    and "yields (sentence_post_term_close (g_unichar_type lib wc) wc st) (gb_sent lib seen wc)"
    and "yields (sentence_post_term_sep (g_unichar_type lib wc) wc st) (gb_sent lib seen wc)"
proof -
  have s: "gb_sent lib seen wc (st\<lparr>sentence_state := STATE_SENTENCE_POST_TERM_CLOSE\<rparr>)"
    "gb_sent lib seen wc (st\<lparr>sentence_state := STATE_SENTENCE_POST_TERM_SPACE\<rparr>)"
    "gb_sent lib seen wc (st\<lparr>sentence_state := STATE_SENTENCE_POST_TERM_SEP\<rparr>)"
    using st by (simp_all add: free_state_def)
  show "yields (sentence_term (g_unichar_type lib wc) wc st) (gb_sent lib seen wc)"
    and "yields (sentence_post_term_close (g_unichar_type lib wc) wc st) (gb_sent lib seen wc)"
    using st s sentence_cases_free(3) [OF st]
    by (auto simp: sentence_term_def sentence_post_term_close_def yields_gb_sent [of lib seen wc])
  show "yields (sentence_post_term_sep (g_unichar_type lib wc) wc st) (gb_sent lib seen wc)"
    unfolding sentence_post_term_sep_def yields_bind
    by (rule yields_mono [OF sentence_cases_free(5) [OF st]]) simp
qed

lemma gb_sent_bounds:
  "gb_sent lib seen wc st \<Longrightarrow> possible_sentence_end st < int (length (gb_attrs st)) \<and>
     possible_sentence_boundary st < int (length (gb_attrs st))"
  by (auto simp: gb_sent_def gb_in_defs)

lemma attr_ok_sentence:
  "attr_ok lib before wc (attrs ! k) \<Longrightarrow>
     attr_ok lib before wc (attrs[j := (attrs ! j)\<lparr>is_sentence_end := x\<rparr>] ! k)"
  "attr_ok lib before wc (attrs ! k) \<Longrightarrow>
     attr_ok lib before wc (attrs[j := (attrs ! j)\<lparr>is_sentence_boundary := True\<rparr>] ! k)"
  by (cases "k = j"; cases "j < length attrs"; simp add: attr_ok_late_writes list_update_beyond)+

lemma gb_sent_late_writes [simp]:
  assumes "gb_sent lib seen wc st" and "attrs = gb_attrs st"
  shows "gb_sent lib seen wc (st\<lparr>gb_attrs := attrs[j := (attrs ! j)\<lparr>is_sentence_end := x\<rparr>]\<rparr>)"
    and "gb_sent lib seen wc (st\<lparr>gb_attrs := attrs[j := (attrs ! j)\<lparr>is_sentence_boundary := True\<rparr>]\<rparr>)"
  using assms by (simp_all add: gb_sent_def gb_in_defs attr_ok_sentence)

lemma gb_sent_forget [simp]:
  "gb_sent lib seen wc st \<Longrightarrow> free_state (sentence_state st) \<Longrightarrow> gb_sent lib seen wc
     (st\<lparr>possible_sentence_end := -1, possible_sentence_boundary := -1\<rparr>)"
  by (simp add: gb_sent_def gb_in_defs free_state_def)

lemma MAYBE_START_forgets_state:
  "MAYBE_START_NEW_SENTENCE ty (st\<lparr>sentence_state := s\<rparr>) = MAYBE_START_NEW_SENTENCE ty st"
  by (simp add: MAYBE_START_NEW_SENTENCE_def)

lemma end_possible_sentence_ok:
  assumes "gb_sent lib seen wc st" and "0 \<le> possible_sentence_end st"
    and "0 \<le> possible_sentence_boundary st"
  shows "yields (end_possible_sentence (g_unichar_type lib wc) st) (gb_sent lib seen wc)"
proof -
  define st1 where "st1 = st\<lparr>gb_attrs := (gb_attrs st)[nat (possible_sentence_boundary st) :=
    (gb_attrs st ! nat (possible_sentence_boundary st))\<lparr>is_sentence_boundary := True\<rparr>]\<rparr>"
  define st2 where "st2 = st1\<lparr>gb_attrs := (gb_attrs st1)[nat (possible_sentence_end st) :=
    (gb_attrs st1 ! nat (possible_sentence_end st))\<lparr>is_sentence_end := True\<rparr>]\<rparr>"
  have 1: "gb_sent lib seen wc st1" using assms(1) by (simp add: st1_def)
  then have "gb_sent lib seen wc st2" by (simp add: st2_def)
  then have "gb_sent lib seen wc (st2\<lparr>possible_sentence_end := -1, possible_sentence_boundary := -1,
      sentence_state := STATE_SENTENCE_OUTSIDE\<rparr>)"
    by (simp add: gb_sent_def gb_in_defs)
  from MAYBE_START_NEW_SENTENCE_ok [OF this]
  have "yields (MAYBE_START_NEW_SENTENCE (g_unichar_type lib wc)
      (st2\<lparr>possible_sentence_end := -1, possible_sentence_boundary := -1\<rparr>)) (gb_sent lib seen wc)"
    by (simp only: MAYBE_START_forgets_state)
  moreover have "possible_sentence_end st1 = possible_sentence_end st" by (simp add: st1_def)
  ultimately show ?thesis
    using assms gb_sent_bounds [OF assms(1)] gb_sent_bounds [OF 1]
    by (simp add: end_possible_sentence_def st1_def [symmetric] st2_def [symmetric])
qed

lemma sentence_cases_dot:
  assumes st: "gb_sent lib seen wc st"
  shows "yields (sentence_dot (g_unichar_type lib wc) st) (gb_sent lib seen wc)"
    and "yields (sentence_post_dot_close (g_unichar_type lib wc) st) (gb_sent lib seen wc)"
proof -
  have "gb_sent lib seen wc (st\<lparr>sentence_state := STATE_SENTENCE_POST_DOT_CLOSE\<rparr>)"
    "gb_sent lib seen wc (st\<lparr>possible_sentence_end := int (idx st),
       sentence_state := STATE_SENTENCE_POST_DOT_SPACE\<rparr>)"
    using st by (simp_all add: free_state_def) (simp add: gb_sent_def gb_in_defs)
  then show "yields (sentence_dot (g_unichar_type lib wc) st) (gb_sent lib seen wc)"
    and "yields (sentence_post_dot_close (g_unichar_type lib wc) st) (gb_sent lib seen wc)"
    using sentence_cases_free(6) [OF st]
    by (auto simp: sentence_dot_def sentence_post_dot_close_def)
qed

lemma sentence_cases_after_dot:
  assumes st: "gb_sent lib seen wc st"
  shows "sentence_state st = STATE_SENTENCE_POST_DOT_SPACE \<Longrightarrow>
      yields (sentence_post_dot_space (g_unichar_type lib wc) st) (gb_sent lib seen wc)"
    and "sentence_state st = STATE_SENTENCE_POST_DOT_OPEN \<Longrightarrow>
      yields (sentence_post_dot_open (g_unichar_type lib wc) st) (gb_sent lib seen wc)"
proof -
  define st1 where "st1 = st\<lparr>possible_sentence_boundary := int (idx st)\<rparr>"
  have 1: "gb_sent lib seen wc st1" "gb_sent lib seen wc (st1\<lparr>sentence_state := STATE_SENTENCE_BODY\<rparr>)"
    using st by (simp_all add: st1_def gb_sent_def gb_in_defs)
  have p: "0 \<le> possible_sentence_boundary st1" "possible_sentence_end st1 = possible_sentence_end st"
    by (simp_all add: st1_def)
  {
    assume s: "sentence_state st = STATE_SENTENCE_POST_DOT_SPACE"
    then have e: "0 \<le> possible_sentence_end st" using st by (simp add: gb_sent_def gb_in_defs)
    then have "gb_sent lib seen wc (st1\<lparr>sentence_state := STATE_SENTENCE_POST_DOT_OPEN\<rparr>)"
      using st by (simp add: st1_def gb_sent_def gb_in_defs)
    then show "yields (sentence_post_dot_space (g_unichar_type lib wc) st) (gb_sent lib seen wc)"
      using 1 e p end_possible_sentence_ok [OF 1(1)]
      by (auto simp: sentence_post_dot_space_def Let_def st1_def [symmetric])
  next
    assume s: "sentence_state st = STATE_SENTENCE_POST_DOT_OPEN"
    then have "0 \<le> possible_sentence_end st" "0 \<le> possible_sentence_boundary st"
      using st by (simp_all add: gb_sent_def gb_in_defs)
    then show "yields (sentence_post_dot_open (g_unichar_type lib wc) st) (gb_sent lib seen wc)"
      using st end_possible_sentence_ok [OF st] gb_sent_state [OF st, of STATE_SENTENCE_BODY]
      by (auto simp: sentence_post_dot_open_def free_state_def)
  }
qed

lemma marks4_sentence:
  "marks4 lib seen wc (a\<lparr>is_sentence_start := x, is_sentence_end := y, is_sentence_boundary := z\<rparr>) =
     marks4 lib seen wc a"
  by (simp add: marks_defs attr_oks)

lemma separator_break_ok:
  "(seen \<noteq> [] \<Longrightarrow> ty = g_unichar_type lib (last seen)) \<Longrightarrow>
     b = separator_break ty (g_unichar_type lib wc) pwc wc nwc \<Longrightarrow>
     separator_ok lib seen wc (a\<lparr>is_sentence_start := x, is_sentence_end := y, is_sentence_boundary := b\<rparr>)"
  by (auto simp: separator_ok_def separator_break_def)

lemma sentence_phase_ok:
  assumes "gb_in lib seen st" and "gb_rel lib wc (prev_GB_type st)"
    and "marks4 lib seen wc (attr_now seen st)"
  shows "yields (sentence_phase (g_unichar_type lib wc) wc st) (gb_sent lib seen wc)"
proof -
  define st1 where "st1 = st\<lparr>gb_attrs := (gb_attrs st)[length seen := (attr_now seen st)
    \<lparr>is_sentence_start := False, is_sentence_end := False, is_sentence_boundary :=
       separator_break (prev_type st) (g_unichar_type lib wc) (prev_wc st) wc (next_wc st)\<rparr>]\<rparr>"
  note i = gb_in_idx [OF assms(1)]
  have prev: "seen \<noteq> [] \<Longrightarrow> prev_type st = g_unichar_type lib (last seen)"
    using assms(1) by (simp add: gb_in_defs)
  have st1: "gb_sent lib seen wc st1"
    using assms i prev
    by (simp add: st1_def gb_sent_def attr_ok_def marks4_sentence sentence_ok_def separator_break_ok [OF prev refl])
  have "sentence_state st1 \<noteq> STATE_SENTENCE_POST_DOT_SEP"
    using assms(1) by (simp add: st1_def gb_in_defs)
  then have "yields (sentence_machine (g_unichar_type lib wc) wc st1) (gb_sent lib seen wc)"
    using sentence_cases_free [OF st1] sentence_cases_term [OF st1] sentence_cases_dot [OF st1]
      sentence_cases_after_dot [OF st1]
    by (cases "sentence_state st1") (simp_all add: sentence_machine_def)
  then show ?thesis
    using i by (simp add: sentence_phase_def st1_def [symmetric])
qed

lemma attrs_ok_snoc:
  assumes "attrs_ok lib seen attrs" and "length seen < length attrs"
    and "attr_ok lib seen wc (attrs ! length seen)"
  shows "attrs_ok lib (seen @ [wc]) attrs"
  using assms by (auto simp: attrs_ok_def less_Suc_eq nth_append)

lemma hangul_only_jamo:
  "makes_hangul_syllable pj (JAMO_TYPE bt) = Inr h \<Longrightarrow> h \<longrightarrow> IS_JAMO bt"
  by (cases "IS_JAMO bt") (simp_all add: makes_hangul_syllable_def JAMO_TYPE_def)

lemma next_char_ok:
  assumes "gb_sent lib seen wc st"
  shows "gb_inv lib (seen @ [wc]) (next_char (g_unichar_type lib wc) wc st) \<and>
    prev_inv lib (seen @ [wc]) (next_char (g_unichar_type lib wc) wc st)"
  using assms attrs_ok_snoc [of lib seen "gb_attrs st" wc]
  by (simp add: gb_sent_def gb_in_defs next_char_def prev_inv_def)

lemma classify_ok:
  assumes "gb_in lib seen st" and "prev_inv lib seen st"
    and bt: "bt = BREAK_TYPE_SAFE (g_unichar_break_type lib wc)"
  shows "yields (classify lib wc bt st) (\<lambda>st'.
    gb_inv lib (seen @ [wc]) st' \<and> prev_inv lib (seen @ [wc]) st')"
proof -
  have b: "bt < 36" by (simp add: bt BREAK_TYPE_SAFE_less)
  obtain h where h: "makes_hangul_syllable (prev_jamo st) (JAMO_TYPE bt) = Inr h"
    using makes_hangul_syllable_total by blast
  note hj = hangul_only_jamo [OF h, unfolded bt]
  from white_phase_ok [OF assms(1), of wc] assms(2) obtain st1 where
    1: "white_phase (g_unichar_type lib wc) wc st = Inr st1" "gb_in lib seen st1"
      "prev_inv lib seen st1" "white_ok lib wc (attr_now seen st1)"
    by (auto elim!: yieldsE)
  from grapheme_phase_ok [OF 1(2-4) hj] obtain g st2 where
    2: "grapheme_phase (g_unichar_type lib wc) wc h st1 = Inr (g, st2)" "gb_in lib seen st2"
      "first_inv seen st2" "gb_rel lib wc (prev_GB_type st2)" "marks1 lib seen wc (attr_now seen st2)"
      "is_cursor_position (attr_now seen st2) = g"
    by (auto elim!: yieldsE)
  from word_boundary_phase_ok [OF 2(2-6), of "g_unichar_type lib wc" bt] obtain st3 where
    3: "word_boundary_phase lib (g_unichar_type lib wc) wc bt g st2 = Inr st3" "gb_in lib seen st3"
      "first_inv seen st3" "gb_rel lib wc (prev_GB_type st3)" "marks2 lib seen wc (attr_now seen st3)"
    by (auto elim!: yieldsE)
  from line_break_phase_ok [OF 3(2-5) b, of "JAMO_TYPE bt" h] obtain st4 where
    4: "line_break_phase wc bt (JAMO_TYPE bt) h st3 = Inr st4" "gb_in lib seen st4"
      "gb_rel lib wc (prev_GB_type st4)" "marks3 lib seen wc (attr_now seen st4)"
    by (auto elim!: yieldsE)
  from word_phase_ok [OF 4(2-4)] obtain st5 where
    5: "word_phase (g_unichar_type lib wc) wc st4 = Inr st5" "gb_in lib seen st5"
      "gb_rel lib wc (prev_GB_type st5)" "marks4 lib seen wc (attr_now seen st5)"
    by (auto elim!: yieldsE)
  from sentence_phase_ok [OF 5(2-4)] obtain st6 where
    6: "sentence_phase (g_unichar_type lib wc) wc st5 = Inr st6" "gb_sent lib seen wc st6"
    by (auto elim!: yieldsE)
  show ?thesis
    unfolding classify_def Let_def h
    using 1(1) 2(1) 3(1) 4(1) 5(1) 6(1) next_char_ok [OF 6(2)] by simp
qed

lemma classify_outside:
  "length (gb_attrs st) \<le> idx st \<Longrightarrow> classify lib wc bt st = Inl OutOfBounds"
  using makes_hangul_syllable_total [of "prev_jamo st" "JAMO_TYPE bt"]
  by (auto simp: classify_def Let_def white_phase_def set_attr_i_outside)

subsection \<open>The characters of the text\<close>

text \<open>
  The characters \<open>g_utf8_next_char\<close> stops at, up to the end of the text or its first zero byte.
\<close>

function text_chars :: "unicode_lib \<Rightarrow> nat list \<Rightarrow> nat \<Rightarrow> nat list" where
  "text_chars lib txt k =
     (if k < length txt \<and> txt ! k \<noteq> 0 \<and> 0 < g_utf8_skip lib (txt ! k)
      then g_utf8_get_char lib (drop k txt) # text_chars lib txt (k + g_utf8_skip lib (txt ! k))
      else [])"
  by pat_completeness auto

termination
  by (relation "measure (\<lambda>(_, txt, k). length txt - k)") auto

declare text_chars.simps [simp del]

text \<open>The characters still to be classified; the last is the separator assumed after the text.\<close>

definition to_read :: "unicode_lib \<Rightarrow> nat list \<Rightarrow> gb_state \<Rightarrow> nat list \<Rightarrow> bool" where
  "to_read lib txt st cs \<longleftrightarrow>
     (if all_done st then cs = []
      else next_break_type st = BREAK_TYPE_SAFE (g_unichar_break_type lib (next_wc st)) \<and>
        (if almost_done st then cs = [PARAGRAPH_SEPARATOR] \<and> next_wc st = PARAGRAPH_SEPARATOR
         else nxt st < length txt \<and> txt ! nxt st \<noteq> 0 \<and>
           next_wc st = g_utf8_get_char lib (drop (nxt st) txt) \<and>
           cs = text_chars lib txt (nxt st) @ [PARAGRAPH_SEPARATOR]))"

lemma gb_at_end_text: "gb_at_end txt (int (length txt)) n = Inr (length txt \<le> n \<or> txt ! n = 0)"
  by (auto simp: gb_at_end_def c_byte_def nth_append)

lemma to_read_Cons:
  assumes "to_read lib txt st cs" and "utf8_skip_positive lib" and "\<not> all_done st"
  obtains cs' where "cs = next_wc st # cs'"
    and "next_break_type st = BREAK_TYPE_SAFE (g_unichar_break_type lib (next_wc st))"
    and "yields (read_next lib txt (int (length txt)) st) (\<lambda>st'. to_read lib txt st' cs' \<and>
      (\<forall>seen. gb_inv lib seen st' = gb_inv lib seen st \<and> prev_inv lib seen st' = prev_inv lib seen st))"
proof (cases "almost_done st")
  case True
  with assms(1,3) show ?thesis
    by (intro that [of "[]"]) (simp_all add: to_read_def read_next_def gb_inv_def gb_invs prev_inv_def)
next
  case False
  define n where "n = nxt st + g_utf8_skip lib (txt ! nxt st)"
  from assms(1,3) False have r: "nxt st < length txt" "txt ! nxt st \<noteq> 0"
    "next_wc st = g_utf8_get_char lib (drop (nxt st) txt)"
    "cs = text_chars lib txt (nxt st) @ [PARAGRAPH_SEPARATOR]"
    "next_break_type st = BREAK_TYPE_SAFE (g_unichar_break_type lib (next_wc st))"
    by (auto simp: to_read_def)
  have skip: "\<And>b. 0 < g_utf8_skip lib b" using assms(2) by (simp add: utf8_skip_positive_def)
  have "cs = next_wc st # text_chars lib txt n @ [PARAGRAPH_SEPARATOR]"
    using r skip by (subst (asm) text_chars.simps) (simp add: n_def)
  moreover have "text_chars lib txt n = []" if "length txt \<le> n \<or> txt ! n = 0"
    using that by (subst text_chars.simps) auto
  moreover have "c_byte txt (nxt st) = Inr (txt ! nxt st)"
    using r(1) by (simp add: c_byte_def nth_append)
  ultimately show ?thesis
    using False assms(3) r(5)
    by (intro that [of "text_chars lib txt n @ [PARAGRAPH_SEPARATOR]"])
      (auto simp: read_next_def Let_def gb_at_end_text n_def [symmetric] to_read_def gb_inv_def gb_invs
        prev_inv_def)
qed

text \<open>An iteration with characters left: it classifies the next one, or leaves the array.\<close>

definition gb_ready :: "unicode_lib \<Rightarrow> nat list \<Rightarrow> nat list \<Rightarrow> nat list \<Rightarrow> gb_state \<Rightarrow> bool" where
  "gb_ready lib txt seen cs st \<longleftrightarrow>
     to_read lib txt st cs \<and> gb_inv lib seen st \<and> prev_inv lib seen st"

lemma genBreaks_step_ok:
  assumes "utf8_skip_positive lib" and st: "gb_ready lib txt seen (c # cs) st"
  shows "if length seen < length (gb_attrs st)
    then yields (genBreaks_step lib txt (int (length txt)) st) (\<lambda>st'.
      gb_ready lib txt (seen @ [c]) cs st' \<and> length (gb_attrs st') = length (gb_attrs st))
    else genBreaks_step lib txt (int (length txt)) st = Inl OutOfBounds"
proof -
  from st have nd: "\<not> all_done st" and r: "to_read lib txt st (c # cs)"
    by (auto simp: to_read_def gb_ready_def)
  obtain cs' where c: "c # cs = next_wc st # cs'"
    and bt: "next_break_type st = BREAK_TYPE_SAFE (g_unichar_break_type lib (next_wc st))"
    and rd: "yields (read_next lib txt (int (length txt)) st) (\<lambda>st'. to_read lib txt st' cs' \<and>
      (\<forall>seen. gb_inv lib seen st' = gb_inv lib seen st \<and> prev_inv lib seen st' = prev_inv lib seen st))"
    using to_read_Cons [OF r assms(1) nd] .
  then obtain st1 where 1: "read_next lib txt (int (length txt)) st = Inr st1"
    "to_read lib txt st1 cs" "gb_inv lib seen st1" "prev_inv lib seen st1"
    using st by (auto simp: gb_ready_def elim!: yieldsE)
  have a: "gb_attrs st1 = gb_attrs st" "idx st1 = length seen"
    using read_next_kept [OF 1(1)] 1(3) by (simp_all add: gb_inv_def)
  show ?thesis
  proof (cases "length seen < length (gb_attrs st)")
    case True
    with 1 a have "gb_in lib seen st1" by (simp add: gb_in_def)
    from classify_ok [OF this 1(4) bt] c obtain st2 where
      2: "classify lib c (next_break_type st) st1 = Inr st2" "gb_inv lib (seen @ [c]) st2"
        "prev_inv lib (seen @ [c]) st2"
      by (auto elim!: yieldsE)
    from classify_advances [OF 2(1)] 1(2) have "to_read lib txt st2 cs"
      by (simp add: to_read_def)
    with True 1 2 a c classify_advances [OF 2(1)] show ?thesis
      by (simp add: genBreaks_step_def gb_ready_def)
  next
    case False
    with 1 a show ?thesis by (simp add: genBreaks_step_def classify_outside)
  qed
qed

lemma genBreaks_loop_ok:
  assumes "utf8_skip_positive lib"
  shows "gb_ready lib txt seen cs st \<Longrightarrow>
    if length seen + length cs \<le> length (gb_attrs st)
    then yields (genBreaks_loop lib txt (int (length txt)) st) (\<lambda>st'.
      gb_inv lib (seen @ cs) st' \<and> length (gb_attrs st') = length (gb_attrs st))
    else genBreaks_loop lib txt (int (length txt)) st = Inl OutOfBounds"
proof (induction cs arbitrary: st seen)
  case Nil
  then have "all_done st"
    using to_read_Cons [OF _ assms, of "txt" st "[]"] by (auto simp: gb_ready_def)
  with Nil show ?case by (simp add: genBreaks_loop.simps gb_ready_def gb_inv_def attrs_ok_def)
next
  case (Cons c cs)
  have "\<not> all_done st" using Cons.prems by (auto simp: to_read_def gb_ready_def)
  then have l: "genBreaks_loop lib txt (int (length txt)) st =
      bind_res (genBreaks_step lib txt (int (length txt)) st)
        (genBreaks_loop lib txt (int (length txt)))"
    by (subst genBreaks_loop.simps) simp
  show ?case
  proof (cases "length seen < length (gb_attrs st)")
    case True
    with genBreaks_step_ok [OF assms Cons.prems] obtain st' where
      s: "genBreaks_step lib txt (int (length txt)) st = Inr st'"
      "gb_ready lib txt (seen @ [c]) cs st'" "length (gb_attrs st') = length (gb_attrs st)"
      by (auto elim!: yieldsE)
    from Cons.IH [OF s(2)] s show ?thesis
      by (cases "Suc (length seen + length cs) \<le> length (gb_attrs st)") (simp_all add: l)
  next
    case False
    with genBreaks_step_ok [OF assms Cons.prems] show ?thesis by (simp add: l)
  qed
qed

lemma genBreaks_init_ready:
  "yields (genBreaks_init lib txt (int (length txt)) attrs) (\<lambda>st. gb_attrs st = attrs \<and>
     gb_ready lib txt [] (text_chars lib txt 0 @ [PARAGRAPH_SEPARATOR]) st)"
proof (cases "txt = [] \<or> txt ! 0 = 0")
  case True
  then have "text_chars lib txt 0 = []" by (subst text_chars.simps) auto
  with True show ?thesis
    by (auto simp: genBreaks_init_def c_byte_def nth_append Let_def gb_ready_def to_read_def
      gb_inv_def gb_invs prev_inv_def attrs_ok_def)
next
  case False
  then show ?thesis
    by (auto simp: genBreaks_init_def c_byte_def nth_append Let_def gb_ready_def to_read_def
      gb_inv_def gb_invs prev_inv_def attrs_ok_def)
qed

subsection \<open>The ends\<close>

definition end_attr :: "nat \<Rightarrow> nat \<Rightarrow> UCharBreakAttr \<Rightarrow> UCharBreakAttr" where
  "end_attr n j a =
     (if j = 0 \<or> j = n
      then a\<lparr>is_cursor_position := True, is_word_boundary := True, is_line_break := (j \<noteq> 0)\<rparr>
      else a)"

lemma genBreaks_ends_ok:
  assumes "idx st = Suc n" and "n < length (gb_attrs st)"
  shows "yields (genBreaks_ends st) (\<lambda>out. length out = length (gb_attrs st) \<and>
    (\<forall>j<length (gb_attrs st). out ! j = end_attr n j (gb_attrs st ! j)))"
proof -
  have "gb_attrs st \<noteq> []" using assms by auto
  with assms show ?thesis
    by (auto simp: genBreaks_ends_def Let_def end_attr_def nth_list_update)
qed

text \<open>Everything at once.\<close>

lemma genBreaks_spec:
  assumes "utf8_skip_positive lib" and "attrs \<noteq> []"
  shows "if length (text_chars lib txt 0) < length attrs
    then yields (genBreaks lib txt (int (length txt)) attrs) (\<lambda>out. length out = length attrs \<and>
      (\<exists>a. attrs_ok lib (text_chars lib txt 0 @ [PARAGRAPH_SEPARATOR]) a \<and> length a = length attrs \<and>
        (\<forall>j<length attrs. out ! j = end_attr (length (text_chars lib txt 0)) j (a ! j))))
    else genBreaks lib txt (int (length txt)) attrs = Inl OutOfBounds"
proof -
  define cs where "cs = text_chars lib txt 0"
  from genBreaks_init_ready [of lib "txt" attrs] obtain st where
    i: "genBreaks_init lib txt (int (length txt)) attrs = Inr st" "gb_attrs st = attrs"
      "gb_ready lib txt [] (cs @ [PARAGRAPH_SEPARATOR]) st"
    by (auto simp: cs_def elim!: yieldsE)
  note l = genBreaks_loop_ok [OF assms(1) i(3)]
  show ?thesis
    unfolding cs_def [symmetric]
  proof (cases "length cs < length attrs")
    case True
    with l i obtain st' where
      s: "genBreaks_loop lib txt (int (length txt)) st = Inr st'"
      "gb_inv lib (cs @ [PARAGRAPH_SEPARATOR]) st'" "length (gb_attrs st') = length attrs"
      by (auto elim!: yieldsE)
    with genBreaks_ends_ok [of st' "length cs"] True i assms(2) obtain out where
      "genBreaks lib txt (int (length txt)) attrs = Inr out" "length out = length attrs"
      "\<forall>j<length attrs. out ! j = end_attr (length cs) j (gb_attrs st' ! j)"
      by (auto simp: genBreaks_def gb_inv_def elim!: yieldsE)
    with s True show "if length cs < length attrs
      then yields (genBreaks lib txt (int (length txt)) attrs) (\<lambda>out. length out = length attrs \<and>
        (\<exists>a. attrs_ok lib (cs @ [PARAGRAPH_SEPARATOR]) a \<and> length a = length attrs \<and>
          (\<forall>j<length attrs. out ! j = end_attr (length cs) j (a ! j))))
      else genBreaks lib txt (int (length txt)) attrs = Inl OutOfBounds"
      by (auto simp: gb_inv_def intro!: exI [of _ "gb_attrs st'"])
  qed (use l i assms(2) in \<open>simp add: genBreaks_def\<close>)
qed

section \<open>Properties\<close>

lemma genBreaks_attr_at:
  assumes "utf8_skip_positive lib" and "attrs \<noteq> []"
    and "genBreaks lib txt (int (length txt)) attrs = Inr out"
    and "cs = text_chars lib txt 0" and "j \<le> length cs"
  obtains a where "out ! j = end_attr (length cs) j a"
    and "attr_ok lib (take j (cs @ [PARAGRAPH_SEPARATOR])) ((cs @ [PARAGRAPH_SEPARATOR]) ! j) a"
proof -
  note s = genBreaks_spec [OF assms(1,2), of "txt", folded assms(4)]
  show ?thesis
  proof (cases "length cs < length attrs")
    case True
    with s assms(3) obtain a where a: "attrs_ok lib (cs @ [PARAGRAPH_SEPARATOR]) a"
      "\<forall>j<length attrs. out ! j = end_attr (length cs) j (a ! j)"
      by auto
    from a True assms(5) show ?thesis
      by (intro that [of "a ! j"]) (simp_all add: attrs_ok_def del: take_append)
  qed (use s assms(3) in simp)
qed

text \<open>
  C8. \<open>genBreaks\<close> never fails an assertion and never runs on: with an attribute for every character
  and one for the end of the text it returns and keeps the size of the array; with fewer it writes
  outside the array.
\<close>

theorem genBreaks_array_bound:
  assumes "utf8_skip_positive lib" and "attrs \<noteq> []"
  shows "if length (text_chars lib txt 0) < length attrs
    then \<exists>out. genBreaks lib txt (int (length txt)) attrs = Inr out \<and> length out = length attrs
    else genBreaks lib txt (int (length txt)) attrs = Inl OutOfBounds"
  using genBreaks_spec [OF assms, of "txt"] by (auto elim!: yieldsE)

theorem genBreaks_array_bound_witness:
  "genBreaks ascii_lib (ascii ''ab'') 2 [zero_attr, zero_attr] = Inl OutOfBounds"
proof -
  have "text_chars ascii_lib (ascii ''ab'') 0 = ascii ''ab''"
    by (simp add: text_chars.simps)
  with genBreaks_array_bound [OF ascii_lib_advances(2), of "[zero_attr, zero_attr]" "ascii ''ab''"]
  show ?thesis by simp
qed

text \<open>
  C7. The attributes of a position agree with one another, at every position of the text and at its
  end: a word boundary and a line break are only where the cursor can be, a mandatory break is a
  line break, no position both starts and ends a word, and a word starts with a letter or a
  number.
\<close>

theorem genBreaks_attrs_consistent:
  assumes "utf8_skip_positive lib" and "attrs \<noteq> []"
    and "genBreaks lib txt (int (length txt)) attrs = Inr out"
    and "j \<le> length (text_chars lib txt 0)"
  shows "(is_word_boundary (out ! j) \<longrightarrow> is_cursor_position (out ! j)) \<and>
    (is_line_break (out ! j) \<longrightarrow> is_cursor_position (out ! j)) \<and>
    (is_char_break (out ! j) \<longrightarrow> is_cursor_position (out ! j)) \<and>
    (is_mandatory_break (out ! j) \<longrightarrow> is_line_break (out ! j)) \<and>
    \<not> (is_word_start (out ! j) \<and> is_word_end (out ! j)) \<and>
    (is_word_start (out ! j) \<longrightarrow>
      letter_or_number (g_unichar_type lib ((text_chars lib txt 0 @ [PARAGRAPH_SEPARATOR]) ! j)))"
proof -
  define cs where "cs = text_chars lib txt 0 @ [PARAGRAPH_SEPARATOR]"
  obtain a where
    o: "out ! j = end_attr (length (text_chars lib txt 0)) j a" and
    a: "attr_ok lib (take j cs) (cs ! j) a"
    using genBreaks_attr_at [OF assms(1-3) refl assms(4)] unfolding cs_def .
  have "letter_type t \<or> number_type t \<Longrightarrow> letter_or_number t" for t
    by (auto simp: letter_type_def number_type_def letter_or_number_def)
  with a show ?thesis
    unfolding o cs_def [symmetric] by (auto simp: end_attr_def marks_defs attr_oks)
qed

theorem genBreaks_attrs_consistent_witness:
  "\<exists>out. genBreaks ascii_lib (ascii ''a'') 1 [zero_attr, zero_attr] = Inr out \<and>
     (is_line_break (out ! 1) \<longrightarrow> is_cursor_position (out ! 1))"
proof -
  have c: "text_chars ascii_lib (ascii ''a'') 0 = ascii ''a''"
    by (simp add: text_chars.simps)
  with genBreaks_spec [OF ascii_lib_advances(2), of "[zero_attr, zero_attr]" "ascii ''a''"]
  obtain out where "genBreaks ascii_lib (ascii ''a'') (int (length (ascii ''a''))) [zero_attr, zero_attr] = Inr out"
    by (auto elim!: yieldsE)
  with genBreaks_attrs_consistent [OF ascii_lib_advances(2) _ this, of 1] c show ?thesis by auto
qed

lemma last_take_nth: "0 < j \<Longrightarrow> j \<le> length xs \<Longrightarrow> last (take j xs) = xs ! (j - 1)"
  by (subst last_conv_nth) auto

text \<open>
  The grapheme clusters of a text without Hangul Jamo, by the general categories of its characters.
  A character is attached to the one before it when it is a mark (spacing, enclosing or non-spacing),
  a zero width joiner or non-joiner, or one of the two halfwidth katakana sound marks. Around
  controls, other format characters, separators, surrogates and two blocks of unassigned code points
  a cluster always ends.
\<close>

definition attached_char :: "unicode_lib \<Rightarrow> nat \<Rightarrow> bool" where
  "attached_char lib c \<longleftrightarrow>
     g_unichar_type lib c \<in> {G_UNICODE_SPACING_MARK, G_UNICODE_ENCLOSING_MARK,
       G_UNICODE_NON_SPACING_MARK} \<or>
     g_unichar_type lib c = G_UNICODE_FORMAT \<and> c \<in> {0x200C, 0x200D} \<or>
     g_unichar_type lib c = G_UNICODE_MODIFIER_LETTER \<and> c \<in> {0xFF9E, 0xFF9F}"

definition isolated_char :: "unicode_lib \<Rightarrow> nat \<Rightarrow> bool" where
  "isolated_char lib c \<longleftrightarrow>
     g_unichar_type lib c \<in> {G_UNICODE_CONTROL, G_UNICODE_LINE_SEPARATOR,
       G_UNICODE_PARAGRAPH_SEPARATOR, G_UNICODE_SURROGATE} \<or>
     g_unichar_type lib c = G_UNICODE_FORMAT \<and> c \<notin> {0x200C, 0x200D} \<or>
     g_unichar_type lib c = G_UNICODE_UNASSIGNED \<and> c \<in> {0xFFF0..0xFFF8} \<union> {0xE0000..0xE0FFF}"

lemma GB_type_of_class:
  "GB_type_of (g_unichar_type lib c) c False = GB_ControlCRLF \<longleftrightarrow> isolated_char lib c"
  "GB_type_of (g_unichar_type lib c) c False \<in> {GB_Extend, GB_SpacingMark} \<longleftrightarrow> attached_char lib c"
  "GB_type_of (g_unichar_type lib c) c False \<notin> {GB_InHangulSyllable, GB_Prepend}"
  by (cases "g_unichar_type lib c"; auto simp: GB_type_of_def isolated_char_def attached_char_def)+

lemma grapheme_boundary_class:
  "grapheme_boundary p c (GB_type_of (g_unichar_type lib p) p False)
       (GB_type_of (g_unichar_type lib c) c False) \<longleftrightarrow>
     \<not> (p = 13 \<and> c = 10) \<and> (isolated_char lib p \<or> isolated_char lib c \<or> \<not> attached_char lib c)"
  using GB_type_of_class [of lib p] GB_type_of_class [of lib c]
  by (auto simp: grapheme_boundary_def)

text \<open>
  C17. The cursor positions of a text without Hangul Jamo are its two ends and every position between
  two characters, except between a carriage return and a line feed and before a character that is
  attached to the one before it, where neither of the two is isolated. These are the rules GB1 to
  GB5, GB9, GB9a and GB10 as the comments of the code number them; the code gives no character the
  class Prepend, so that GB9b never applies.
\<close>

theorem genBreaks_grapheme_boundaries:
  assumes "utf8_skip_positive lib" and "attrs \<noteq> []"
    and "genBreaks lib txt (int (length txt)) attrs = Inr out"
    and "cs = text_chars lib txt 0 @ [PARAGRAPH_SEPARATOR]"
    and "\<forall>c\<in>set cs. \<not> IS_JAMO (BREAK_TYPE_SAFE (g_unichar_break_type lib c))"
    and "j < length cs"
  shows "is_cursor_position (out ! j) \<longleftrightarrow> j = 0 \<or> j = length cs - 1 \<or>
    \<not> (cs ! (j - 1) = 13 \<and> cs ! j = 10) \<and>
    (isolated_char lib (cs ! (j - 1)) \<or> isolated_char lib (cs ! j) \<or> \<not> attached_char lib (cs ! j))"
proof -
  have j: "j \<le> length (text_chars lib txt 0)" "length (text_chars lib txt 0) = length cs - 1"
    using assms(4,6) by simp_all
  obtain a where
    o: "out ! j = end_attr (length cs - 1) j a" and
    a: "attr_ok lib (take j cs) (cs ! j) a"
    using genBreaks_attr_at [OF assms(1-3) refl j(1)] unfolding j(2) assms(4) [symmetric] .
  have g: "gb_rel lib c G \<Longrightarrow> c \<in> set cs \<Longrightarrow> G = GB_type_of (g_unichar_type lib c) c False" for c G
    using assms(5) by (auto simp: gb_rel_def)
  show ?thesis
  proof (cases "j = 0")
    case False
    with assms(6) have "take j cs \<noteq> []" "last (take j cs) = cs ! (j - 1)"
      by (auto simp: last_take_nth)
    with a obtain P G where "gb_rel lib (cs ! (j - 1)) P" "gb_rel lib (cs ! j) G"
      "is_cursor_position a = grapheme_boundary (cs ! (j - 1)) (cs ! j) P G"
      by (auto simp: marks_defs cursor_ok_def)
    with g [of "cs ! (j - 1)" P] g [of "cs ! j" G] assms(6) False
    have "is_cursor_position a \<longleftrightarrow> \<not> (cs ! (j - 1) = 13 \<and> cs ! j = 10) \<and>
      (isolated_char lib (cs ! (j - 1)) \<or> isolated_char lib (cs ! j) \<or> \<not> attached_char lib (cs ! j))"
      by (simp add: grapheme_boundary_class)
    with False show ?thesis by (simp add: o end_attr_def)
  qed (use o in \<open>simp add: end_attr_def\<close>)
qed

lemma ascii_text_chars: "0 \<notin> set txt \<Longrightarrow> text_chars ascii_lib txt k = drop k txt"
proof (induction "length txt - k" arbitrary: k)
  case 0
  then show ?case by (simp add: text_chars.simps)
next
  case (Suc n)
  then have k: "k < length txt" by simp
  have "txt ! k \<noteq> 0" using nth_mem [OF k] Suc.prems by (intro notI) simp
  moreover have "text_chars ascii_lib txt (Suc k) = drop (Suc k) txt"
    using Suc.hyps(1) [of "Suc k"] Suc.hyps(2) Suc.prems by simp
  moreover have "drop k txt = txt ! k # drop (Suc k) txt" using k by (simp add: Cons_nth_drop_Suc)
  ultimately show ?case using k by (subst text_chars.simps) simp
qed

lemma ascii_genBreaks_returns:
  assumes "0 \<notin> set txt"
  obtains out where
    "genBreaks ascii_lib txt (int (length txt)) (replicate (Suc (length txt)) zero_attr) = Inr out"
  using genBreaks_spec [OF ascii_lib_advances(2), of "replicate (Suc (length txt)) zero_attr" "txt"]
    ascii_text_chars [OF assms, of 0]
  by (auto elim!: yieldsE)

text \<open>
  A library that also decodes two-byte sequences and knows the combining diacritical marks, for a text
  with an accent: the letter e, U+0301 in its two bytes, and the letter x.
\<close>

definition accent :: "nat \<Rightarrow> bool" where
  "accent c \<longleftrightarrow> 0x300 \<le> c \<and> c \<le> 0x36F"

definition accent_lib :: unicode_lib where
  "accent_lib = ascii_lib
     \<lparr>g_unichar_type := (\<lambda>c. if accent c then G_UNICODE_NON_SPACING_MARK else ascii_type c),
      g_unichar_break_type :=
        (\<lambda>c. if accent c then G_UNICODE_BREAK_COMBINING_MARK else ascii_break_type c),
      g_utf8_skip := (\<lambda>b. if b < 0xC0 then 1 else 2),
      g_utf8_get_char := (\<lambda>p. if hd p < 0xC0 then hd p else (hd p - 0xC0) * 64 + (p ! 1 - 0x80))\<rparr>"

lemma accent_lib_chars: "text_chars accent_lib [101, 0xCC, 0x81, 120] 0 = [101, 0x301, 120]"
  by (simp add: text_chars.simps accent_lib_def)

theorem genBreaks_grapheme_boundaries_witness:
  "\<exists>out. genBreaks accent_lib [101, 0xCC, 0x81, 120] 4 (replicate 5 zero_attr) = Inr out \<and>
     \<not> is_cursor_position (out ! 1) \<and> is_cursor_position (out ! 2)"
proof -
  let ?t = "[101, 0xCC, 0x81, 120 :: nat]" and ?a = "replicate 5 zero_attr"
  have s: "utf8_skip_positive accent_lib" by (simp add: utf8_skip_positive_def accent_lib_def)
  obtain out where o: "genBreaks accent_lib ?t (int (length ?t)) ?a = Inr out"
    using genBreaks_spec [OF s, of ?a ?t] by (auto simp: accent_lib_chars elim!: yieldsE)
  have jamo: "\<forall>c\<in>set (text_chars accent_lib ?t 0 @ [PARAGRAPH_SEPARATOR]).
      \<not> IS_JAMO (BREAK_TYPE_SAFE (g_unichar_break_type accent_lib c))"
    by (simp add: accent_lib_chars accent_lib_def accent_def IS_JAMO_def BREAK_TYPE_SAFE_def
        ascii_break_type_def)
  note b = genBreaks_grapheme_boundaries [OF s _ o refl jamo, unfolded accent_lib_chars]
  have "\<not> is_cursor_position (out ! 1)" "is_cursor_position (out ! 2)"
    using b [of 1] b [of 2]
    by (simp_all add: attached_char_def isolated_char_def accent_lib_def accent_def ascii_type_def)
  with o show ?thesis by auto
qed

text \<open>
  C31. A line feed after a carriage return inside a text is not separated from it by a cursor position,
  a word boundary, a character break, a line break or a mandatory break.
\<close>

theorem genBreaks_keeps_CRLF:
  assumes "utf8_skip_positive lib" and "attrs \<noteq> []"
    and "genBreaks lib txt (int (length txt)) attrs = Inr out"
    and "Suc j < length (text_chars lib txt 0)"
    and "text_chars lib txt 0 ! j = 13" and "text_chars lib txt 0 ! Suc j = 10"
  shows "\<not> is_cursor_position (out ! Suc j) \<and> \<not> is_word_boundary (out ! Suc j) \<and>
    \<not> is_char_break (out ! Suc j) \<and> \<not> is_line_break (out ! Suc j) \<and> \<not> is_mandatory_break (out ! Suc j)"
proof -
  define cs where "cs = text_chars lib txt 0"
  have j: "Suc j < length cs" "cs ! j = 13" "cs ! Suc j = 10"
    using assms(4-6) by (simp_all add: cs_def)
  then have t: "take (Suc j) (cs @ [PARAGRAPH_SEPARATOR]) = take (Suc j) cs"
    "(cs @ [PARAGRAPH_SEPARATOR]) ! Suc j = 10" "last (take (Suc j) cs) = 13" "take (Suc j) cs \<noteq> []"
    by (auto simp: nth_append last_take_nth)
  have "Suc j \<le> length cs" using j(1) by simp
  then obtain a where
    "out ! Suc j = end_attr (length cs) (Suc j) a" and
    "attr_ok lib (take (Suc j) (cs @ [PARAGRAPH_SEPARATOR])) ((cs @ [PARAGRAPH_SEPARATOR]) ! Suc j) a"
    using genBreaks_attr_at [OF assms(1-3) cs_def] by blast
  with j t show ?thesis
    by (auto simp: end_attr_def marks_defs attr_oks grapheme_boundary_def)
qed

theorem genBreaks_keeps_CRLF_witness:
  "\<exists>out. genBreaks ascii_lib [97, 13, 10, 98] 4 (replicate 5 zero_attr) = Inr out \<and>
     \<not> is_line_break (out ! 2)"
proof -
  define t where "t = [97, 13, 10, 98 :: nat]"
  have z: "0 \<notin> set t" and l: "int (length t) = 4" "Suc (length t) = 5"
    by (simp_all add: t_def)
  obtain out where o: "genBreaks ascii_lib t 4 (replicate 5 zero_attr) = Inr out"
    using ascii_genBreaks_returns [OF z] unfolding l .
  have "\<not> is_line_break (out ! 2)"
    using genBreaks_keeps_CRLF [OF ascii_lib_advances(2) _ o [folded l], of 1]
      ascii_text_chars [OF z, of 0]
    by (simp add: t_def numeral_2_eq_2)
  with o show ?thesis by (auto simp: t_def)
qed



text \<open>
  C32. \<open>is_white\<close> marks exactly the separators and the tab, line feed, form feed and carriage
  return, and, where the library classifies these as control characters, a sentence never starts
  at white space.
\<close>

theorem genBreaks_white_space:
  assumes "utf8_skip_positive lib" and "attrs \<noteq> []"
    and "genBreaks lib txt (int (length txt)) attrs = Inr out"
    and "j < length (text_chars lib txt 0)" and "c = text_chars lib txt 0 ! j"
    and "\<forall>k\<in>set [9, 10, 12, 13]. g_unichar_type lib k = G_UNICODE_CONTROL"
  shows "(is_white (out ! j) \<longleftrightarrow>
      g_unichar_type lib c \<in> {G_UNICODE_SPACE_SEPARATOR, G_UNICODE_LINE_SEPARATOR,
        G_UNICODE_PARAGRAPH_SEPARATOR} \<or> c \<in> {9, 10, 12, 13}) \<and>
    (is_sentence_start (out ! j) \<longrightarrow> \<not> is_white (out ! j))"
proof -
  define cs where "cs = text_chars lib txt 0"
  have j: "j \<le> length cs" "(cs @ [PARAGRAPH_SEPARATOR]) ! j = c"
    using assms(4,5) by (simp_all add: cs_def nth_append)
  obtain a where "out ! j = end_attr (length cs) j a"
    and "attr_ok lib (take j (cs @ [PARAGRAPH_SEPARATOR])) c a"
    using genBreaks_attr_at [OF assms(1-3) cs_def j(1)] unfolding j(2) .
  with assms(6) show ?thesis
    by (auto simp: end_attr_def marks_defs white_ok_def sentence_ok_def white_char_def
        separator_type_def)
qed

theorem genBreaks_white_space_witness:
  "\<exists>out. genBreaks ascii_lib (ascii ''a b'') 3 (replicate 4 zero_attr) = Inr out \<and>
     is_white (out ! 1)"
proof -
  define t where "t = ascii ''a b''"
  have z: "0 \<notin> set t" and l: "int (length t) = 3" "Suc (length t) = 4"
    by (simp_all add: t_def)
  obtain out where o: "genBreaks ascii_lib t 3 (replicate 4 zero_attr) = Inr out"
    using ascii_genBreaks_returns [OF z] unfolding l .
  have "is_white (out ! 1)"
    using genBreaks_white_space [OF ascii_lib_advances(2) _ o [folded l] _ refl, of 1]
      ascii_text_chars [OF z, of 0]
    by (simp add: t_def ascii_type_def)
  with o show ?thesis by (auto simp: t_def)
qed

subsection \<open>The caller\<close>

lemma to_int_small: "int n \<le> INT_MAX \<Longrightarrow> to_int n = int n"
  by (simp add: to_int_def INT_MAX_def)

definition single_bytes :: "unicode_lib \<Rightarrow> nat list \<Rightarrow> nat \<Rightarrow> bool" where
  "single_bytes lib txt k \<longleftrightarrow>
     (\<forall>i. k \<le> i \<and> Suc i < length txt \<longrightarrow> g_utf8_skip lib (txt ! i) = 1)"

lemma single_bytes_step:
  "single_bytes lib txt k \<longleftrightarrow>
     (Suc k < length txt \<longrightarrow> g_utf8_skip lib (txt ! k) = 1) \<and> single_bytes lib txt (Suc k)"
  unfolding single_bytes_def by (metis Suc_leD le_eq_less_or_eq less_eq_Suc_le)

lemma text_chars_length:
  assumes "utf8_skip_positive lib" and "0 \<notin> set txt"
  shows "k < length txt \<Longrightarrow> length (text_chars lib txt k) \<le> length txt - k \<and>
    (length (text_chars lib txt k) = length txt - k \<longleftrightarrow> single_bytes lib txt k)"
proof (induction "length txt - k" arbitrary: k rule: less_induct)
  case less
  define s where "s = g_utf8_skip lib (txt ! k)"
  have s: "0 < s" using assms(1) by (simp add: s_def utf8_skip_positive_def)
  have "txt ! k \<noteq> 0" using nth_mem [OF less.prems] assms(2) by (intro notI) simp
  with s less.prems have e: "length (text_chars lib txt k) = Suc (length (text_chars lib txt (k + s)))"
    by (subst text_chars.simps) (simp add: s_def)
  note b = single_bytes_step [of lib "txt" k, folded s_def]
  show ?case
  proof (cases "k + s < length txt")
    case True
    with less.hyps [of "k + s"] less.prems s have ih:
      "length (text_chars lib txt (k + s)) \<le> length txt - (k + s)"
      "length (text_chars lib txt (k + s)) = length txt - (k + s) \<longleftrightarrow> single_bytes lib txt (k + s)"
      by auto
    show ?thesis
    proof (cases "s = 1")
      case True
      then have "single_bytes lib txt k \<longleftrightarrow> single_bytes lib txt (k + s)" using b by simp
      with ih e True less.prems show ?thesis by auto
    next
      case False
      with b True s have "\<not> single_bytes lib txt k" by auto
      with ih(1) e False s True show ?thesis by auto
    qed
  next
    case False
    then have "text_chars lib txt (k + s) = []" by (subst text_chars.simps) simp
    moreover have "single_bytes lib txt (Suc k)" if "\<not> Suc k < length txt"
      using that by (simp add: single_bytes_def)
    ultimately show ?thesis
      using False less.prems s e b by (cases "Suc k < length txt") auto
  qed
qed

text \<open>
  C18. \<open>doUStrGetBreaks\<close> allocates one attribute per byte of the text, and \<open>genBreaks\<close> writes one
  per character and one more. So it writes outside the array exactly when every byte but the last
  is a character of its own, as in every ASCII text; otherwise it returns with its array filled.
\<close>

theorem doUStrGetBreaks_overflow:
  assumes "utf8_skip_positive lib" and "m_text breaker \<noteq> []" and "0 \<notin> set (m_text breaker)"
    and "int (length (m_text breaker)) \<le> INT_MAX"
    and "g_utf8_to_ucs4_fast lib (m_text breaker) \<noteq> []"
  shows "if \<forall>i. Suc i < length (m_text breaker) \<longrightarrow> g_utf8_skip lib (m_text breaker ! i) = 1
    then doUStrGetBreaks lib breaker = Inl OutOfBounds
    else \<exists>breaker'. doUStrGetBreaks lib breaker = Inr breaker' \<and>
      length (m_breakAttrs breaker') = length (m_text breaker) \<and>
      m_uchar breaker' = g_utf8_to_ucs4_fast lib (m_text breaker)"
proof -
  define t where "t = m_text breaker"
  have t: "t \<noteq> []" "0 \<notin> set t" "to_int (length t) = int (length t)" "0 < int (length t)"
    using assms(2-4) by (simp_all add: t_def to_int_small)
  define attrs where "attrs = replicate (length t) zero_attr"
  have a: "attrs \<noteq> []" "length attrs = length t" using t(1) by (simp_all add: attrs_def)
  have d: "doUStrGetBreaks lib breaker =
      bind_res (genBreaks lib t (int (length t)) attrs) (\<lambda>a.
        Inr (breaker\<lparr>m_uchar := g_utf8_to_ucs4_fast lib t, m_breakAttrs := a\<rparr>))"
    using t assms(5) by (simp add: doUStrGetBreaks_def t_def [symmetric] attrs_def Let_def)
  have "(\<forall>i. Suc i < length t \<longrightarrow> g_utf8_skip lib (t ! i) = 1) \<longleftrightarrow> single_bytes lib t 0"
    by (simp add: single_bytes_def)
  then show ?thesis
    unfolding t_def [symmetric] d
    using genBreaks_spec [OF assms(1) a(1), of t] a(2) text_chars_length [OF assms(1) t(2), of 0] t(1)
    by (auto elim!: yieldsE split: if_splits)
qed

theorem doUStrGetBreaks_overflow_witness:
  "doUStrGetBreaks ascii_lib (UCharBreaker_new (ascii ''abc'')) = Inl OutOfBounds"
  using doUStrGetBreaks_overflow
    [OF ascii_lib_advances(2), of "UCharBreaker_new (ascii ''abc'')"]
  by (simp add: UCharBreaker_new_def INT_MAX_def)

lemma doUStrGetBreaks_fits:
  assumes "utf8_skip_positive lib" and "txt \<noteq> []" and "int (length txt) \<le> INT_MAX"
    and "g_utf8_to_ucs4_fast lib txt \<noteq> []" and "length (text_chars lib txt 0) < length txt"
  shows "\<exists>breaker. doUStrGetBreaks lib (UCharBreaker_new txt) = Inr breaker"
proof -
  define attrs where "attrs = replicate (length txt) zero_attr"
  have a: "attrs \<noteq> []" "length attrs = length txt" using assms(2) by (simp_all add: attrs_def)
  from genBreaks_spec [OF assms(1) a(1), of "txt"] a(2) assms(2-5) show ?thesis
    by (auto simp: doUStrGetBreaks_def UCharBreaker_new_def to_int_small Let_def attrs_def [symmetric]
        elim!: yieldsE)
qed

lemma doUStrGetBreaks_returns:
  assumes "utf8_skip_positive lib" and "int (length txt) \<le> INT_MAX"
    and "doUStrGetBreaks lib (UCharBreaker_new txt) = Inr breaker"
  shows "txt = [] \<and> breaker = UCharBreaker_new txt \<or>
    length (m_breakAttrs breaker) = length txt \<and> m_uchar breaker = g_utf8_to_ucs4_fast lib txt"
proof (cases "txt = [] \<or> g_utf8_to_ucs4_fast lib txt = []")
  case True
  with assms(2,3) show ?thesis
    by (auto simp: doUStrGetBreaks_def UCharBreaker_new_def to_int_small Let_def split: if_splits)
next
  case False
  define attrs where "attrs = replicate (length txt) zero_attr"
  have a: "attrs \<noteq> []" "length attrs = length txt" using False by (simp_all add: attrs_def)
  from genBreaks_spec [OF assms(1) a(1), of "txt"] False assms(2,3) a(2) show ?thesis
    by (auto simp: doUStrGetBreaks_def UCharBreaker_new_def to_int_small Let_def attrs_def [symmetric]
        bind_res_Inr_iff split: if_splits)
qed

text \<open>
  C20. Once \<open>doUStrGetBreaks\<close> has returned, the loop of the word filters runs over the characters
  without leaving the attribute array, and cuts them into non-empty words that together are the
  kept characters, in order and encoded back to UTF-8, where the library decodes a text to at most
  one character per byte and encodes a character in fewer than six bytes.
\<close>

theorem breaker_words:
  assumes "utf8_skip_positive lib" and "int (length txt) \<le> INT_MAX"
    and "doUStrGetBreaks lib (UCharBreaker_new txt) = Inr breaker"
    and "length (g_utf8_to_ucs4_fast lib txt) \<le> length txt"
    and "\<forall>wc\<in>set (g_utf8_to_ucs4_fast lib txt). length (utf8_of lib wc) < 6"
  shows "\<exists>ws. words_of_breaker lib breaker = Inr ws \<and> [] \<notin> set ws \<and>
    concat ws = concat (map (\<lambda>(a, wc). utf8_of lib wc)
      (filter (\<lambda>(a, wc). kept_in_word lib a wc) (zip (m_breakAttrs breaker) (m_uchar breaker))))"
  using doUStrGetBreaks_returns [OF assms(1-3)]
proof
  assume "txt = [] \<and> breaker = UCharBreaker_new txt"
  then show ?thesis by (simp add: words_of_breaker_def UCharBreaker_new_def flush_def)
next
  assume "length (m_breakAttrs breaker) = length txt \<and> m_uchar breaker = g_utf8_to_ucs4_fast lib txt"
  with words_loop_total [of 0 "m_uchar breaker" "m_breakAttrs breaker" lib "[]" "[]"] assms(4,5)
  show ?thesis by (simp add: words_of_breaker_def)
qed

definition two_byte_lib :: unicode_lib where
  "two_byte_lib = ascii_lib\<lparr>g_utf8_skip := \<lambda>b. if 192 \<le> b then 2 else 1,
     g_utf8_to_ucs4_fast := filter (\<lambda>b. b < 128 \<or> 192 \<le> b)\<rparr>"

theorem breaker_words_witness:
  "\<exists>breaker ws. doUStrGetBreaks two_byte_lib (UCharBreaker_new [195, 169, 97]) = Inr breaker \<and>
     words_of_breaker two_byte_lib breaker = Inr ws \<and> [] \<notin> set ws"
proof -
  have l: "utf8_skip_positive two_byte_lib"
    by (simp add: utf8_skip_positive_def two_byte_lib_def)
  have u: "g_utf8_to_ucs4_fast two_byte_lib [195, 169, 97] = [195, 97]"
    "length (utf8_of two_byte_lib c) < 6" for c
    by (simp_all add: two_byte_lib_def utf8_of_def ascii_lib_def)
  have "text_chars two_byte_lib [195, 169, 97] 0 = [195, 97]"
    by (simp add: text_chars.simps two_byte_lib_def)
  with doUStrGetBreaks_fits [OF l, of "[195, 169, 97]"] u obtain breaker where
    b: "doUStrGetBreaks two_byte_lib (UCharBreaker_new [195, 169, 97]) = Inr breaker"
    by (auto simp: INT_MAX_def)
  from breaker_words [OF l _ b] u b show ?thesis by (auto simp: INT_MAX_def)
qed

end
