(* ===== verification/JSON_Facts.thy ===== *)
theory JSON_Facts
  imports JSON_Values
begin

text \<open>
  The correctness of the JSON parser and writer: every token ends behind its start, so that the
  parser returns on every text; what the writer produces is read back; and what the text of a
  value can contain.
\<close>

section \<open>Progress\<close>

lemma parseConstToken_length:
  "parseConstToken s token = Some r \<Longrightarrow> token \<noteq> [] \<Longrightarrow> length r < length s"
proof (induction s token rule: parseConstToken.induct)
  case (3 c s t token)
  then show ?case by (cases "token = []") (auto split: if_splits)
qed simp_all

lemma readInt_length: "readInt s z = Some r \<Longrightarrow> length r < length s"
proof -
  assume "readInt s z = Some r"
  then have "r = dropWhile (\<lambda>c. 48 \<le> c \<and> c \<le> 57) s" "takeWhile (\<lambda>c. 48 \<le> c \<and> c \<le> 57) s \<noteq> []"
    by (auto simp: readInt_def Let_def split: if_splits)
  moreover have "length s = length (takeWhile (\<lambda>c. 48 \<le> c \<and> c \<le> 57) s) +
      length (dropWhile (\<lambda>c. 48 \<le> c \<and> c \<le> 57) s)"
    by (metis length_append takeWhile_dropWhile_id)
  ultimately show ?thesis by (cases "takeWhile (\<lambda>c. 48 \<le> c \<and> c \<le> 57) s") simp_all
qed

lemma parseExponent_length: "parseExponent s = Some r \<Longrightarrow> s \<noteq> [] \<Longrightarrow> length r \<le> length s"
  by (cases s; cases "tl s")
    (auto simp: parseExponent_def Let_def dest!: readInt_length split: if_splits)

lemma parseNumberToken_length: "parseNumberToken s = Some r \<Longrightarrow> length r < length s"
proof -
  assume p: "parseNumberToken s = Some r"
  then obtain s1 where s: "s \<noteq> []" "readInt (if hd s = 45 then tl s else s) False = Some s1"
    by (auto simp: parseNumberToken_def split: if_splits option.splits)
  from readInt_length [OF s(2)] s(1) have l: "length s1 < length s"
    by (cases s) (auto split: if_splits)
  from p s consider "r = s1" | s2 where "s1 \<noteq> []" "readInt (tl s1) True = Some s2"
      "r = s2 \<or> s2 \<noteq> [] \<and> parseExponent s2 = Some r" | "s1 \<noteq> []" "parseExponent s1 = Some r"
    by (auto simp: parseNumberToken_def split: if_splits option.splits)
  then show ?thesis
  proof cases
    case 2
    from readInt_length [OF 2(2)] 2 l parseExponent_length [of s2 r] show ?thesis by auto
  next
    case 3
    with parseExponent_length [of s1 r] l show ?thesis by simp
  qed (use l in simp)
qed

lemma parseStringToken_length: "parseStringToken s = Some r \<Longrightarrow> length r < length s"
proof (induction s rule: parseStringToken.induct)
  case (2 c s)
  obtain e s' where "s = [] \<or> s = e # s'" by (cases s) auto
  with 2 show ?case
    by (auto simp: Let_def split: if_splits option.splits dest!: readHexDigits_length) fastforce+
qed simp

text \<open>A token starts in the rest of the text and ends behind its start.\<close>

lemma parseToken_length:
  assumes "parseToken lib s = (token, ts, te)" and "token \<noteq> Invalid"
  shows "length te < length ts \<and> length ts \<le> length s"
proof -
  define s' where "s' = dropWhile (isSpaceOrNewline lib) s"
  have l: "length s' \<le> length s" unfolding s'_def by (rule length_dropWhile_le)
  have "s' \<noteq> []" using assms by (auto simp: parseToken_def s'_def [symmetric])
  then obtain c r where "s' = c # r" by (cases s') auto
  with assms l show ?thesis
    by (auto simp: parseToken_def s'_def [symmetric] Let_def split: if_splits option.splits
        dest!: parseConstToken_length parseNumberToken_length parseStringToken_length)
qed

section \<open>Totality\<close>

text \<open>
  Values nested at most \<open>d\<close> deep, counting the value itself, whose objects have each member once.
\<close>

fun json_ok :: "nat \<Rightarrow> json \<Rightarrow> bool" where
  "json_ok 0 v = False"
| "json_ok (Suc d) (JArray xs) = list_all (json_ok d) xs"
| "json_ok (Suc d) (JObject members) =
     (distinct (map fst members) \<and> list_all (\<lambda>(k, v). json_ok d v) members)"
| "json_ok (Suc d) v = True"

text \<open>A parser of values that returns, makes progress, and accepts such values only.\<close>

definition parses :: "('a \<Rightarrow> bool) \<Rightarrow> (WString \<Rightarrow> 'a parsed) \<Rightarrow> bool" where
  "parses P f \<longleftrightarrow>
     (\<forall>s. yields (f s) (\<lambda>r. case r of None \<Rightarrow> True | Some (v, te) \<Rightarrow> P v \<and> length te < length s))"

lemma setValue_all:
  "json_ok d v \<Longrightarrow> list_all (\<lambda>(k, v). json_ok d v) m \<Longrightarrow> list_all (\<lambda>(k, v). json_ok d v) (setValue k v m)"
  by (induction k v m rule: setValue.induct) auto

lemma parsesE:
  assumes "parses P f"
  obtains "f s = Inr None" | v te where "f s = Inr (Some (v, te))" "P v" "length te < length s"
  using assms unfolding parses_def by (auto elim!: allE [of _ s] yieldsE split: option.splits)

lemma array_loop_parses:
  assumes b: "parses (json_ok d) build"
  shows "list_all (json_ok d) acc \<Longrightarrow> yields (array_loop lib build s acc)
    (\<lambda>r. case r of None \<Rightarrow> True | Some (xs, te) \<Rightarrow> list_all (json_ok d) xs \<and> length te < length s)"
proof (induction "length s" arbitrary: s acc rule: less_induct)
  case less
  obtain t1 ts1 te1 where 1: "parseToken lib s = (t1, ts1, te1)" by (cases "parseToken lib s") auto
  show ?case
  proof (cases "t1 = ArrayEnd")
    case True
    with 1 parseToken_length [OF 1] less.prems show ?thesis
      by (subst array_loop.simps) auto
  next
    case n1: False
    from b show ?thesis
    proof (rule parsesE [of _ _ s])
      assume "build s = Inr None"
      with 1 n1 show ?thesis by (subst array_loop.simps) simp
    next
      fix v te
      assume bs: "build s = Inr (Some (v, te))" and v: "json_ok d v" "length te < length s"
      obtain t2 ts2 te2 where 2: "parseToken lib te = (t2, ts2, te2)" by (cases "parseToken lib te") auto
      from v less.prems have acc: "list_all (json_ok d) (pushValue v acc)" by (simp add: pushValue_def)
      show ?thesis
      proof (cases "t2 = ListSeparator \<or> t2 = ArrayEnd")
        case True
        then have "length te2 < length s" using parseToken_length [OF 2] v(2) by auto
        with True 1 n1 2 bs acc less.hyps [OF _ acc, of te2] show ?thesis
          by (subst array_loop.simps) (auto elim!: yields_mono split: option.splits)
      next
        case False
        with 1 n1 2 bs show ?thesis by (subst array_loop.simps) auto
      qed
    qed
  qed
qed

lemma object_loop_parses:
  assumes b: "parses (json_ok d) build"
  shows "distinct (map fst acc) \<Longrightarrow> list_all (\<lambda>(k, v). json_ok d v) acc \<Longrightarrow>
    yields (object_loop lib build s acc) (\<lambda>r. case r of None \<Rightarrow> True
      | Some (m, te) \<Rightarrow> distinct (map fst m) \<and> list_all (\<lambda>(k, v). json_ok d v) m \<and> length te < length s)"
proof (induction "length s" arbitrary: s acc rule: less_induct)
  case less
  obtain t1 ts1 te1 where 1: "parseToken lib s = (t1, ts1, te1)" by (cases "parseToken lib s") auto
  obtain t2 ts2 te2 where 2: "parseToken lib te1 = (t2, ts2, te2)" by (cases "parseToken lib te1") auto
  show ?case
  proof (cases "t1 = String \<and> t2 = ObjectPairSeparator \<and>
      decodeString (butlast (tl (between ts1 te1))) \<noteq> None")
    case False
    with 1 2 parseToken_length [OF 1] less.prems show ?thesis
      by (subst object_loop.simps) (auto split: option.splits)
  next
    case True
    then obtain key where key: "decodeString (butlast (tl (between ts1 te1))) = Some key" by blast
    have l2: "length te2 < length s"
      using parseToken_length [OF 1] parseToken_length [OF 2] True by auto
    from b show ?thesis
    proof (rule parsesE [of _ _ te2])
      assume "build te2 = Inr None"
      with 1 2 True show ?thesis by (subst object_loop.simps) (auto split: option.splits)
    next
      fix v te
      assume bs: "build te2 = Inr (Some (v, te))" and v: "json_ok d v" "length te < length te2"
      obtain t3 ts3 te3 where 3: "parseToken lib te = (t3, ts3, te3)" by (cases "parseToken lib te") auto
      from v less.prems have acc: "distinct (map fst (setValue key v acc))"
        "list_all (\<lambda>(k, v). json_ok d v) (setValue key v acc)"
        by (simp_all add: setValue_distinct setValue_all)
      show ?thesis
      proof (cases "t3 = ListSeparator \<or> t3 = ObjectEnd")
        case t3: True
        then have "length te3 < length s" using parseToken_length [OF 3] v(2) l2 by auto
        with t3 True 1 2 3 bs key acc less.hyps [OF _ acc, of te3] show ?thesis
          by (subst object_loop.simps) (auto elim!: yields_mono split: option.splits)
      next
        case False
        with True 1 2 3 bs key show ?thesis by (subst object_loop.simps) auto
      qed
    qed
  qed
qed

lemma buildValue_parses: "parses (json_ok (stackLimit + 1 - depth)) (\<lambda>s. buildValue lib nl s depth)"
proof (induction "stackLimit + 1 - depth" arbitrary: depth)
  case 0
  then show ?case by (auto simp: parses_def buildValue.simps)
next
  case (Suc d)
  then have d: "stackLimit + 1 - depth = Suc d" "\<not> stackLimit < depth" by linarith+
  have e: "d = stackLimit + 1 - (depth + 1)" using Suc.hyps(2) by simp
  from Suc.hyps(1) [OF e]
  have ih: "parses (json_ok d) (\<lambda>s. buildValue lib nl s (depth + 1))" unfolding e [symmetric] .
  show ?case
    unfolding parses_def d(1)
  proof
    fix s
    obtain t ts te where p: "parseToken lib s = (t, ts, te)" by (cases "parseToken lib s") auto
    have "yields (array_loop lib (\<lambda>s. buildValue lib nl s (depth + 1)) te []) (\<lambda>r. case r of None \<Rightarrow> True
        | Some (xs, te') \<Rightarrow> list_all (json_ok d) xs \<and> length te' < length te)"
      by (rule array_loop_parses [OF ih]) simp
    moreover have "yields (object_loop lib (\<lambda>s. buildValue lib nl s (depth + 1)) te []) (\<lambda>r. case r of
        None \<Rightarrow> True | Some (m, te') \<Rightarrow>
          distinct (map fst m) \<and> list_all (\<lambda>(k, v). json_ok d v) m \<and> length te' < length te)"
      by (rule object_loop_parses [OF ih]) simp_all
    moreover have "t \<noteq> Invalid \<Longrightarrow> length te < length s" using parseToken_length [OF p] by simp
    ultimately show "yields (buildValue lib nl s depth)
        (\<lambda>r. case r of None \<Rightarrow> True | Some (v, te) \<Rightarrow> json_ok (Suc d) v \<and> length te < length s)"
      using p d(2)
      by (subst buildValue.simps) (cases t; auto elim!: yields_mono split: option.splits)
  qed
qed

text \<open>
  C14. The parser returns on every text, and a value it accepts is nested at most 1001 deep and has
  no object with the same member twice.
\<close>

theorem parseJSON_total:
  "\<exists>r. parseJSON lib nl s = Inr r \<and> (case r of None \<Rightarrow> True | Some v \<Rightarrow> json_ok 1001 v)"
proof -
  have "parses (json_ok 1001) (\<lambda>s. buildValue lib nl s 0)"
    using buildValue_parses [of 0 lib nl] by (simp add: stackLimit_def)
  then show ?thesis
    by (rule parsesE [of _ _ s]) (auto simp: parseJSON_def)
qed

section \<open>Round trip: strings\<close>

definition hex_digit :: "nat \<Rightarrow> nat" where
  "hex_digit n = n + (if n < 10 then 48 else 55)"

lemma and_15: "(x :: nat) AND 15 = x mod 16"
  using and_low_bits [of x 4] by simp

lemma hex_digit_value:
  assumes "n < 16"
  shows "isASCIIHexDigit (hex_digit n)" and "toASCIIHexValue (hex_digit n) = n"
proof -
  have "n < 10 \<or> n = 10 \<or> n = 11 \<or> n = 12 \<or> n = 13 \<or> n = 14 \<or> n = 15"
    using assms by linarith
  then show "isASCIIHexDigit (hex_digit n)" "toASCIIHexValue (hex_digit n) = n"
    by (auto simp: hex_digit_def isASCIIHexDigit_def isASCIIDigit_def toASCIILowerUnchecked_def
        toASCIIHexValue_def and_15)
qed

lemma nibbles:
  "upperNibbleToASCIIHexDigit v = hex_digit (v mod 256 div 16)"
  "lowerNibbleToASCIIHexDigit v = hex_digit (v mod 256 mod 16)"
  by (simp_all add: upperNibbleToASCIIHexDigit_def lowerNibbleToASCIIHexDigit_def hex_digit_def
      drop_bit_eq_div and_15 Let_def)

lemma hex_digits:
  "isASCIIHexDigit (upperNibbleToASCIIHexDigit v)"
  "isASCIIHexDigit (lowerNibbleToASCIIHexDigit v)"
  "toASCIIHexValue2 (upperNibbleToASCIIHexDigit v) (lowerNibbleToASCIIHexDigit v) = v mod 256"
proof -
  have "v mod 256 div 16 < 16" "v mod 256 mod 16 < 16" by auto
  then show "isASCIIHexDigit (upperNibbleToASCIIHexDigit v)"
    "isASCIIHexDigit (lowerNibbleToASCIIHexDigit v)"
    "toASCIIHexValue2 (upperNibbleToASCIIHexDigit v) (lowerNibbleToASCIIHexDigit v) = v mod 256"
    using high_or_low [of 4 "v mod 256"]
    by (simp_all add: nibbles hex_digit_value toASCIIHexValue2_def)
qed

lemma escapeUnit_parse: "c < 65536 \<Longrightarrow> parseStringToken (escapeUnit c @ s) = parseStringToken s"
  by (simp add: escapeUnit_def readHexDigits_def simple_escape_def hex_digits)

lemma escapeUnit_decode:
  "c < 65536 \<Longrightarrow> decodeString_loop (escapeUnit c @ s) out = decodeString_loop s (out @ [c])"
  using high_or_low [of 8 c]
  by (simp add: escapeUnit_def drop_bit_eq_div hex_digits)

definition utf16 :: "WString \<Rightarrow> bool" where
  "utf16 s \<longleftrightarrow> (\<forall>c\<in>set s. c < 65536)"

lemma escapeString_parse: "utf16 s \<Longrightarrow> parseStringToken (escapeString s @ 34 # rest) = Some rest"
  by (induction s) (simp_all add: escapeString_def utf16_def escapeUnit_parse)

lemma escapeString_decode: "utf16 s \<Longrightarrow> decodeString_loop (escapeString s) out = Some (out @ s)"
  by (induction s arbitrary: out) (simp_all add: escapeString_def utf16_def escapeUnit_decode)

lemma between_append [simp]: "between (s @ rest) rest = s"
  by (simp add: between_def)

lemma between_Cons_append [simp]: "between (c # s @ rest) rest = c # s"
  using between_append [of "c # s" rest] by simp

text \<open>Characters a written value starts with are not white space.\<close>

lemma not_space: "33 \<le> c \<Longrightarrow> c \<le> 126 \<Longrightarrow> \<not> isSpaceOrNewline lib c"
  by (simp add: isSpaceOrNewline_def isASCIISpace_def)

lemma quoted_token:
  assumes "utf16 s"
  shows "parseToken lib (appendDoubleQuotedString s @ rest) = (String, appendDoubleQuotedString s @ rest, rest)"
    and "decodeString (butlast (tl (between (appendDoubleQuotedString s @ rest) rest))) = Some s"
  using escapeString_parse [OF assms, of rest] escapeString_decode [OF assms, of "[]"]
  unfolding between_append
  by (simp_all add: parseToken_def appendDoubleQuotedString_def not_space Let_def decodeString_def
      butlast_append)

section \<open>Round trip: numbers\<close>

definition digits :: "WString \<Rightarrow> bool" where
  "digits ds \<longleftrightarrow> ds \<noteq> [] \<and> (\<forall>c\<in>set ds. 48 \<le> c \<and> c \<le> 57)"

text \<open>The numbers of RFC 4627: [minus] int [frac] [exp].\<close>

definition frac_part :: "WString \<Rightarrow> bool" where
  "frac_part fr \<longleftrightarrow> fr = [] \<or> (\<exists>ds. digits ds \<and> fr = 46 # ds)"

definition exp_part :: "WString \<Rightarrow> bool" where
  "exp_part ex \<longleftrightarrow> ex = [] \<or>
     (\<exists>e sg ds. (e = 101 \<or> e = 69) \<and> (sg = [] \<or> sg = [43] \<or> sg = [45]) \<and> digits ds \<and> ex = e # sg @ ds)"

definition json_number :: "WString \<Rightarrow> bool" where
  "json_number w \<longleftrightarrow> (\<exists>sg ip fr ex. w = sg @ ip @ fr @ ex \<and> (sg = [] \<or> sg = [45]) \<and> digits ip \<and>
     (1 < length ip \<longrightarrow> hd ip \<noteq> 48) \<and> frac_part fr \<and> exp_part ex)"

text \<open>What may follow a value: the end, a comma or a closing bracket.\<close>

definition follow :: "WString \<Rightarrow> bool" where
  "follow rest \<longleftrightarrow> (case rest of [] \<Rightarrow> True | c # _ \<Rightarrow> c = 44 \<or> c = 93 \<or> c = 125)"

lemma readInt_digits:
  assumes "digits ds" and "rest = [] \<or> \<not> (48 \<le> hd rest \<and> hd rest \<le> 57)"
    and "\<not> z \<Longrightarrow> 1 < length ds \<longrightarrow> hd ds \<noteq> 48"
  shows "readInt (ds @ rest) z = Some rest"
proof -
  have "takeWhile (\<lambda>c. 48 \<le> c \<and> c \<le> 57) (ds @ rest) = ds"
    "dropWhile (\<lambda>c. 48 \<le> c \<and> c \<le> 57) (ds @ rest) = rest"
    using assms(1,2) by (cases rest; auto simp: digits_def takeWhile_append2 dropWhile_append2)+
  with assms(1,3) show ?thesis by (auto simp: readInt_def digits_def Let_def)
qed

lemma parseExponent_ok:
  assumes "exp_part ex" and "follow rest" and "ex @ rest \<noteq> []"
  shows "parseExponent (ex @ rest) = Some rest"
proof (cases "ex = []")
  case True
  with assms(2,3) show ?thesis by (auto simp: parseExponent_def follow_def split: list.splits)
next
  case False
  then obtain e sg ds where e: "e = 101 \<or> e = 69" "sg = [] \<or> sg = [43] \<or> sg = [45]" "digits ds"
    "ex = e # sg @ ds"
    using assms(1) by (auto simp: exp_part_def)
  have "readInt (ds @ rest) True = Some rest"
    using assms(2) by (intro readInt_digits [OF e(3)]) (auto simp: follow_def split: list.splits)
  moreover have "ds \<noteq> []" "hd ds \<noteq> 45" "hd ds \<noteq> 43"
    using e(3) by (cases ds; auto simp: digits_def)+
  ultimately show ?thesis
    using e by (auto simp: parseExponent_def Let_def)
qed

lemma parseNumberToken_ok:
  assumes "json_number w" and "follow rest"
  shows "parseNumberToken (w @ rest) = Some rest"
proof -
  obtain sg ip fr ex where w: "w = sg @ ip @ fr @ ex" "sg = [] \<or> sg = [45]" "digits ip"
    "1 < length ip \<longrightarrow> hd ip \<noteq> 48" "frac_part fr" "exp_part ex"
    using assms(1) by (auto simp: json_number_def)
  define tail where "tail = ex @ rest"
  have tail: "tail = [] \<or> \<not> (48 \<le> hd tail \<and> hd tail \<le> 57) \<and> hd tail \<noteq> 46"
    using w(6) assms(2) by (cases ex; cases rest) (auto simp: tail_def exp_part_def follow_def)
  have ip: "readInt (ip @ fr @ tail) False = Some (fr @ tail)"
    using w(4,5) tail by (intro readInt_digits [OF w(3)]) (auto simp: frac_part_def)
  have "hd ip \<noteq> 45" "ip \<noteq> []" using w(3) by (cases ip; auto simp: digits_def)+
  then have start: "sg @ ip @ fr @ tail \<noteq> []"
    "(if hd (sg @ ip @ fr @ tail) = 45 then tl (sg @ ip @ fr @ tail) else sg @ ip @ fr @ tail) = ip @ fr @ tail"
    using w(2) by auto
  have ex: "tail \<noteq> [] \<Longrightarrow> parseExponent tail = Some rest" "tail = [] \<Longrightarrow> rest = []"
    using parseExponent_ok [OF w(6) assms(2)] by (simp_all add: tail_def)
  have eq: "w @ rest = sg @ ip @ fr @ tail" by (simp add: w(1) tail_def)
  show ?thesis
  proof (cases "fr = []")
    case True
    with tail ex ip show ?thesis
      unfolding eq parseNumberToken_def start(2) using start(1) by auto
  next
    case False
    then obtain ds where ds: "digits ds" "fr = 46 # ds" using w(5) by (auto simp: frac_part_def)
    have "readInt (ds @ tail) True = Some tail"
      using tail by (intro readInt_digits [OF ds(1)]) auto
    with ds ex ip show ?thesis
      unfolding eq parseNumberToken_def start(2) using start(1) by auto
  qed
qed

lemma number_token:
  assumes "json_number w" and "follow rest"
  shows "parseToken lib (w @ rest) = (Number, w @ rest, rest)"
proof -
  obtain c w' where w: "w = c # w'" "(48 \<le> c \<and> c \<le> 57) \<or> c = 45"
  proof -
    from assms(1) obtain sg ip fr ex where "w = sg @ ip @ fr @ ex" "sg = [] \<or> sg = [45]" "digits ip"
      by (auto simp: json_number_def)
    then show ?thesis using that by (cases ip) (auto simp: digits_def)
  qed
  then have "c \<noteq> 110" "c \<noteq> 116" "c \<noteq> 102" "c \<noteq> 91" "c \<noteq> 93" "c \<noteq> 44" "c \<noteq> 123" "c \<noteq> 125"
    "c \<noteq> 58" "\<not> isSpaceOrNewline lib c"
    using not_space [of c lib] by auto
  with parseNumberToken_ok [OF assms] w show ?thesis by (simp add: parseToken_def Let_def)
qed

section \<open>Round trip: values\<close>

text \<open>
  A number that the library prints as a JSON number and reads back; what a value becomes, since
  JSON does not tell integers from doubles and has no infinities; and the values for which this
  holds.
\<close>

definition number_ok :: "number_lib \<Rightarrow> double \<Rightarrow> bool" where
  "number_ok nl d \<longleftrightarrow>
     json_number (appendNumber nl d) \<and> charactersToDouble nl (appendNumber nl d) = Some d"

definition read_number :: "double \<Rightarrow> json" where
  "read_number d = (if isfinite d then JDouble d else JNull)"

fun read_back :: "number_lib \<Rightarrow> json \<Rightarrow> json" where
  "read_back nl (JDouble d) = read_number d"
| "read_back nl (JInteger n) = read_number (double_of_int nl n)"
| "read_back nl (JArray xs) = JArray (map (read_back nl) xs)"
| "read_back nl (JObject members) = JObject (map (\<lambda>(k, v). (k, read_back nl v)) members)"
| "read_back nl v = v"

fun writable :: "number_lib \<Rightarrow> json \<Rightarrow> bool" where
  "writable nl (JDouble d) = (isfinite d \<longrightarrow> number_ok nl d)"
| "writable nl (JInteger n) = (isfinite (double_of_int nl n) \<longrightarrow> number_ok nl (double_of_int nl n))"
| "writable nl (JString s) = utf16 s"
| "writable nl (JArray xs) = list_all (writable nl) xs"
| "writable nl (JObject members) = list_all (\<lambda>(k, v). utf16 k \<and> writable nl v) members"
| "writable nl v = True"

lemma punctuation_token:
  "parseToken lib (44 # s) = (ListSeparator, 44 # s, s)"
  "parseToken lib (58 # s) = (ObjectPairSeparator, 58 # s, s)"
  "parseToken lib (91 # s) = (ArrayBegin, 91 # s, s)"
  "parseToken lib (93 # s) = (ArrayEnd, 93 # s, s)"
  "parseToken lib (123 # s) = (ObjectBegin, 123 # s, s)"
  "parseToken lib (125 # s) = (ObjectEnd, 125 # s, s)"
  by (simp_all add: parseToken_def Let_def not_space)

lemma const_tokens:
  "parseToken lib (ascii ''null'' @ s) = (Null, ascii ''null'' @ s, s)"
  "parseToken lib (ascii ''true'' @ s) = (BoolTrue, ascii ''true'' @ s, s)"
  "parseToken lib (ascii ''false'' @ s) = (BoolFalse, ascii ''false'' @ s, s)"
  by (simp_all add: parseToken_def Let_def not_space)

text \<open>The text of a value starts with a token of its own.\<close>

lemma writeJSON_token:
  assumes "writable nl v" and "follow rest"
  shows "fst (parseToken lib (writeJSON nl v @ rest)) \<in>
    {Null, BoolTrue, BoolFalse, Number, String, ArrayBegin, ObjectBegin}"
  using assms number_token [OF _ assms(2), of _ lib]
  by (cases v) (auto simp: const_tokens [simplified] punctuation_token quoted_token number_ok_def)

text \<open>The parser of nested values reads back every value of a list, whatever may follow it.\<close>

definition reads_back :: "number_lib \<Rightarrow> (WString \<Rightarrow> json parsed) \<Rightarrow> json \<Rightarrow> bool" where
  "reads_back nl build v \<longleftrightarrow> writable nl v \<and>
     (\<forall>rest. follow rest \<longrightarrow> build (writeJSON nl v @ rest) = Inr (Some (read_back nl v, rest)))"

lemma follow_simps [simp]: "follow []" "follow (44 # s)" "follow (93 # s)" "follow (125 # s)"
  by (simp_all add: follow_def)

lemma reads_back_tokens:
  assumes "reads_back nl build v" and "follow rest"
  shows "build (writeJSON nl v @ rest) = Inr (Some (read_back nl v, rest))"
    and "fst (parseToken lib (writeJSON nl v @ rest)) \<noteq> ArrayEnd"
  using assms writeJSON_token [OF _ assms(2), of nl v lib] by (auto simp: reads_back_def)

lemma array_loop_step:
  assumes "reads_back nl build v" and "follow rest"
  shows "array_loop lib build (writeJSON nl v @ rest) acc =
    (case parseToken lib rest of (token, _, tokenEnd) \<Rightarrow>
       if token = ListSeparator then
         (if fst (parseToken lib tokenEnd) = ArrayEnd then Inr None
          else if length (writeJSON nl v @ rest) \<le> length tokenEnd then Inl NonTermination
          else array_loop lib build tokenEnd (acc @ [read_back nl v]))
       else if token \<noteq> ArrayEnd then Inr None
       else Inr (Some (acc @ [read_back nl v], tokenEnd)))"
  using reads_back_tokens(1) [OF assms] reads_back_tokens(2) [OF assms, of lib]
  by (subst array_loop.simps) (auto simp: pushValue_def split: prod.splits)

lemma array_loop_reads_back:
  "list_all (reads_back nl build) xs \<Longrightarrow>
     array_loop lib build (comma_separated (map (writeJSON nl) xs) @ 93 # rest) acc =
       Inr (Some (acc @ map (read_back nl) xs, rest))"
proof (induction xs arbitrary: acc rule: induct_list012)
  case 1
  then show ?case by (simp add: array_loop.simps punctuation_token)
next
  case (2 x)
  then show ?case by (simp add: array_loop_step punctuation_token)
next
  case (3 x y ys)
  have "fst (parseToken lib (comma_separated (map (writeJSON nl) (y # ys)) @ 93 # rest)) \<noteq> ArrayEnd"
    using 3 reads_back_tokens(2) [of nl build y _ lib] by (cases ys) auto
  with 3 show ?case by (simp add: array_loop_step punctuation_token)
qed

lemma object_loop_step:
  assumes "reads_back nl build v" and "follow rest" and "utf16 k"
  shows "object_loop lib build (appendDoubleQuotedString k @ [58] @ writeJSON nl v @ rest) acc =
    (case parseToken lib rest of (token, _, tokenEnd) \<Rightarrow>
       if token = ListSeparator then
         (if fst (parseToken lib tokenEnd) = ObjectEnd then Inr None
          else if length (appendDoubleQuotedString k @ [58] @ writeJSON nl v @ rest) \<le> length tokenEnd
          then Inl NonTermination
          else object_loop lib build tokenEnd (setValue k (read_back nl v) acc))
       else if token \<noteq> ObjectEnd then Inr None
       else Inr (Some (setValue k (read_back nl v) acc, tokenEnd)))"
  using reads_back_tokens(1) [OF assms(1,2)] quoted_token [OF assms(3)]
  by (subst object_loop.simps) (simp add: punctuation_token)

abbreviation (input) write_member :: "number_lib \<Rightarrow> WString \<times> json \<Rightarrow> WString" where
  "write_member nl \<equiv> \<lambda>(k, v). appendDoubleQuotedString k @ [58] @ writeJSON nl v"

lemma object_loop_reads_back:
  "list_all (\<lambda>(k, v). utf16 k \<and> reads_back nl build v) ms \<Longrightarrow> distinct (map fst (acc @ ms)) \<Longrightarrow>
     object_loop lib build (comma_separated (map (write_member nl) ms) @ 125 # rest) acc =
       Inr (Some (acc @ map (\<lambda>(k, v). (k, read_back nl v)) ms, rest))"
proof (induction ms arbitrary: acc rule: induct_list012)
  case 1
  then show ?case by (simp add: object_loop.simps punctuation_token)
next
  case (2 m)
  obtain k v where m: "m = (k, v)" by fastforce
  from 2 m have "setValue k (read_back nl v) acc = acc @ [(k, read_back nl v)]"
    by (intro setValue_new) auto
  with 2 m object_loop_step [of nl build v "125 # rest" k lib acc] show ?case
    by (simp add: punctuation_token)
next
  case (3 m n ms)
  obtain k v where m: "m = (k, v)" by fastforce
  obtain l w where n: "n = (l, w)" by fastforce
  define tail where "tail = comma_separated (map (write_member nl) (n # ms)) @ 125 # rest"
  obtain tail' where "tail = appendDoubleQuotedString l @ tail'"
    by (cases ms) (auto simp: tail_def n)
  with 3 n have t: "fst (parseToken lib tail) \<noteq> ObjectEnd" by (simp add: quoted_token)
  from 3 m have s: "setValue k (read_back nl v) acc = acc @ [(k, read_back nl v)]"
    by (intro setValue_new) auto
  have "object_loop lib build tail (acc @ [(k, read_back nl v)]) =
      Inr (Some ((acc @ [(k, read_back nl v)]) @ map (\<lambda>(k, v). (k, read_back nl v)) (n # ms), rest))"
    unfolding tail_def using 3 m by (intro "3.IH"(2)) auto
  with t s 3 m object_loop_step [of nl build v "44 # tail" k lib acc] show ?case
    by (simp add: punctuation_token tail_def)
qed

lemma buildValue_reads_back:
  "json_ok d v \<Longrightarrow> writable nl v \<Longrightarrow> d + depth \<le> stackLimit + 1 \<Longrightarrow>
     reads_back nl (\<lambda>s. buildValue lib nl s depth) v"
proof (induction d arbitrary: v depth)
  case (Suc d)
  have depth: "\<not> stackLimit < depth" using Suc.prems(3) by simp
  have ih: "json_ok d x \<Longrightarrow> writable nl x \<Longrightarrow> reads_back nl (\<lambda>s. buildValue lib nl s (Suc depth)) x" for x
    using Suc.IH [of x "Suc depth"] Suc.prems(3) by simp
  have "buildValue lib nl (writeJSON nl v @ rest) depth = Inr (Some (read_back nl v, rest))"
    if "follow rest" for rest
  proof (cases v)
    case (JArray xs)
    with Suc.prems(1,2) ih have "list_all (reads_back nl (\<lambda>s. buildValue lib nl s (Suc depth))) xs"
      by (simp add: list_all_iff)
    from array_loop_reads_back [OF this, of lib rest "[]"] JArray depth show ?thesis
      by (subst buildValue.simps) (simp add: punctuation_token)
  next
    case (JObject ms)
    with Suc.prems(1,2)
    have "list_all (\<lambda>(k, v). utf16 k \<and> reads_back nl (\<lambda>s. buildValue lib nl s (Suc depth)) v) ms"
      by (auto simp: list_all_iff intro!: ih)
    from object_loop_reads_back [OF this, of "[]" lib rest] JObject Suc.prems(1) depth show ?thesis
      by (subst buildValue.simps) (simp add: punctuation_token)
  next
    case (JString s)
    with Suc.prems(2) depth quoted_token(1) [of s lib rest] quoted_token(2) [of s rest] show ?thesis
      by (subst buildValue.simps) simp
  next
    case (JDouble x)
    with Suc.prems(2) depth number_token [OF _ that, of "appendNumber nl x" lib] show ?thesis
      by (subst buildValue.simps)
        (auto simp: number_ok_def read_number_def const_tokens [simplified])
  next
    case (JInteger n)
    with Suc.prems(2) depth number_token [OF _ that, of "appendNumber nl (double_of_int nl n)" lib]
    show ?thesis
      by (subst buildValue.simps)
        (auto simp: number_ok_def read_number_def const_tokens [simplified])
  qed (use depth in \<open>subst buildValue.simps, simp add: const_tokens [simplified]\<close>)+
  with Suc.prems(2) show ?case by (simp add: reads_back_def)
qed simp

lemma parse_written:
  assumes "json_ok 1001 v" and "writable nl v"
  shows "parseJSON lib nl (toJSONString nl v) = Inr (Some (read_back nl v))"
proof -
  have "reads_back nl (\<lambda>s. buildValue lib nl s 0) v"
    using assms by (intro buildValue_reads_back [of 1001]) (simp_all add: stackLimit_def)
  then have "buildValue lib nl (writeJSON nl v @ []) 0 = Inr (Some (read_back nl v, []))"
    unfolding reads_back_def by (meson follow_simps(1))
  then show ?thesis by (simp add: parseJSON_def toJSONString_def)
qed

text \<open>
  C12. Writing a value and parsing the text gives the value back, with integers as doubles and
  numbers that are not finite as null, for every value nested at most 1001 deep whose objects have
  each member once, whose strings are UTF-16 code units, and whose numbers the number library
  prints as JSON numbers and reads back.
\<close>

theorem json_roundtrip:
  assumes "json_ok 1001 v" and "writable nl v"
  shows "parseJSON lib nl (toJSONString nl v) = Inr (Some (read_back nl v))"
  using assms by (rule parse_written)

definition bit_numbers :: number_lib where
  "bit_numbers = \<lparr>appendNumber = \<lambda>d. if d = 1 then [49] else [48],
     charactersToDouble = \<lambda>w. Some (if w = [49] then 1 else 0), double_of_int = word_of_int\<rparr>"

lemma digit_json_number: "48 \<le> c \<Longrightarrow> c \<le> 57 \<Longrightarrow> json_number [c]"
  unfolding json_number_def
  by (intro exI [of _ "[]"] exI [of _ "[c]"]) (simp add: digits_def frac_part_def exp_part_def)

theorem json_roundtrip_witness:
  "parseJSON ascii_lib bit_numbers
     (toJSONString bit_numbers (JArray [JInteger 1, JObject [(ascii ''k'', JString [60, 8364])]])) =
   Inr (Some (JArray [JDouble 1, JObject [(ascii ''k'', JString [60, 8364])]]))"
proof -
  define v where "v = JArray [JInteger 1, JObject [(ascii ''k'', JString [60, 8364])]]"
  have f: "isfinite 1" by code_simp
  have "json_ok 1001 v" by (simp add: v_def eval_nat_numeral)
  moreover have "writable bit_numbers v"
    by (simp add: v_def bit_numbers_def utf16_def number_ok_def digit_json_number)
  ultimately show ?thesis
    using json_roundtrip [of v bit_numbers ascii_lib] f
    by (simp add: v_def bit_numbers_def read_number_def)
qed

section \<open>What the text can contain\<close>

definition safe_text :: "WString \<Rightarrow> bool" where
  "safe_text s \<longleftrightarrow> (\<forall>c\<in>set s. 32 \<le> c \<and> c < 127 \<and> c \<noteq> 60 \<and> c \<noteq> 62)"

lemma safe_text_simps [simp]:
  "safe_text []"
  "safe_text (c # s) \<longleftrightarrow> 32 \<le> c \<and> c < 127 \<and> c \<noteq> 60 \<and> c \<noteq> 62 \<and> safe_text s"
  "safe_text (s @ t) \<longleftrightarrow> safe_text s \<and> safe_text t"
  by (auto simp: safe_text_def)

lemma hex_digit_safe: "n < 16 \<Longrightarrow> 48 \<le> hex_digit n \<and> hex_digit n \<le> 70 \<and> hex_digit n \<noteq> 60 \<and> hex_digit n \<noteq> 62"
  by (auto simp: hex_digit_def)

lemma nibbles_safe:
  "safe_text [upperNibbleToASCIIHexDigit v]" "safe_text [lowerNibbleToASCIIHexDigit v]"
proof -
  have "v mod 256 div 16 < 16" "v mod 256 mod 16 < 16" by auto
  from hex_digit_safe [OF this(1)] hex_digit_safe [OF this(2)]
  show "safe_text [upperNibbleToASCIIHexDigit v]" "safe_text [lowerNibbleToASCIIHexDigit v]"
    by (simp_all add: nibbles)
qed

lemma escapeUnit_safe: "safe_text (escapeUnit c)"
  using nibbles_safe [of "drop_bit 8 c"] nibbles_safe [of c]
  by (simp add: escapeUnit_def)

lemma quoted_safe: "safe_text (appendDoubleQuotedString s)"
  by (induction s) (simp_all add: appendDoubleQuotedString_def escapeString_def escapeUnit_safe)

lemma comma_separated_safe: "list_all safe_text xs \<Longrightarrow> safe_text (comma_separated xs)"
  by (induction xs rule: comma_separated.induct) simp_all

lemma digits_safe: "digits ds \<Longrightarrow> safe_text ds"
  by (auto simp: digits_def safe_text_def)

lemma json_number_safe: "json_number w \<Longrightarrow> safe_text w"
  by (auto simp: json_number_def frac_part_def exp_part_def digits_safe)

text \<open>
  C26. The text of every value is printable ASCII and contains no angle bracket, so that it cannot
  open or close a tag in a page it is embedded in.
\<close>

theorem json_text_safe:
  "writable nl v \<Longrightarrow> list_all (\<lambda>c. 32 \<le> c \<and> c < 127 \<and> c \<noteq> 60 \<and> c \<noteq> 62) (toJSONString nl v)"
proof -
  have "writable nl v \<Longrightarrow> safe_text (writeJSON nl v)"
  proof (induction nl v rule: writeJSON.induct)
    case (6 nl ms)
    have "list_all safe_text (map (write_member nl) ms)"
      using 6 by (auto simp: list_all_iff quoted_safe)
    then show ?case by (simp add: comma_separated_safe)
  next
    case (7 nl xs)
    then show ?case by (simp add: comma_separated_safe list_all_iff)
  qed (auto simp: quoted_safe number_ok_def json_number_safe)
  then show "writable nl v \<Longrightarrow> list_all (\<lambda>c. 32 \<le> c \<and> c < 127 \<and> c \<noteq> 60 \<and> c \<noteq> 62) (toJSONString nl v)"
    by (simp add: safe_text_def list_all_iff toJSONString_def)
qed

theorem json_text_safe_witness:
  "list_all (\<lambda>c. 32 \<le> c \<and> c < 127 \<and> c \<noteq> 60 \<and> c \<noteq> 62)
     (toJSONString bit_numbers (JArray [JString (ascii ''</script>''), JInteger 1]))"
  by (rule json_text_safe)
    (simp add: bit_numbers_def utf16_def number_ok_def digit_json_number)

text \<open>
  C27. The parser does not look at the last character of a constant: it reads \<open>nul\<close>, \<open>tru\<close> and
  \<open>fals\<close> followed by any one character as null, true and false.
\<close>

theorem const_token_last_character:
  "parseJSON lib nl (ascii ''nul'' @ [c]) = Inr (Some JNull) \<and>
   parseJSON lib nl (ascii ''tru'' @ [c]) = Inr (Some (JBoolean True)) \<and>
   parseJSON lib nl (ascii ''fals'' @ [c]) = Inr (Some (JBoolean False))"
  by (simp add: parseJSON_def buildValue.simps stackLimit_def parseToken_def not_space Let_def)

end
