(* ===== verification/WTF_UTF8.thy ===== *)
theory WTF_UTF8
  imports Unicode_Lib
begin

unbundle bit_operations_syntax

text \<open>
  The conversions between UTF-8 and the strings of WTF (src/Source/WTF/wtf/unicode/UTF8Conversion.cpp,
  \<open>fromUTF8\<close> in wtf/text/WTFString.cpp, \<open>utf8\<close> in wtf/text/StringImpl.cpp and the word-at-a-time test
  of wtf/text/ASCIIFastPath.h). The macros of ICU that read and write one code point are parameters;
  the hypothesis \<open>utf_codec\<close> says that they implement the encoding forms UTF-8 and UTF-16. The buffers
  are large enough on every path, strings without unpaired surrogates are read back, and the 8-bit
  and the 16-bit path write the same bytes.
\<close>

section \<open>The macros of ICU\<close>

text \<open>
  \<^item> \<open>U8_APPEND i capacity c\<close> and \<open>U16_APPEND i capacity c\<close>: the bytes or units that are written from
    index \<open>i\<close> on, \<open>None\<close> when the macro reports an error;
  \<^item> \<open>U16_NEXT s\<close>: the code point at the start of the units \<open>s\<close>, and by how many units the offset moves.
\<close>

record utf_lib =
  U8_APPEND :: "nat \<Rightarrow> nat \<Rightarrow> nat \<Rightarrow> nat list option"
  U16_APPEND :: "nat \<Rightarrow> nat \<Rightarrow> nat \<Rightarrow> nat list option"
  U16_NEXT :: "nat list \<Rightarrow> nat \<times> nat"

definition U_IS_SURROGATE :: "nat \<Rightarrow> bool" where
  "U_IS_SURROGATE c \<longleftrightarrow> 0xD800 \<le> c \<and> c \<le> 0xDFFF"

definition U_IS_SURROGATE_LEAD :: "nat \<Rightarrow> bool" where
  "U_IS_SURROGATE_LEAD c \<longleftrightarrow> 0xD800 \<le> c \<and> c \<le> 0xDBFF"

section \<open>The test for ASCII\<close>

text \<open>
  The bytes before the first aligned address one by one, then machine words of eight bytes, then
  the rest; all are collected in one word.
\<close>

fun word_of_bytes :: "nat list \<Rightarrow> 64 word" where
  "word_of_bytes [] = 0"
| "word_of_bytes (b # bs) = of_nat b OR push_bit 8 (word_of_bytes bs)"

fun or_bytes :: "64 word \<Rightarrow> nat list \<Rightarrow> 64 word" where
  "or_bytes allCharBits [] = allCharBits"
| "or_bytes allCharBits (c # cs) = or_bytes (allCharBits OR of_nat c) cs"

function or_words :: "64 word \<Rightarrow> nat list \<Rightarrow> 64 word" where
  "or_words allCharBits cs =
     (if length cs < 8 then or_bytes allCharBits cs
      else or_words (allCharBits OR word_of_bytes (take 8 cs)) (drop 8 cs))"
  by auto
termination by (relation "measure (length \<circ> snd)") auto

declare or_words.simps [simp del]

definition nonASCIIMask :: "64 word" where
  "nonASCIIMask = 0x8080808080808080"

text \<open>\<open>prologue\<close> is the number of bytes before the first aligned address.\<close>

definition charactersAreAllASCII :: "nat \<Rightarrow> nat list \<Rightarrow> bool" where
  "charactersAreAllASCII prologue cs \<longleftrightarrow>
     or_words (or_bytes 0 (take prologue cs)) (drop prologue cs) AND nonASCIIMask = 0"

section \<open>Conversion loops\<close>

fun convertLatin1ToUTF8 :: "utf_lib \<Rightarrow> nat list \<Rightarrow> nat \<Rightarrow> nat list \<Rightarrow> nat list option res" where
  "convertLatin1ToUTF8 utf [] capacity target = Inr (Some target)"
| "convertLatin1ToUTF8 utf (c # source) capacity target =
     (case U8_APPEND utf (length target) capacity c of
        None \<Rightarrow> Inr None
      | Some bs \<Rightarrow>
          if capacity < length target + length bs then Inl OutOfBounds
          else convertLatin1ToUTF8 utf source capacity (target @ bs))"

datatype ConversionResult = ConversionOK | SourceExhausted | TargetExhausted | SourceIllegal

definition replacementCharacter :: nat where
  "replacementCharacter = 0xFFFD"

text \<open>The result, the source that is left and the bytes that are written.\<close>

function convertUTF16ToUTF8 ::
  "utf_lib \<Rightarrow> nat list \<Rightarrow> nat \<Rightarrow> bool \<Rightarrow> nat list \<Rightarrow> (ConversionResult \<times> nat list \<times> nat list) res"
where
  "convertUTF16ToUTF8 utf source capacity strict target =
     (if source = [] then Inr (ConversionOK, source, target)
      else
        let (ch, j) = U16_NEXT utf source in
        if U_IS_SURROGATE ch \<and> j = length source \<and> U_IS_SURROGATE_LEAD ch
        then Inr (SourceExhausted, source, target)
        else if U_IS_SURROGATE ch \<and> strict then Inr (SourceIllegal, source, target)
        else
          case U8_APPEND utf (length target) capacity
                 (if U_IS_SURROGATE ch then replacementCharacter else ch) of
            None \<Rightarrow> Inr (TargetExhausted, source, target)
          | Some bs \<Rightarrow>
              if capacity < length target + length bs then Inl OutOfBounds
              else if j = 0 then Inl NonTermination
              else convertUTF16ToUTF8 utf (drop j source) capacity strict (target @ bs))"
  by auto
termination by (relation "measure (length \<circ> fst \<circ> snd)") auto

declare convertUTF16ToUTF8.simps [simp del]

function convertUTF8ToUTF16_loop ::
  "unicode_lib \<Rightarrow> utf_lib \<Rightarrow> nat list \<Rightarrow> nat \<Rightarrow> nat \<Rightarrow> nat list \<Rightarrow> nat list option res"
where
  "convertUTF8ToUTF16_loop lib utf source sourceOffset capacity target =
     (if length source \<le> sourceOffset then Inr (Some target)
      else
        let (character, offset) = U8_NEXT lib source sourceOffset in
        if character < 0 then Inr None
        else
          case U16_APPEND utf (length target) capacity (nat character) of
            None \<Rightarrow> Inr None
          | Some us \<Rightarrow>
              if capacity < length target + length us then Inl OutOfBounds
              else if offset \<le> sourceOffset then Inl NonTermination
              else convertUTF8ToUTF16_loop lib utf source offset capacity (target @ us))"
  by auto
termination
  by (relation "measure (\<lambda>(lib, utf, source, offset, _). length source - offset)") auto

declare convertUTF8ToUTF16_loop.simps [simp del]

definition convertUTF8ToUTF16 ::
  "unicode_lib \<Rightarrow> utf_lib \<Rightarrow> nat list \<Rightarrow> nat \<Rightarrow> nat list option res" where
  "convertUTF8ToUTF16 lib utf source capacity =
     (if INT_MAX < int (length source) \<or> INT_MAX < int capacity then Inl AssertFailed
      else convertUTF8ToUTF16_loop lib utf source 0 capacity [])"

section \<open>Strings from and to UTF-8\<close>

definition MaxLength :: nat where
  "MaxLength = 0x7FFFFFFF"

text \<open>
  \<open>None\<close> is the null string. The bytes are at a valid pointer, \<open>prologue\<close> bytes before an aligned
  address.
\<close>

definition fromUTF8 :: "unicode_lib \<Rightarrow> utf_lib \<Rightarrow> nat \<Rightarrow> nat list \<Rightarrow> WString option res" where
  "fromUTF8 lib utf prologue bytes =
     (if MaxLength < length bytes then Inl VectorOverflow
      else if bytes = [] then Inr (Some [])
      else if charactersAreAllASCII prologue bytes then Inr (Some bytes)
      else convertUTF8ToUTF16 lib utf bytes (length bytes))"

datatype ConversionMode =
  LenientConversion | StrictConversion | StrictConversionReplacingUnpairedSurrogatesWithFFFD

datatype UTF8ConversionError = OutOfMemory | IllegalSource | UTF8SourceExhausted

definition putUTF8Triple :: "nat \<Rightarrow> nat list \<Rightarrow> nat \<Rightarrow> nat list res" where
  "putUTF8Triple bufferSize buffer character =
     (if bufferSize < length buffer + 3 then Inl OutOfBounds
      else Inr (buffer @ [drop_bit 12 character AND 0x0F OR 0xE0,
                          drop_bit 6 character AND 0x3F OR 0x80,
                          character AND 0x3F OR 0x80]))"

text \<open>A conversion that stops early leaves the code unit it stopped at.\<close>

lemma convertUTF16ToUTF8_rest:
  "convertUTF16ToUTF8 utf source capacity strict target = Inr (result, rest, written) \<Longrightarrow>
     length rest \<le> length source \<and> (result \<noteq> ConversionOK \<longrightarrow> rest \<noteq> [])"
proof (induction utf source capacity strict target rule: convertUTF16ToUTF8.induct)
  case (1 utf source capacity strict target)
  obtain ch j where nx: "U16_NEXT utf source = (ch, j)" by (cases "U16_NEXT utf source")
  show ?case
    using 1(2) [unfolded convertUTF16ToUTF8.simps [of utf source capacity strict target]]
      1(1) [OF _ nx [symmetric] refl]
    by (auto simp: nx split: if_splits option.splits)
qed

text \<open>
  The loop of the replacing mode: every call converts up to an unpaired surrogate, into what is left
  of the buffer.
\<close>

function utf8Impl_replacing :: "utf_lib \<Rightarrow> nat list \<Rightarrow> nat \<Rightarrow> nat list \<Rightarrow> nat list res" where
  "utf8Impl_replacing utf characters bufferSize buffer =
     (if characters = [] then Inr buffer
      else bind_res (convertUTF16ToUTF8 utf characters (bufferSize - length buffer) True [])
        (\<lambda>(result, rest, written).
          if result = ConversionOK then Inr (buffer @ written)
          else bind_res (putUTF8Triple bufferSize (buffer @ written) replacementCharacter)
            (\<lambda>buffer. utf8Impl_replacing utf (tl rest) bufferSize buffer)))"
  by auto
termination
proof (relation "measure (length \<circ> fst \<circ> snd)", goal_cases)
  case 1
  then show ?case by simp
next
  case (2 utf characters bufferSize buffer x result y rest written buffer')
  then have "convertUTF16ToUTF8 utf characters (bufferSize - length buffer) True [] =
    Inr (result, rest, written)" by simp
  from convertUTF16ToUTF8_rest [OF this] 2(1,3) show ?case
    using 2 by (cases rest) auto
qed

declare utf8Impl_replacing.simps [simp del]

definition utf8Impl ::
  "utf_lib \<Rightarrow> nat list \<Rightarrow> nat \<Rightarrow> ConversionMode \<Rightarrow> (UTF8ConversionError + nat list) res" where
  "utf8Impl utf characters bufferSize mode =
     (if mode = StrictConversionReplacingUnpairedSurrogatesWithFFFD
      then bind_res (utf8Impl_replacing utf characters bufferSize []) (\<lambda>buffer. Inr (Inr buffer))
      else
        let strict = (mode = StrictConversion) in
        bind_res (convertUTF16ToUTF8 utf characters bufferSize strict []) (\<lambda>(result, rest, buffer).
          if result = SourceIllegal then Inr (Inl IllegalSource)
          else if result = SourceExhausted
          then if strict then Inr (Inl UTF8SourceExhausted)
            else bind_res (putUTF8Triple bufferSize buffer (hd rest)) (\<lambda>buffer. Inr (Inr buffer))
          else Inr (Inr buffer)))"

definition tryGetUtf8 ::
  "utf_lib \<Rightarrow> bool \<Rightarrow> WString \<Rightarrow> ConversionMode \<Rightarrow> (UTF8ConversionError + nat list) res" where
  "tryGetUtf8 utf is8Bit s mode =
     (if s = [] then Inr (Inr [])
      else if MaxLength div 3 < length s then Inr (Inl OutOfMemory)
      else if is8Bit
      then bind_res (convertLatin1ToUTF8 utf s (length s * 3) []) (\<lambda>converted.
        Inr (Inr (case converted of None \<Rightarrow> [] | Some bytes \<Rightarrow> bytes)))
      else utf8Impl utf s (length s * 3) mode)"

definition utf8 :: "utf_lib \<Rightarrow> bool \<Rightarrow> WString \<Rightarrow> nat list res" where
  "utf8 utf is8Bit s =
     bind_res (tryGetUtf8 utf is8Bit s LenientConversion) (\<lambda>expected.
       case expected of Inl _ \<Rightarrow> Inl AssertFailed | Inr bytes \<Rightarrow> Inr bytes)"

section \<open>The test for ASCII is exact\<close>

lemma bit_of_byte: "b < 256 \<Longrightarrow> bit (of_nat b :: 64 word) n = (n < 8 \<and> bit b n)"
proof -
  assume "b < 256"
  then have "take_bit 8 b = b" by (simp add: take_bit_nat_eq_self)
  then have "bit b n \<longleftrightarrow> n < 8 \<and> bit b n" by (metis bit_take_bit_iff)
  then show ?thesis by (auto simp: bit_of_nat_iff)
qed

lemma high_bit_of_byte: "b < 256 \<Longrightarrow> bit b 7 = (128 \<le> (b::nat))"
  by (auto simp: bit_iff_odd odd_iff_mod_2_eq_one div_eq_dividend_iff
      intro: ccontr elim: oddE)

lemma bit_word_of_bytes:
  "list_all (\<lambda>b. b < 256) bs \<Longrightarrow> i < length bs \<Longrightarrow> length bs \<le> 8 \<Longrightarrow>
     bit (word_of_bytes bs) (8 * i + 7) = (128 \<le> bs ! i)"
proof (induction bs arbitrary: i)
  case (Cons b bs)
  show ?case
  proof (cases i)
    case 0
    with Cons.prems show ?thesis by (simp add: bit_or_iff bit_push_bit_iff bit_of_byte high_bit_of_byte)
  next
    case (Suc j)
    with Cons show ?thesis by (simp add: bit_or_iff bit_push_bit_iff bit_of_byte add.commute)
  qed
qed simp

lemma bit_nonASCIIMask: "bit nonASCIIMask n = (n < 64 \<and> n mod 8 = 7)"
proof (cases "n < 64")
  case True
  have "list_all (\<lambda>n. bit nonASCIIMask n = (n mod 8 = 7)) [0..<64]" by code_simp
  with True show ?thesis by (simp add: list_all_iff)
next
  case False
  then show ?thesis using bit_imp_le_length [of nonASCIIMask n] by auto
qed

text \<open>No high bit of any of the bytes of a word is set.\<close>

definition ascii_word :: "64 word \<Rightarrow> bool" where
  "ascii_word w \<longleftrightarrow> (\<forall>i < 8. \<not> bit w (8 * i + 7))"

lemma ascii_word_mask: "w AND nonASCIIMask = 0 \<longleftrightarrow> ascii_word w"
proof -
  have "w AND nonASCIIMask = 0 \<longleftrightarrow> (\<forall>n. n < 64 \<and> n mod 8 = 7 \<longrightarrow> \<not> bit w n)"
    by (auto simp: bit_eq_iff bit_and_iff bit_nonASCIIMask dest: bit_imp_le_length)
  also have "\<dots> \<longleftrightarrow> ascii_word w"
  proof
    assume "\<forall>n. n < 64 \<and> n mod 8 = 7 \<longrightarrow> \<not> bit w n"
    then show "ascii_word w" by (auto simp: ascii_word_def)
  next
    assume a: "ascii_word w"
    have "\<not> bit w n" if "n < 64" "n mod 8 = 7" for n
    proof -
      from that have "n = 8 * (n div 8) + 7" "n div 8 < 8"
        using mult_div_mod_eq [of 8 n] by auto
      with a show ?thesis unfolding ascii_word_def by metis
    qed
    then show "\<forall>n. n < 64 \<and> n mod 8 = 7 \<longrightarrow> \<not> bit w n" by blast
  qed
  finally show ?thesis .
qed

lemma ascii_word_or: "ascii_word (v OR w) \<longleftrightarrow> ascii_word v \<and> ascii_word w"
  by (auto simp: ascii_word_def bit_or_iff)

lemma ascii_word_byte: "b < 256 \<Longrightarrow> ascii_word (of_nat b) \<longleftrightarrow> b < 128"
  using high_bit_of_byte [of b] by (auto simp: ascii_word_def bit_of_byte dest: spec [of _ 0])

lemma ascii_word_bytes:
  assumes "list_all (\<lambda>b. b < 256) bs" and "length bs = 8"
  shows "ascii_word (word_of_bytes bs) \<longleftrightarrow> list_all (\<lambda>b. b < 128) bs"
  using bit_word_of_bytes [OF assms(1)] assms(2)
  by (auto simp: ascii_word_def list_all_length not_le)

lemma or_bytes_ascii:
  "list_all (\<lambda>b. b < 256) cs \<Longrightarrow>
     ascii_word (or_bytes w cs) \<longleftrightarrow> ascii_word w \<and> list_all (\<lambda>b. b < 128) cs"
  by (induction w cs rule: or_bytes.induct) (auto simp: ascii_word_or ascii_word_byte)

lemma or_words_ascii:
  "list_all (\<lambda>b. b < 256) cs \<Longrightarrow>
     ascii_word (or_words w cs) \<longleftrightarrow> ascii_word w \<and> list_all (\<lambda>b. b < 128) cs"
proof (induction w cs rule: or_words.induct)
  case (1 w cs)
  have s: "list_all P cs \<longleftrightarrow> list_all P (take 8 cs) \<and> list_all P (drop 8 cs)" for P
    by (metis append_take_drop_id list_all_append)
  show ?case
  proof (cases "length cs < 8")
    case True
    with 1(2) show ?thesis by (subst or_words.simps) (simp add: or_bytes_ascii)
  next
    case False
    with 1 show ?thesis
      by (subst or_words.simps) (simp add: s ascii_word_or ascii_word_bytes)
  qed
qed

lemma charactersAreAllASCII_iff:
  assumes "list_all (\<lambda>b. b < 256) cs"
  shows "charactersAreAllASCII prologue cs \<longleftrightarrow> list_all (\<lambda>b. b < 128) cs"
proof -
  have s: "list_all P cs \<longleftrightarrow> list_all P (take prologue cs) \<and> list_all P (drop prologue cs)" for P
    by (metis append_take_drop_id list_all_append)
  have "ascii_word 0" by (simp add: ascii_word_def)
  with assms show ?thesis
    by (simp add: charactersAreAllASCII_def ascii_word_mask or_words_ascii or_bytes_ascii s)
qed

section \<open>The encoding forms\<close>

definition scalar :: "nat \<Rightarrow> bool" where
  "scalar c \<longleftrightarrow> c < 0xD800 \<or> 0xE000 \<le> c \<and> c \<le> 0x10FFFF"

definition utf8_bytes :: "nat \<Rightarrow> nat list" where
  "utf8_bytes c =
     (if c < 0x80 then [c]
      else if c < 0x800 then [0xC0 + c div 64, 0x80 + c mod 64]
      else if c < 0x10000 then [0xE0 + c div 4096, 0x80 + c div 64 mod 64, 0x80 + c mod 64]
      else [0xF0 + c div 262144, 0x80 + c div 4096 mod 64, 0x80 + c div 64 mod 64, 0x80 + c mod 64])"

definition utf16_units :: "nat \<Rightarrow> nat list" where
  "utf16_units c =
     (if c < 0x10000 then [c]
      else [0xD800 + (c - 0x10000) div 1024, 0xDC00 + (c - 0x10000) mod 1024])"

text \<open>
  What the API of ICU documents of the four macros: they write and read the encoding forms of
  scalar values, writing fails on no scalar value that fits, and reading an unpaired surrogate
  returns it as one unit.
\<close>

definition utf_codec :: "unicode_lib \<Rightarrow> utf_lib \<Rightarrow> bool" where
  "utf_codec lib utf \<longleftrightarrow>
     (\<forall>c i capacity. scalar c \<longrightarrow> i + length (utf8_bytes c) \<le> capacity \<longrightarrow>
        U8_APPEND utf i capacity c = Some (utf8_bytes c)) \<and>
     (\<forall>c i capacity. scalar c \<longrightarrow> i + length (utf16_units c) \<le> capacity \<longrightarrow>
        U16_APPEND utf i capacity c = Some (utf16_units c)) \<and>
     (\<forall>c pre post. scalar c \<longrightarrow>
        U8_NEXT lib (pre @ utf8_bytes c @ post) (length pre) =
          (int c, length pre + length (utf8_bytes c))) \<and>
     (\<forall>c post. scalar c \<longrightarrow> U16_NEXT utf (utf16_units c @ post) = (c, length (utf16_units c))) \<and>
     (\<forall>c post. U_IS_SURROGATE_LEAD c \<longrightarrow>
        (case post of [] \<Rightarrow> True | d # _ \<Rightarrow> \<not> (0xDC00 \<le> d \<and> d \<le> 0xDFFF)) \<longrightarrow>
        U16_NEXT utf (c # post) = (c, 1)) \<and>
     (\<forall>c post. 0xDC00 \<le> c \<longrightarrow> c \<le> 0xDFFF \<longrightarrow> U16_NEXT utf (c # post) = (c, 1))"

lemma utf_codecD:
  assumes "utf_codec lib utf"
  shows "scalar c \<Longrightarrow> i + length (utf8_bytes c) \<le> capacity \<Longrightarrow>
           U8_APPEND utf i capacity c = Some (utf8_bytes c)"
    and "scalar c \<Longrightarrow> i + length (utf16_units c) \<le> capacity \<Longrightarrow>
           U16_APPEND utf i capacity c = Some (utf16_units c)"
    and "scalar c \<Longrightarrow> U8_NEXT lib (pre @ utf8_bytes c @ post) (length pre) =
           (int c, length pre + length (utf8_bytes c))"
    and "scalar c \<Longrightarrow> U16_NEXT utf (utf16_units c @ post) = (c, length (utf16_units c))"
    and "U_IS_SURROGATE_LEAD c \<Longrightarrow>
           (case post of [] \<Rightarrow> True | d # _ \<Rightarrow> \<not> (0xDC00 \<le> d \<and> d \<le> 0xDFFF)) \<Longrightarrow>
           U16_NEXT utf (c # post) = (c, 1)"
    and "0xDC00 \<le> c \<Longrightarrow> c \<le> 0xDFFF \<Longrightarrow> U16_NEXT utf (c # post) = (c, 1)"
  using assms unfolding utf_codec_def by blast+

lemma utf8_bytes_length: "0 < length (utf8_bytes c)" "c < 0x10000 \<Longrightarrow> length (utf8_bytes c) \<le> 3"
  "length (utf8_bytes c) \<le> 3 * length (utf16_units c)"
  "length (utf16_units c) \<le> length (utf8_bytes c)" "0 < length (utf16_units c)"
  by (auto simp: utf8_bytes_def utf16_units_def)

lemma utf8_bytes_byte: "c \<le> 0x10FFFF \<Longrightarrow> list_all (\<lambda>b. b < 256) (utf8_bytes c)"
  by (auto simp: utf8_bytes_def)

lemma utf8_bytes_ascii: "list_all (\<lambda>b. b < 128) (utf8_bytes c) \<longleftrightarrow> c < 128"
  by (auto simp: utf8_bytes_def)

section \<open>Reading UTF-8\<close>

lemma convertUTF8ToUTF16_loop_scalars:
  assumes codec: "utf_codec lib utf"
  shows "list_all scalar cs \<Longrightarrow>
     length target + length (concat (map utf8_bytes cs)) \<le> capacity \<Longrightarrow>
     convertUTF8ToUTF16_loop lib utf (pre @ concat (map utf8_bytes cs)) (length pre) capacity target =
       Inr (Some (target @ concat (map utf16_units cs)))"
proof (induction cs arbitrary: pre target)
  case Nil
  then show ?case by (subst convertUTF8ToUTF16_loop.simps) simp
next
  case (Cons c cs)
  from Cons.prems have c: "scalar c" and cs: "list_all scalar cs" by simp_all
  from Cons.prems utf8_bytes_length(4) [of c]
  have cap: "length target + length (utf16_units c) \<le> capacity"
    "length (target @ utf16_units c) + length (concat (map utf8_bytes cs)) \<le> capacity" by simp_all
  show ?case
    using utf8_bytes_length(1) [of c] cap(1)
      Cons.IH [OF cs cap(2), of "pre @ utf8_bytes c"]
    by (subst convertUTF8ToUTF16_loop.simps)
      (simp add: utf_codecD(3) [OF codec c] utf_codecD(2) [OF codec c cap(1)])
qed

lemma fromUTF8_scalars:
  assumes codec: "utf_codec lib utf" and cs: "list_all scalar cs"
    and len: "length (concat (map utf8_bytes cs)) \<le> MaxLength"
  shows "fromUTF8 lib utf prologue (concat (map utf8_bytes cs)) =
    Inr (Some (concat (map utf16_units cs)))"
proof -
  define bytes where "bytes = concat (map utf8_bytes cs)"
  have byte: "list_all (\<lambda>b. b < 256) bytes"
    unfolding bytes_def using cs by (induction cs) (auto simp: scalar_def utf8_bytes_byte)
  have ascii: "list_all (\<lambda>b. b < 128) bytes \<Longrightarrow> bytes = concat (map utf16_units cs)"
    unfolding bytes_def by (induction cs) (auto simp: utf8_bytes_ascii, auto simp: utf8_bytes_def utf16_units_def)
  have "convertUTF8ToUTF16_loop lib utf ([] @ bytes) (length ([] :: nat list)) (length bytes) [] =
      Inr (Some ([] @ concat (map utf16_units cs)))"
    unfolding bytes_def by (rule convertUTF8ToUTF16_loop_scalars [OF codec cs]) simp
  with byte ascii len show ?thesis
    by (cases "bytes = []")
      (auto simp del: concat_eq_Nil_conv simp: bytes_def [symmetric] fromUTF8_def charactersAreAllASCII_iff convertUTF8ToUTF16_def MaxLength_def int_limits)
qed

section \<open>Writing UTF-8\<close>

text \<open>The code points of a text, an unpaired surrogate standing for itself.\<close>

fun code_points :: "nat list \<Rightarrow> nat list" where
  "code_points [] = []"
| "code_points [c] = [c]"
| "code_points (c # d # s) =
     (if U_IS_SURROGATE_LEAD c \<and> 0xDC00 \<le> d \<and> d \<le> 0xDFFF
      then (0x10000 + (c - 0xD800) * 1024 + (d - 0xDC00)) # code_points s
      else c # code_points (d # s))"

text \<open>
  What the lenient conversion writes: the replacement character for an unpaired surrogate, but three
  bytes of its own for a lead surrogate at the end.
\<close>

fun lenient_bytes :: "nat list \<Rightarrow> nat list" where
  "lenient_bytes [] = []"
| "lenient_bytes (c # cs) =
     (if cs = [] \<and> U_IS_SURROGATE_LEAD c then utf8_bytes c
      else utf8_bytes (if U_IS_SURROGATE c then replacementCharacter else c) @ lenient_bytes cs)"

lemma code_points_Nil_iff [simp]: "code_points s = [] \<longleftrightarrow> s = []"
  by (cases s rule: code_points.cases) auto

lemma code_points_alone:
  "(case post of [] \<Rightarrow> True | d # _ \<Rightarrow> \<not> (U_IS_SURROGATE_LEAD c \<and> 0xDC00 \<le> d \<and> d \<le> 0xDFFF)) \<Longrightarrow>
     code_points (c # post) = c # code_points post"
  by (cases post) auto

lemma scalar_pair:
  assumes "U_IS_SURROGATE_LEAD c" and "0xDC00 \<le> d" and "d \<le> 0xDFFF"
  shows "scalar (0x10000 + (c - 0xD800) * 1024 + (d - 0xDC00))"
    and "utf16_units (0x10000 + (c - 0xD800) * 1024 + (d - 0xDC00)) = [c, d]"
proof -
  from assms obtain x y where xy: "c = 0xD800 + x" "d = 0xDC00 + y" "x < 1024" "y < 1024"
    by (auto simp: U_IS_SURROGATE_LEAD_def dest!: le_Suc_ex)
  then have "(x * 1024 + y) div 1024 = x" "(x * 1024 + y) mod 1024 = y" by simp_all
  with xy show "scalar (0x10000 + (c - 0xD800) * 1024 + (d - 0xDC00))"
    "utf16_units (0x10000 + (c - 0xD800) * 1024 + (d - 0xDC00)) = [c, d]"
    by (auto simp: scalar_def utf16_units_def)
qed

lemma triple_bytes:
  assumes "c < 0x10000" and "0x800 \<le> c" and "length buffer + 3 \<le> bufferSize"
  shows "putUTF8Triple bufferSize buffer c = Inr (buffer @ utf8_bytes c)"
proof -
  have o: "x mod 16 OR 0xE0 = 0xE0 + x mod 16" "x mod 64 OR 0x80 = 0x80 + x mod 64" for x :: nat
    using low_or_high [of "x mod 16" 4 14] low_or_high [of "x mod 64" 6 2] by simp_all
  have a: "x AND 15 = x mod 16" "x AND 63 = x mod 64" for x :: nat
    using and_low_bits [of x 4] and_low_bits [of x 6] by simp_all
  from assms show ?thesis
    using low_or_high [of "c div 4096" 4 14]
    by (simp add: putUTF8Triple_def utf8_bytes_def a o drop_bit_eq_div)
qed

text \<open>One step of the loop over an arbitrary text.\<close>

lemma U16_NEXT_code_point:
  assumes "utf_codec lib utf" and "s \<noteq> []" and "list_all (\<lambda>c. c < 0x10000) s"
  obtains c j where "U16_NEXT utf s = (c, j)" and "0 < j" and "j \<le> length s"
    and "code_points s = c # code_points (drop j s)"
    and "U_IS_SURROGATE c \<or> scalar c" and "length (utf8_bytes c) \<le> 3 * j"
    and "U_IS_SURROGATE c \<longrightarrow> j = 1 \<and> c = hd s"
proof -
  from assms(2,3) obtain c post where s: "s = c # post" and c: "c < 0x10000" by (cases s) auto
  have k: "U_IS_SURROGATE_LEAD c \<or> 0xDC00 \<le> c \<and> c \<le> 0xDFFF \<or> scalar c"
    using c by (auto simp: U_IS_SURROGATE_LEAD_def scalar_def)
  consider (pair) d s' where "U_IS_SURROGATE_LEAD c" "post = d # s'" "0xDC00 \<le> d" "d \<le> 0xDFFF"
    | (lead) "U_IS_SURROGATE_LEAD c"
        "case post of [] \<Rightarrow> True | d # _ \<Rightarrow> \<not> (0xDC00 \<le> d \<and> d \<le> 0xDFFF)"
    | (trail) "0xDC00 \<le> c" "c \<le> 0xDFFF"
    | (scalar) "scalar c"
    using k by (cases post) auto
  then show thesis
  proof cases
    case pair
    let ?c = "0x10000 + (c - 0xD800) * 1024 + (d - 0xDC00)"
    note p = scalar_pair [OF pair(1,3,4)]
    show thesis
      using utf_codecD(4) [OF assms(1) p(1), of s'] p utf8_bytes_length(3) [of ?c] pair s
      by (intro that [of ?c 2]) (auto simp: scalar_def U_IS_SURROGATE_def)
  next
    case lead
    then show thesis
      using utf_codecD(5) [OF assms(1) lead] s utf8_bytes_length(2) [OF c]
      by (intro that [of c 1])
        (auto simp: U_IS_SURROGATE_def U_IS_SURROGATE_LEAD_def split: list.splits)
  next
    case trail
    then have "code_points (c # post) = c # code_points post"
      by (intro code_points_alone) (auto simp: U_IS_SURROGATE_LEAD_def split: list.splits)
    then show thesis
      using utf_codecD(6) [OF assms(1) trail, of post] s utf8_bytes_length(2) [OF c] trail
      by (intro that [of c 1]) (auto simp: U_IS_SURROGATE_def)
  next
    case scalar
    with c have "utf16_units c = [c]" "\<not> U_IS_SURROGATE c" "\<not> U_IS_SURROGATE_LEAD c"
      by (auto simp: utf16_units_def scalar_def U_IS_SURROGATE_def U_IS_SURROGATE_LEAD_def)
    then show thesis
      using utf_codecD(4) [OF assms(1) scalar, of post] s utf8_bytes_length(2) [OF c] scalar
      by (intro that [of c 1]) (auto, cases post, auto)
  qed
qed

text \<open>
  The lenient conversion stops early only at a lead surrogate that ends the text; three bytes per
  unit are room enough.
\<close>

lemma convertUTF16ToUTF8_step:
  assumes "utf_codec lib utf" and "s \<noteq> []" and "U16_NEXT utf s = (c, j)" and "0 < j"
    and "\<not> (U_IS_SURROGATE c \<and> j = length s \<and> U_IS_SURROGATE_LEAD c)"
    and e: "e = (if U_IS_SURROGATE c then replacementCharacter else c)" and "scalar e"
    and "length target + length (utf8_bytes e) \<le> capacity"
  shows "convertUTF16ToUTF8 utf s capacity False target =
    convertUTF16ToUTF8 utf (drop j s) capacity False (target @ utf8_bytes e)"
  using assms utf_codecD(1) [OF assms(1,7,8)]
  by (subst convertUTF16ToUTF8.simps) (auto simp: e [symmetric])

lemma convertUTF16ToUTF8_lenient:
  assumes codec: "utf_codec lib utf"
  shows "list_all (\<lambda>c. c < 0x10000) s \<Longrightarrow> length target + 3 * length s \<le> capacity \<Longrightarrow>
     \<exists>result rest written.
       convertUTF16ToUTF8 utf s capacity False target = Inr (result, rest, target @ written) \<and>
       (result = ConversionOK \<and> written = lenient_bytes (code_points s) \<or>
        result = SourceExhausted \<and> (\<exists>c. rest = [c] \<and> U_IS_SURROGATE_LEAD c \<and>
          lenient_bytes (code_points s) = written @ utf8_bytes c \<and>
          length target + length written + 3 \<le> capacity))"
proof (induction "length s" arbitrary: s target rule: less_induct)
  case less
  show ?case
  proof (cases "s = []")
    case True
    then show ?thesis by (subst convertUTF16ToUTF8.simps) simp
  next
    case False
    obtain c j where nx: "U16_NEXT utf s = (c, j)" and j: "0 < j" "j \<le> length s"
      and cp: "code_points s = c # code_points (drop j s)"
      and c: "U_IS_SURROGATE c \<or> scalar c" and len: "length (utf8_bytes c) \<le> 3 * j"
      and alone: "U_IS_SURROGATE c \<longrightarrow> j = 1 \<and> c = hd s"
      by (rule U16_NEXT_code_point [OF codec False less.prems(1)])
    show ?thesis
    proof (cases "U_IS_SURROGATE c \<and> j = length s \<and> U_IS_SURROGATE_LEAD c")
      case True
      with alone False have "s = [c]" by (cases s) auto
      with True nx less.prems show ?thesis
        by (subst convertUTF16ToUTF8.simps) (auto intro!: exI [of _ SourceExhausted] exI [of _ "[c]"])
    next
      case go: False
      define e where "e = (if U_IS_SURROGATE c then replacementCharacter else c)"
      have e: "scalar e" "length (utf8_bytes e) \<le> 3 * j"
        using c len j by (auto simp: e_def scalar_def replacementCharacter_def utf8_bytes_def)
      have cap: "length target + length (utf8_bytes e) \<le> capacity"
        "length (target @ utf8_bytes e) + 3 * length (drop j s) \<le> capacity"
        using e(2) j less.prems(2) by simp_all
      have "list_all (\<lambda>c. c < 0x10000) (drop j s)"
        using less.prems(1) by (auto simp: list_all_iff dest: in_set_dropD)
      note ih = less.hyps [OF _ this cap(2)]
      have "lenient_bytes (code_points s) = utf8_bytes e @ lenient_bytes (code_points (drop j s))"
        using go j alone by (auto simp: cp e_def U_IS_SURROGATE_def U_IS_SURROGATE_LEAD_def)
      with ih j False show ?thesis
        unfolding convertUTF16ToUTF8_step [OF codec False nx j(1) go e_def e(1) cap(1)]
        by fastforce
    qed
  qed
qed

lemma tryGetUtf8_lenient:
  assumes "utf_codec lib utf" and "list_all (\<lambda>c. c < 0x10000) s" and "length s \<le> MaxLength div 3"
  shows "tryGetUtf8 utf False s LenientConversion = Inr (Inr (lenient_bytes (code_points s)))"
proof (cases "s = []")
  case False
  obtain result rest written where
    conv: "convertUTF16ToUTF8 utf s (length s * 3) False [] = Inr (result, rest, written)"
    and "result = ConversionOK \<and> written = lenient_bytes (code_points s) \<or>
      result = SourceExhausted \<and> (\<exists>c. rest = [c] \<and> U_IS_SURROGATE_LEAD c \<and>
        lenient_bytes (code_points s) = written @ utf8_bytes c \<and>
        length written + 3 \<le> length s * 3)"
    using convertUTF16ToUTF8_lenient [OF assms(1,2), of "[]" "length s * 3"] by auto
  then consider (ok) "result = ConversionOK" "written = lenient_bytes (code_points s)"
    | (lead) c where "result = SourceExhausted" "rest = [c]" "U_IS_SURROGATE_LEAD c"
      "lenient_bytes (code_points s) = written @ utf8_bytes c" "length written + 3 \<le> length s * 3"
    by blast
  then show ?thesis
  proof cases
    case ok
    with False assms(3) conv show ?thesis by (simp add: tryGetUtf8_def utf8Impl_def)
  next
    case lead
    then have "putUTF8Triple (length s * 3) written c = Inr (written @ utf8_bytes c)"
      by (intro triple_bytes) (auto simp: U_IS_SURROGATE_LEAD_def)
    with lead False assms(3) conv show ?thesis by (simp add: tryGetUtf8_def utf8Impl_def)
  qed
qed (simp add: tryGetUtf8_def)

lemma convertLatin1ToUTF8_bytes:
  assumes "utf_codec lib utf"
  shows "latin1 s \<Longrightarrow> length target + 3 * length s \<le> capacity \<Longrightarrow>
    convertLatin1ToUTF8 utf s capacity target = Inr (Some (target @ concat (map utf8_bytes s)))"
proof (induction s arbitrary: target)
  case (Cons c s)
  have "scalar c" "length (utf8_bytes c) \<le> 3"
    using Cons.prems by (auto simp: latin1_def scalar_def intro!: utf8_bytes_length(2))
  with Cons utf_codecD(1) [OF assms this(1), of "length target" capacity] show ?case
    by (simp add: latin1_def)
qed simp

lemma code_points_latin1: "latin1 s \<Longrightarrow> code_points s = s"
  by (induction s rule: code_points.induct) (auto simp: latin1_def U_IS_SURROGATE_LEAD_def)

lemma lenient_bytes_scalar:
  "list_all scalar cs \<Longrightarrow> lenient_bytes cs = concat (map utf8_bytes cs)"
  by (induction cs) (auto simp: scalar_def U_IS_SURROGATE_def U_IS_SURROGATE_LEAD_def)

lemma units_code_points:
  "list_all (\<lambda>c. c < 0x10000) s \<Longrightarrow> concat (map utf16_units (code_points s)) = s"
proof (induction s rule: code_points.induct)
  case (3 c d s)
  have "utf16_units c = [c]" using 3(3) by (simp add: utf16_units_def)
  with 3 scalar_pair(2) [of c d] show ?case by auto
qed (simp_all add: utf16_units_def)

lemma utf8_bytes_total_length: "length (concat (map utf8_bytes cs)) \<le> 3 * length (concat (map utf16_units cs))"
  using utf8_bytes_length(3) by (induction cs) (auto intro: add_mono simp: add_mult_distrib2)

text \<open>
  C13: converting a string to UTF-8 always returns within its buffer of three bytes per code unit,
  and writes the bytes of the code points, with the replacement character for unpaired surrogates
  and three bytes of its own for a lead surrogate at the end. A string without unpaired surrogates
  is read back by \<open>fromUTF8\<close>. For an 8-bit string the two representations give the same bytes.
\<close>

theorem utf8_roundtrip:
  assumes "utf_codec lib utf" and "list_all (\<lambda>c. c < 0x10000) s" and "length s \<le> MaxLength div 3"
  shows "utf8 utf False s = Inr (lenient_bytes (code_points s)) \<and>
    (list_all scalar (code_points s) \<longrightarrow>
       fromUTF8 lib utf prologue (lenient_bytes (code_points s)) = Inr (Some s)) \<and>
    (latin1 s \<longrightarrow> utf8 utf True s = utf8 utf False s)"
proof (intro conjI impI)
  show w: "utf8 utf False s = Inr (lenient_bytes (code_points s))"
    by (simp add: utf8_def tryGetUtf8_lenient [OF assms])
  show "fromUTF8 lib utf prologue (lenient_bytes (code_points s)) = Inr (Some s)"
    if cs: "list_all scalar (code_points s)"
    using fromUTF8_scalars [OF assms(1) cs] utf8_bytes_total_length [of "code_points s"] assms(3)
    by (simp add: lenient_bytes_scalar [OF cs] units_code_points [OF assms(2)])
  show "utf8 utf True s = utf8 utf False s" if l: "latin1 s"
  proof -
    from l have "list_all scalar s" by (auto simp: latin1_def list_all_iff scalar_def)
    with l assms(3) convertLatin1ToUTF8_bytes [OF assms(1) l, of "[]" "length s * 3"] show ?thesis
      by (auto simp: w code_points_latin1 lenient_bytes_scalar) (simp add: utf8_def tryGetUtf8_def)
  qed
qed

text \<open>A concrete instance of the macros, which shows that the hypothesis can hold.\<close>

definition decode_utf8 :: "nat list \<Rightarrow> nat \<Rightarrow> int \<times> nat" where
  "decode_utf8 s i =
     (case drop i s of
        b # c # d # e # _ \<Rightarrow>
          if b < 0x80 then (int b, i + 1)
          else if b < 0xC0 then (- 1, i + 1)
          else if b < 0xE0 then (int ((b - 0xC0) * 64 + (c - 0x80)), i + 2)
          else if b < 0xF0
          then (int ((b - 0xE0) * 4096 + (c - 0x80) * 64 + (d - 0x80)), i + 3)
          else (int ((b - 0xF0) * 262144 + (c - 0x80) * 4096 + (d - 0x80) * 64 + (e - 0x80)), i + 4)
      | b # c # d # _ \<Rightarrow>
          if b < 0x80 then (int b, i + 1)
          else if b < 0xC0 then (- 1, i + 1)
          else if b < 0xE0 then (int ((b - 0xC0) * 64 + (c - 0x80)), i + 2)
          else if b < 0xF0
          then (int ((b - 0xE0) * 4096 + (c - 0x80) * 64 + (d - 0x80)), i + 3)
          else (- 1, i + 1)
      | b # c # _ \<Rightarrow>
          if b < 0x80 then (int b, i + 1)
          else if 0xC0 \<le> b \<and> b < 0xE0 then (int ((b - 0xC0) * 64 + (c - 0x80)), i + 2)
          else (- 1, i + 1)
      | b # _ \<Rightarrow> (if b < 0x80 then int b else - 1, i + 1)
      | [] \<Rightarrow> (- 1, i))"

definition utf_lib1 :: utf_lib where
  "utf_lib1 =
     \<lparr>U8_APPEND = (\<lambda>i capacity c.
        if i + length (utf8_bytes c) \<le> capacity then Some (utf8_bytes c) else None),
      U16_APPEND = (\<lambda>i capacity c.
        if i + length (utf16_units c) \<le> capacity then Some (utf16_units c) else None),
      U16_NEXT = (\<lambda>s. (hd (code_points s),
        if U_IS_SURROGATE_LEAD (hd s) \<and> 0x10000 \<le> hd (code_points s) then 2 else 1))\<rparr>"

definition unicode_lib1 :: unicode_lib where
  "unicode_lib1 = ascii_lib\<lparr>U8_NEXT := decode_utf8\<rparr>"

lemma decode_utf8_bytes:
  assumes "scalar c"
  shows "decode_utf8 (pre @ utf8_bytes c @ post) (length pre) =
    (int c, length pre + length (utf8_bytes c))"
proof -
  have d: "c div 4096 = c div 64 div 64" "c div 262144 = c div 64 div 64 div 64"
    using div_mult2_eq [of c 64 64] div_mult2_eq [of c 4096 64] by simp_all
  have m: "c div 64 * 64 + c mod 64 = c" "c div 64 div 64 * 64 + c div 64 mod 64 = c div 64"
    "c div 64 div 64 div 64 * 64 + c div 64 div 64 mod 64 = c div 64 div 64"
    by simp_all
  have three: "c div 64 div 64 * 4096 + c div 64 mod 64 * 64 + c mod 64 = c"
    using m by linarith
  have four: "c div 64 div 64 div 64 * 262144 + c div 64 div 64 mod 64 * 4096 +
      c div 64 mod 64 * 64 + c mod 64 = c"
    using m by linarith
  have l: "c < 0x800 \<Longrightarrow> c div 64 < 32" "c < 0x10000 \<Longrightarrow> c div 64 div 64 < 16" by simp_all
  consider "c < 0x80" | "0x80 \<le> c" "c < 0x800" | "0x800 \<le> c" "c < 0x10000" | "0x10000 \<le> c"
    by linarith
  then show ?thesis
  proof cases
    case 1
    then show ?thesis by (auto simp: decode_utf8_def utf8_bytes_def split: list.splits)
  next
    case 2
    with l(1) m(1) show ?thesis by (auto simp: decode_utf8_def utf8_bytes_def split: list.splits)
  next
    case 3
    with l(2) three show ?thesis by (auto simp: decode_utf8_def utf8_bytes_def d split: list.splits)
  next
    case 4
    with four show ?thesis by (auto simp: decode_utf8_def utf8_bytes_def d)
  qed
qed

lemma utf_lib1_next_alone:
  assumes "U_IS_SURROGATE_LEAD c \<Longrightarrow> (case post of [] \<Rightarrow> True | d # _ \<Rightarrow> \<not> (0xDC00 \<le> d \<and> d \<le> 0xDFFF))"
    and "c < 0x10000"
  shows "U16_NEXT utf_lib1 (c # post) = (c, 1)"
proof -
  have "code_points (c # post) = c # code_points post"
    using assms(1) by (intro code_points_alone) (auto split: list.splits)
  with assms(2) show ?thesis by (simp add: utf_lib1_def)
qed

lemma utf_lib1_next_scalar:
  assumes "scalar c"
  shows "U16_NEXT utf_lib1 (utf16_units c @ post) = (c, length (utf16_units c))"
proof (cases "c < 0x10000")
  case True
  with assms have "utf16_units c = [c]" "\<not> U_IS_SURROGATE_LEAD c"
    by (auto simp: utf16_units_def scalar_def U_IS_SURROGATE_LEAD_def)
  with True show ?thesis using utf_lib1_next_alone [of c post] by simp
next
  case False
  with assms have "(c - 0x10000) div 1024 < 1024" by (auto simp: scalar_def)
  with False show ?thesis
    using div_mult_mod_eq [of "c - 0x10000" 1024]
    by (simp add: utf_lib1_def utf16_units_def U_IS_SURROGATE_LEAD_def)
qed

lemma utf_lib1_codec: "utf_codec unicode_lib1 utf_lib1"
  unfolding utf_codec_def
  by (intro conjI allI impI utf_lib1_next_scalar utf_lib1_next_alone)
    (simp_all add: utf_lib1_def unicode_lib1_def decode_utf8_bytes U_IS_SURROGATE_LEAD_def)

theorem utf8_roundtrip_witness:
  "utf8 utf_lib1 False [0xE9, 0xD83D, 0xDE00] = Inr [195, 169, 240, 159, 152, 128] \<and>
   fromUTF8 unicode_lib1 utf_lib1 3 [195, 169, 240, 159, 152, 128] = Inr (Some [0xE9, 0xD83D, 0xDE00])"
proof -
  have "lenient_bytes (code_points [0xE9, 0xD83D, 0xDE00]) = [195, 169, 240, 159, 152, 128]"
    "list_all scalar (code_points [0xE9, 0xD83D, 0xDE00])"
    by (simp_all add: U_IS_SURROGATE_LEAD_def U_IS_SURROGATE_def utf8_bytes_def scalar_def)
  with utf8_roundtrip [OF utf_lib1_codec, of "[0xE9, 0xD83D, 0xDE00]" 3] show ?thesis
    by (simp add: MaxLength_def)
qed

end
