(* ===== verification/Request_Query.thy ===== *)
theory Request_Query
  imports JSON_Facts WTF_UTF8
begin

text \<open>
  What the data tasks for local commands and databases share when they read a request
  (src/Source/PurCFetcher/network/NetworkDataTaskLcmd.cpp, and with the same text in
  NetworkDataTaskLsql.cpp and NetworkDataTaskRsql.cpp): the percent-decoding of a query parameter,
  its name and value, and the substitution of parameters in a command line. The substitution loop
  works on positions; it is equivalent to a rewriting of the text from left to right.
\<close>

section \<open>Percent-decoding\<close>

text \<open>A unit of a 16-bit string is truncated to the eight bits of an \<open>LChar\<close>.\<close>

fun percentDecoded :: "WString \<Rightarrow> nat list" where
  "percentDecoded (c # a # b # s) =
     (if c = 37 \<and> isASCIIHexDigit a \<and> isASCIIHexDigit b
      then toASCIIHexValue2 a b # percentDecoded s
      else c mod 256 # percentDecoded (a # b # s))"
| "percentDecoded [c, a] = [c mod 256, a mod 256]"
| "percentDecoded [c] = [c mod 256]"
| "percentDecoded [] = []"

definition decodeEscapeSequencesFromParsedURL ::
  "unicode_lib \<Rightarrow> utf_lib \<Rightarrow> WString \<Rightarrow> WString option res" where
  "decodeEscapeSequencesFromParsedURL lib utf input =
     (if input = [] then Inr (Some []) else fromUTF8 lib utf 0 (percentDecoded input))"

section \<open>Parameters\<close>

text \<open>\<open>None\<close>: the decoded parameter, its name and its value are the null string.\<close>

definition query_param ::
  "unicode_lib \<Rightarrow> utf_lib \<Rightarrow> WString \<Rightarrow> (WString \<times> WString) option res" where
  "query_param lib utf param =
     bind_res (decodeEscapeSequencesFromParsedURL lib utf param) (\<lambda>decode.
       case decode of
         None \<Rightarrow> Inr None
       | Some decode \<Rightarrow>
           let index = (case find_UChar decode 61 0 of None \<Rightarrow> length decode | Some i \<Rightarrow> i)
           in Inr (Some (stripWhiteSpace lib (substring decode 0 index),
                         stripWhiteSpace lib (substring_from decode (index + 1)))))"

text \<open>A hash map of strings calls the hash function of its key.\<close>

definition paramMap_set ::
  "(WString \<times> WString) option \<Rightarrow> (WString \<rightharpoonup> WString) \<Rightarrow> (WString \<rightharpoonup> WString) res" where
  "paramMap_set param m =
     (case param of None \<Rightarrow> Inl NullDereference | Some (name, value) \<Rightarrow> Inr (m(name \<mapsto> value)))"

section \<open>Substitution of parameters\<close>

definition is_letter :: "UChar \<Rightarrow> bool" where
  "is_letter c \<longleftrightarrow> 97 \<le> c \<and> c \<le> 122 \<or> 65 \<le> c \<and> c \<le> 90"

definition is_name_char :: "UChar \<Rightarrow> bool" where
  "is_name_char c \<longleftrightarrow> 48 \<le> c \<and> c \<le> 57 \<or> 97 \<le> c \<and> c \<le> 122 \<or> 65 \<le> c \<and> c \<le> 90 \<or> c = 95"

text \<open>The loop that collects a name: the position after it, and the name.\<close>

function name_loop :: "WString \<Rightarrow> nat \<Rightarrow> WString \<Rightarrow> nat \<times> WString" where
  "name_loop s e sb =
     (if e < length s \<and> is_name_char (s ! e) then name_loop s (e + 1) (sb @ [s ! e]) else (e, sb))"
  by auto
termination by (relation "measure (\<lambda>(s, e, sb). length s - e)") auto

declare name_loop.simps [simp del]

text \<open>
  The text up to the dollar sign at or after position \<open>e\<close>, and its position; without one, the rest
  of the text.
\<close>

definition up_to_dollar :: "WString \<Rightarrow> nat \<Rightarrow> nat option \<times> WString" where
  "up_to_dollar s e =
     (case find_UChar s 36 e of
        Some start \<Rightarrow> (Some start, substring s e (start - e))
      | None \<Rightarrow> (None, substring_from s e))"

lemma up_to_dollar_progress: "up_to_dollar s e = (Some start, text) \<Longrightarrow> e \<le> start \<and> start < length s"
  using find_UChar_Some [of s 36 e] by (auto simp: up_to_dollar_def split: option.splits)

lemma name_loop_grows: "fst (name_loop s e sb) \<ge> e"
proof (induction s e sb rule: name_loop.induct)
  case (1 s e sb)
  then show ?case by (subst name_loop.simps) auto
qed

lemma name_loop_grows_letter: "e < length s \<Longrightarrow> is_letter (s ! e) \<Longrightarrow> e < fst (name_loop s e sb)"
  using name_loop_grows [of "e + 1" s]
  by (subst name_loop.simps) (auto simp: is_letter_def is_name_char_def Suc_le_eq)

lemma name_end:
  "(e', sb) = name_loop s e [] \<Longrightarrow> \<not> length s \<le> e \<Longrightarrow> is_letter (s ! e) \<Longrightarrow> e < e'"
  using name_loop_grows_letter [of e s "[]"] by (cases "name_loop s e []") simp

text \<open>\<open>end = start + 1\<close>, which is 0 when \<open>start\<close> is \<open>notFound\<close>.\<close>

definition after :: "nat option \<Rightarrow> nat" where
  "after start = (case start of None \<Rightarrow> 0 | Some i \<Rightarrow> i + 1)"

text \<open>The main loop: \<open>start\<close> is the position of a dollar sign, \<open>e\<close> the position after it.\<close>

function dollar_loop ::
  "(WString \<rightharpoonup> WString) \<Rightarrow> WString \<Rightarrow> nat option \<Rightarrow> nat \<Rightarrow> WString \<Rightarrow> WString" where
  "dollar_loop paramMap s None e resultSb = resultSb"
| "dollar_loop paramMap s (Some start) e resultSb =
     (if length s \<le> e then resultSb
      else if s ! e = 36
      then let (start', text) = up_to_dollar s (e + 1)
           in dollar_loop paramMap s start' (after start') (resultSb @ [36] @ text)
      else if \<not> is_letter (s ! e)
      then let (start', text) = up_to_dollar s (e + 1)
           in dollar_loop paramMap s start' (after start') (resultSb @ substring s start 2 @ text)
      else
        let (e', sb) = name_loop s e [];
            resultSb = resultSb @ (case paramMap sb of None \<Rightarrow> [] | Some value \<Rightarrow> value)
        in if length s \<le> e' then resultSb
           else let (start', text) = up_to_dollar s e'
                in dollar_loop paramMap s start' (after start') (resultSb @ text))"
  by pat_completeness auto
termination
  by (relation "measure (\<lambda>(m, s, start, e, _).
        case start of None \<Rightarrow> 0 | Some _ \<Rightarrow> Suc (length s - e))")
    (auto simp: after_def dest!: up_to_dollar_progress [OF sym] dest: name_end split: option.splits)


declare dollar_loop.simps(2) [simp del]

definition parseCmdLine :: "(WString \<rightharpoonup> WString) \<Rightarrow> WString \<Rightarrow> WString" where
  "parseCmdLine paramMap cmdLine =
     (if cmdLine = [] then cmdLine
      else case find_UChar cmdLine 36 0 of
          None \<Rightarrow> cmdLine
        | Some start \<Rightarrow>
            dollar_loop paramMap cmdLine (Some start) (start + 1) (substring cmdLine 0 start))"

section \<open>The substitution from left to right\<close>

text \<open>
  A dollar sign followed by a letter names a parameter, which is replaced by its value, or by nothing
  when there is none; two dollar signs are one; a dollar sign before any other character stands for
  itself, and one at the end of the text disappears.
\<close>

function expand :: "(WString \<rightharpoonup> WString) \<Rightarrow> WString \<Rightarrow> WString" where
  "expand m [] = []"
| "expand m (c # s) =
     (if c \<noteq> 36 then c # expand m s
      else case s of
          [] \<Rightarrow> []
        | d # s' \<Rightarrow>
            if d = 36 then 36 # expand m s'
            else if is_letter d
            then (case m (takeWhile is_name_char s) of None \<Rightarrow> [] | Some value \<Rightarrow> value) @
              expand m (dropWhile is_name_char s)
            else 36 # d # expand m s')"
  by pat_completeness auto
termination
  by (relation "measure (length \<circ> snd)") (auto intro: le_less_trans [OF length_dropWhile_le])

lemma name_loop_eq:
  "name_loop s e sb =
     (e + length (takeWhile is_name_char (drop e s)), sb @ takeWhile is_name_char (drop e s))"
proof (induction s e sb rule: name_loop.induct)
  case (1 s e sb)
  show ?case
  proof (cases "e < length s")
    case True
    then have "drop e s = s ! e # drop (Suc e) s" by (rule Cons_nth_drop_Suc [symmetric])
    with 1 True show ?thesis by (subst name_loop.simps) auto
  qed (subst name_loop.simps, auto)
qed

lemma expand_append: "36 \<notin> set p \<Longrightarrow> expand m (p @ q) = p @ expand m q"
  by (induction p) auto

lemma expand_no_dollar: "36 \<notin> set p \<Longrightarrow> expand m p = p"
  using expand_append [of p m "[]"] by simp

lemma up_to_dollar_eq:
  "up_to_dollar s e = (Some start, text) \<Longrightarrow>
     e \<le> start \<and> start < length s \<and> s ! start = 36 \<and> 36 \<notin> set text \<and> drop e s = text @ drop start s"
  "up_to_dollar s e = (None, text) \<Longrightarrow> 36 \<notin> set text \<and> text = drop e s"
  using find_UChar_Some [of s 36 e start] find_UChar_decomp [of s 36 e start]
    Cons_nth_drop_Suc [of start s]
  by (auto simp: up_to_dollar_def find_UChar_None split: option.splits)

lemma dollar_loop_eq:
  "start < length s \<Longrightarrow> s ! start = 36 \<Longrightarrow>
     dollar_loop m s (Some start) (start + 1) result = result @ expand m (drop start s)"
proof (induction "length s - start" arbitrary: start result rule: less_induct)
  case less
  let ?e = "Suc start"
  have d: "drop start s = 36 # drop ?e s" using less.prems by (metis Cons_nth_drop_Suc)
  have skip: "(let (start', text) = up_to_dollar s e'
      in dollar_loop m s start' (after start') (r @ text)) = r @ expand m (drop e' s)"
    if "start < e'" for e' r
  proof (cases "up_to_dollar s e'")
    case (Pair start' txt')
    then show ?thesis
      using that less.hyps up_to_dollar_eq [of s e']
      by (cases start') (auto simp: after_def expand_append expand_no_dollar diff_less_mono2)
  qed
  show ?case
  proof (cases "?e < length s")
    case True
    then have e: "drop ?e s = s ! ?e # drop (Suc ?e) s" by (simp add: Cons_nth_drop_Suc)
    consider (dollar) "s ! ?e = 36" | (other) "s ! ?e \<noteq> 36" "\<not> is_letter (s ! ?e)"
      | (letter) "s ! ?e \<noteq> 36" "is_letter (s ! ?e)" by blast
    then show ?thesis
    proof cases
      case dollar
      with True skip [of "Suc ?e" "result @ [36]"] show ?thesis
        by (simp add: dollar_loop.simps(2) d e)
    next
      case other
      with True skip [of "Suc ?e" "result @ [36, s ! ?e]"] d e show ?thesis
        by (simp add: dollar_loop.simps(2))
    next
      case letter
      define n where "n = takeWhile is_name_char (drop ?e s)"
      have n: "drop (?e + length n) s = dropWhile is_name_char (drop ?e s)"
        by (simp add: n_def dropWhile_eq_drop add.commute)
      define r where "r = result @ (case m n of None \<Rightarrow> [] | Some value \<Rightarrow> value)"
      have "expand m (drop start s) =
          (case m n of None \<Rightarrow> [] | Some value \<Rightarrow> value) @ expand m (drop (?e + length n) s)"
        unfolding n using letter by (simp add: d e n_def)
      then show ?thesis
        using True letter skip [of "?e + length n" r] 
        by (simp add: dollar_loop.simps(2) name_loop_eq n_def [symmetric] r_def Let_def)
    qed
  next
    case False
    then show ?thesis using d by (simp add: dollar_loop.simps(2))
  qed
qed

lemma dollar_loop_expands:
  assumes "find_UChar s 36 0 = Some start"
  shows "dollar_loop m s (Some start) (start + 1) (substring s 0 start) = expand m s"
proof -
  note f = find_UChar_Some [OF assms] and decomp = find_UChar_decomp [OF assms]
  from decomp have "s = take start s @ drop start s" by simp
  with f(4) have "expand m s = take start s @ expand m (drop start s)"
    by (metis expand_append diff_zero drop_0)
  with f(2,3) dollar_loop_eq [of start s m "take start s"] show ?thesis by simp
qed

text \<open>
  C9: the substitution of parameters in a command line, a loop over the positions of the dollar
  signs, is the rewriting of the line from left to right.
\<close>

theorem parseCmdLine_expands: "parseCmdLine paramMap cmdLine = expand paramMap cmdLine"
proof (cases "find_UChar cmdLine 36 0")
  case None
  moreover from None have "36 \<notin> set cmdLine" by (simp add: find_UChar_None)
  ultimately show ?thesis by (simp add: parseCmdLine_def expand_no_dollar)
next
  case (Some start)
  then have "cmdLine \<noteq> []" by (auto simp: find_UChar_def)
  with Some dollar_loop_expands [OF Some, of paramMap] show ?thesis by (simp add: parseCmdLine_def)
qed

section \<open>Encoded parameters\<close>

text \<open>
  The texts that stand for a sequence of bytes: each byte is written as it is, unless it is the
  percent sign, or as a percent sign with two hexadecimal digits of either case. One text may mix
  both ways.
\<close>

definition hex_value :: "UChar \<Rightarrow> nat option" where
  "hex_value c =
     (if c \<in> {48..57} then Some (c - 48) else if c \<in> {65..70} then Some (c - 55)
      else if c \<in> {97..102} then Some (c - 87) else None)"

inductive percent_coded :: "nat list \<Rightarrow> WString \<Rightarrow> bool" where
  coded_end: "percent_coded [] []"
| coded_literal: "b < 256 \<Longrightarrow> b \<noteq> 37 \<Longrightarrow> percent_coded bs s \<Longrightarrow> percent_coded (b # bs) (b # s)"
| coded_escape: "hex_value h = Some u \<Longrightarrow> hex_value l = Some v \<Longrightarrow> b = 16 * u + v \<Longrightarrow>
    percent_coded bs s \<Longrightarrow> percent_coded (b # bs) (37 # h # l # s)"

lemma hex_value_read:
  assumes "hex_value c = Some v"
  shows "isASCIIHexDigit c" and "toASCIIHexValue c = v" and "v < 16"
proof -
  have "48 \<le> c \<and> c \<le> 57 \<and> v = c - 48 \<or> 65 \<le> c \<and> c \<le> 70 \<and> v = c - 55 \<or> 97 \<le> c \<and> c \<le> 102 \<and> v = c - 87"
    using assms by (auto simp: hex_value_def split: if_splits)
  then consider (digit) "48 \<le> c" "c \<le> 57" "v = c - 48"
    | (letter) "c \<in> {65, 66, 67, 68, 69, 70, 97, 98, 99, 100, 101, 102}" "v = (if c < 97 then c - 55 else c - 87)"
    by fastforce
  then show "isASCIIHexDigit c" "toASCIIHexValue c = v" "v < 16"
    by (cases; auto simp: isASCIIHexDigit_def isASCIIDigit_def toASCIILowerUnchecked_def
        toASCIIHexValue_def and_15)+
qed

lemma hex_values_read:
  assumes "hex_value h = Some u" and "hex_value l = Some v"
  shows "toASCIIHexValue2 h l = 16 * u + v"
  using hex_value_read [OF assms(1)] hex_value_read [OF assms(2)] high_or_low [of 4 "16 * u + v"]
  by (simp add: toASCIIHexValue2_def)

lemma percentDecoded_literal: "c \<noteq> 37 \<Longrightarrow> percentDecoded (c # s) = c mod 256 # percentDecoded s"
  by (cases s rule: percentDecoded.cases) simp_all

lemma percentDecoded_coded: "percent_coded bs s \<Longrightarrow> percentDecoded s = bs"
  by (induction rule: percent_coded.induct)
    (simp_all add: percentDecoded_literal hex_value_read hex_values_read)

lemma decode_coded:
  assumes "utf_codec lib utf" and "list_all scalar cs"
    and "length (concat (map utf8_bytes cs)) \<le> MaxLength"
    and "percent_coded (concat (map utf8_bytes cs)) s"
  shows "decodeEscapeSequencesFromParsedURL lib utf s = Inr (Some (concat (map utf16_units cs)))"
proof (cases "s = []")
  case True
  with percentDecoded_coded [OF assms(4)] have "concat (map utf8_bytes cs) = []" by simp
  then have "cs = []" using utf8_bytes_length(1) [of "hd cs"] by (cases cs) auto
  with True show ?thesis by (simp add: decodeEscapeSequencesFromParsedURL_def)
next
  case False
  with percentDecoded_coded [OF assms(4)] fromUTF8_scalars [OF assms(1-3)] show ?thesis
    by (simp add: decodeEscapeSequencesFromParsedURL_def)
qed

lemma find_UChar_first: "c \<notin> set p \<Longrightarrow> find_UChar (p @ c # s) c 0 = Some (length p)"
proof -
  assume "c \<notin> set p"
  then have "takeWhile (\<lambda>x. x \<noteq> c) (p @ c # s) = p" by (induction p) auto
  then show ?thesis by (simp add: find_UChar_def find_loop_takeWhile)
qed

text \<open>
  C19: a query parameter is read back from every text that stands for the UTF-8 bytes of its name, an
  equals sign and its value, each byte literal or percent-encoded, for every name without an equals
  sign and every value, when neither starts or ends with white space.
\<close>

theorem query_param_roundtrip:
  assumes "utf_codec lib utf" and "list_all (\<lambda>c. c < 0x10000) (name @ value)"
    and "list_all scalar (code_points (name @ [61] @ value))" and "3 * length (name @ [61] @ value) \<le> MaxLength"
    and "61 \<notin> set name" and "stripWhiteSpace lib name = name" and "stripWhiteSpace lib value = value"
    and "percent_coded (concat (map utf8_bytes (code_points (name @ [61] @ value)))) param"
  shows "query_param lib utf param = Inr (Some (name, value))"
proof -
  let ?s = "name @ [61] @ value"
  have "concat (map utf16_units (code_points ?s)) = ?s"
    using assms(2) by (intro units_code_points) auto
  with decode_coded [OF assms(1,3) _ assms(8)] utf8_bytes_total_length [of "code_points ?s"] assms(4)
  have "decodeEscapeSequencesFromParsedURL lib utf param = Inr (Some ?s)"
    by simp
  with assms(5,6,7) show ?thesis by (simp add: query_param_def find_UChar_first)
qed

theorem query_param_roundtrip_witness:
  "query_param unicode_lib1 utf_lib1 (ascii ''k=a%C3%a9'') = Inr (Some (ascii ''k'', [97, 0xE9]))"
proof (rule query_param_roundtrip [OF utf_lib1_codec])
  show "percent_coded (concat (map utf8_bytes (code_points (ascii ''k'' @ [61] @ [97, 0xE9]))))
      (ascii ''k=a%C3%a9'')"
    by (simp add: ascii_def utf8_bytes_def U_IS_SURROGATE_LEAD_def)
      ((intro percent_coded.intros; simp add: hex_value_def), simp_all)
qed (simp_all add: ascii_def scalar_def U_IS_SURROGATE_LEAD_def MaxLength_def stripWhiteSpace_def
    stripMatchedCharacters_eq isSpaceOrNewline_def isASCIISpace_def)

end
