(* ===== verification/HTTP_Header_Names.thy ===== *)
theory HTTP_Header_Names
  imports WTF_Text
begin

text \<open>
  The names of HTTP header fields (src/Source/PurCFetcher/auxiliary/HTTPHeaderNames.h and
  HTTPHeaderNames.cpp): the enumeration, its strings, and the lookup by a perfect hash that gperf
  generated into the repository. The lookup reads no table out of bounds and finds exactly the names
  of the enumeration, in any mixture of case.
\<close>

section \<open>Names and tables\<close>

text \<open>An enumerator is its number, in the order of declaration.\<close>

type_synonym HTTPHeaderName = nat

abbreviation (input) "HTTPHeaderName_Accept \<equiv> (0::HTTPHeaderName)"
abbreviation (input) "HTTPHeaderName_AcceptCharset \<equiv> (1::HTTPHeaderName)"
abbreviation (input) "HTTPHeaderName_AcceptEncoding \<equiv> (2::HTTPHeaderName)"
abbreviation (input) "HTTPHeaderName_AcceptLanguage \<equiv> (3::HTTPHeaderName)"
abbreviation (input) "HTTPHeaderName_AcceptRanges \<equiv> (4::HTTPHeaderName)"
abbreviation (input) "HTTPHeaderName_AccessControlAllowCredentials \<equiv> (5::HTTPHeaderName)"
abbreviation (input) "HTTPHeaderName_AccessControlAllowHeaders \<equiv> (6::HTTPHeaderName)"
abbreviation (input) "HTTPHeaderName_AccessControlAllowMethods \<equiv> (7::HTTPHeaderName)"
abbreviation (input) "HTTPHeaderName_AccessControlAllowOrigin \<equiv> (8::HTTPHeaderName)"
abbreviation (input) "HTTPHeaderName_AccessControlExposeHeaders \<equiv> (9::HTTPHeaderName)"
abbreviation (input) "HTTPHeaderName_AccessControlMaxAge \<equiv> (10::HTTPHeaderName)"
abbreviation (input) "HTTPHeaderName_AccessControlRequestHeaders \<equiv> (11::HTTPHeaderName)"
abbreviation (input) "HTTPHeaderName_AccessControlRequestMethod \<equiv> (12::HTTPHeaderName)"
abbreviation (input) "HTTPHeaderName_Age \<equiv> (13::HTTPHeaderName)"
abbreviation (input) "HTTPHeaderName_Authorization \<equiv> (14::HTTPHeaderName)"
abbreviation (input) "HTTPHeaderName_CacheControl \<equiv> (15::HTTPHeaderName)"
abbreviation (input) "HTTPHeaderName_Connection \<equiv> (16::HTTPHeaderName)"
abbreviation (input) "HTTPHeaderName_ContentDisposition \<equiv> (17::HTTPHeaderName)"
abbreviation (input) "HTTPHeaderName_ContentEncoding \<equiv> (18::HTTPHeaderName)"
abbreviation (input) "HTTPHeaderName_ContentLanguage \<equiv> (19::HTTPHeaderName)"
abbreviation (input) "HTTPHeaderName_ContentLength \<equiv> (20::HTTPHeaderName)"
abbreviation (input) "HTTPHeaderName_ContentLocation \<equiv> (21::HTTPHeaderName)"
abbreviation (input) "HTTPHeaderName_ContentRange \<equiv> (22::HTTPHeaderName)"
abbreviation (input) "HTTPHeaderName_ContentSecurityPolicy \<equiv> (23::HTTPHeaderName)"
abbreviation (input) "HTTPHeaderName_ContentSecurityPolicyReportOnly \<equiv> (24::HTTPHeaderName)"
abbreviation (input) "HTTPHeaderName_ContentType \<equiv> (25::HTTPHeaderName)"
abbreviation (input) "HTTPHeaderName_Cookie \<equiv> (26::HTTPHeaderName)"
abbreviation (input) "HTTPHeaderName_Cookie2 \<equiv> (27::HTTPHeaderName)"
abbreviation (input) "HTTPHeaderName_CrossOriginResourcePolicy \<equiv> (28::HTTPHeaderName)"
abbreviation (input) "HTTPHeaderName_DNT \<equiv> (29::HTTPHeaderName)"
abbreviation (input) "HTTPHeaderName_Date \<equiv> (30::HTTPHeaderName)"
abbreviation (input) "HTTPHeaderName_DefaultStyle \<equiv> (31::HTTPHeaderName)"
abbreviation (input) "HTTPHeaderName_ETag \<equiv> (32::HTTPHeaderName)"
abbreviation (input) "HTTPHeaderName_Expect \<equiv> (33::HTTPHeaderName)"
abbreviation (input) "HTTPHeaderName_Expires \<equiv> (34::HTTPHeaderName)"
abbreviation (input) "HTTPHeaderName_Host \<equiv> (35::HTTPHeaderName)"
abbreviation (input) "HTTPHeaderName_IcyMetaInt \<equiv> (36::HTTPHeaderName)"
abbreviation (input) "HTTPHeaderName_IcyMetadata \<equiv> (37::HTTPHeaderName)"
abbreviation (input) "HTTPHeaderName_IfMatch \<equiv> (38::HTTPHeaderName)"
abbreviation (input) "HTTPHeaderName_IfModifiedSince \<equiv> (39::HTTPHeaderName)"
abbreviation (input) "HTTPHeaderName_IfNoneMatch \<equiv> (40::HTTPHeaderName)"
abbreviation (input) "HTTPHeaderName_IfRange \<equiv> (41::HTTPHeaderName)"
abbreviation (input) "HTTPHeaderName_IfUnmodifiedSince \<equiv> (42::HTTPHeaderName)"
abbreviation (input) "HTTPHeaderName_KeepAlive \<equiv> (43::HTTPHeaderName)"
abbreviation (input) "HTTPHeaderName_LastEventID \<equiv> (44::HTTPHeaderName)"
abbreviation (input) "HTTPHeaderName_LastModified \<equiv> (45::HTTPHeaderName)"
abbreviation (input) "HTTPHeaderName_Link \<equiv> (46::HTTPHeaderName)"
abbreviation (input) "HTTPHeaderName_Location \<equiv> (47::HTTPHeaderName)"
abbreviation (input) "HTTPHeaderName_Origin \<equiv> (48::HTTPHeaderName)"
abbreviation (input) "HTTPHeaderName_PingFrom \<equiv> (49::HTTPHeaderName)"
abbreviation (input) "HTTPHeaderName_PingTo \<equiv> (50::HTTPHeaderName)"
abbreviation (input) "HTTPHeaderName_Pragma \<equiv> (51::HTTPHeaderName)"
abbreviation (input) "HTTPHeaderName_ProxyAuthorization \<equiv> (52::HTTPHeaderName)"
abbreviation (input) "HTTPHeaderName_Purpose \<equiv> (53::HTTPHeaderName)"
abbreviation (input) "HTTPHeaderName_Range \<equiv> (54::HTTPHeaderName)"
abbreviation (input) "HTTPHeaderName_Referer \<equiv> (55::HTTPHeaderName)"
abbreviation (input) "HTTPHeaderName_ReferrerPolicy \<equiv> (56::HTTPHeaderName)"
abbreviation (input) "HTTPHeaderName_Refresh \<equiv> (57::HTTPHeaderName)"
abbreviation (input) "HTTPHeaderName_SecWebSocketAccept \<equiv> (58::HTTPHeaderName)"
abbreviation (input) "HTTPHeaderName_SecWebSocketExtensions \<equiv> (59::HTTPHeaderName)"
abbreviation (input) "HTTPHeaderName_SecWebSocketKey \<equiv> (60::HTTPHeaderName)"
abbreviation (input) "HTTPHeaderName_SecWebSocketProtocol \<equiv> (61::HTTPHeaderName)"
abbreviation (input) "HTTPHeaderName_SecWebSocketVersion \<equiv> (62::HTTPHeaderName)"
abbreviation (input) "HTTPHeaderName_ServerTiming \<equiv> (63::HTTPHeaderName)"
abbreviation (input) "HTTPHeaderName_ServiceWorker \<equiv> (64::HTTPHeaderName)"
abbreviation (input) "HTTPHeaderName_ServiceWorkerAllowed \<equiv> (65::HTTPHeaderName)"
abbreviation (input) "HTTPHeaderName_SetCookie \<equiv> (66::HTTPHeaderName)"
abbreviation (input) "HTTPHeaderName_SetCookie2 \<equiv> (67::HTTPHeaderName)"
abbreviation (input) "HTTPHeaderName_SourceMap \<equiv> (68::HTTPHeaderName)"
abbreviation (input) "HTTPHeaderName_TE \<equiv> (69::HTTPHeaderName)"
abbreviation (input) "HTTPHeaderName_TimingAllowOrigin \<equiv> (70::HTTPHeaderName)"
abbreviation (input) "HTTPHeaderName_Trailer \<equiv> (71::HTTPHeaderName)"
abbreviation (input) "HTTPHeaderName_TransferEncoding \<equiv> (72::HTTPHeaderName)"
abbreviation (input) "HTTPHeaderName_Upgrade \<equiv> (73::HTTPHeaderName)"
abbreviation (input) "HTTPHeaderName_UpgradeInsecureRequests \<equiv> (74::HTTPHeaderName)"
abbreviation (input) "HTTPHeaderName_UserAgent \<equiv> (75::HTTPHeaderName)"
abbreviation (input) "HTTPHeaderName_Vary \<equiv> (76::HTTPHeaderName)"
abbreviation (input) "HTTPHeaderName_Via \<equiv> (77::HTTPHeaderName)"
abbreviation (input) "HTTPHeaderName_XContentTypeOptions \<equiv> (78::HTTPHeaderName)"
abbreviation (input) "HTTPHeaderName_XDNSPrefetchControl \<equiv> (79::HTTPHeaderName)"
abbreviation (input) "HTTPHeaderName_XFrameOptions \<equiv> (80::HTTPHeaderName)"
abbreviation (input) "HTTPHeaderName_XSourceMap \<equiv> (81::HTTPHeaderName)"
abbreviation (input) "HTTPHeaderName_XTempTablet \<equiv> (82::HTTPHeaderName)"
abbreviation (input) "HTTPHeaderName_XXSSProtection \<equiv> (83::HTTPHeaderName)"

definition headerNameStrings :: "WString list" where
  "headerNameStrings =
     [ascii ''Accept'', ascii ''Accept-Charset'', ascii ''Accept-Encoding'',
      ascii ''Accept-Language'', ascii ''Accept-Ranges'',
      ascii ''Access-Control-Allow-Credentials'', ascii ''Access-Control-Allow-Headers'',
      ascii ''Access-Control-Allow-Methods'', ascii ''Access-Control-Allow-Origin'',
      ascii ''Access-Control-Expose-Headers'', ascii ''Access-Control-Max-Age'',
      ascii ''Access-Control-Request-Headers'', ascii ''Access-Control-Request-Method'',
      ascii ''Age'', ascii ''Authorization'', ascii ''Cache-Control'', ascii ''Connection'',
      ascii ''Content-Disposition'', ascii ''Content-Encoding'', ascii ''Content-Language'',
      ascii ''Content-Length'', ascii ''Content-Location'', ascii ''Content-Range'',
      ascii ''Content-Security-Policy'', ascii ''Content-Security-Policy-Report-Only'',
      ascii ''Content-Type'', ascii ''Cookie'', ascii ''Cookie2'',
      ascii ''Cross-Origin-Resource-Policy'', ascii ''DNT'', ascii ''Date'',
      ascii ''Default-Style'', ascii ''ETag'', ascii ''Expect'', ascii ''Expires'',
      ascii ''Host'', ascii ''Icy-MetaInt'', ascii ''Icy-Metadata'', ascii ''If-Match'',
      ascii ''If-Modified-Since'', ascii ''If-None-Match'', ascii ''If-Range'',
      ascii ''If-Unmodified-Since'', ascii ''Keep-Alive'', ascii ''Last-Event-ID'',
      ascii ''Last-Modified'', ascii ''Link'', ascii ''Location'', ascii ''Origin'',
      ascii ''Ping-From'', ascii ''Ping-To'', ascii ''Pragma'', ascii ''Proxy-Authorization'',
      ascii ''Purpose'', ascii ''Range'', ascii ''Referer'', ascii ''Referrer-Policy'',
      ascii ''Refresh'', ascii ''Sec-WebSocket-Accept'', ascii ''Sec-WebSocket-Extensions'',
      ascii ''Sec-WebSocket-Key'', ascii ''Sec-WebSocket-Protocol'',
      ascii ''Sec-WebSocket-Version'', ascii ''Server-Timing'', ascii ''Service-Worker'',
      ascii ''Service-Worker-Allowed'', ascii ''Set-Cookie'', ascii ''Set-Cookie2'',
      ascii ''SourceMap'', ascii ''TE'', ascii ''Timing-Allow-Origin'', ascii ''Trailer'',
      ascii ''Transfer-Encoding'', ascii ''Upgrade'', ascii ''Upgrade-Insecure-Requests'',
      ascii ''User-Agent'', ascii ''Vary'', ascii ''Via'', ascii ''X-Content-Type-Options'',
      ascii ''X-DNS-Prefetch-Control'', ascii ''X-Frame-Options'', ascii ''X-SourceMap'',
      ascii ''X-Temp-Tablet'', ascii ''X-XSS-Protection'']"

definition httpHeaderNameString :: "HTTPHeaderName \<Rightarrow> WString" where
  "httpHeaderNameString headerName = headerNameStrings ! headerName"

definition header_name_wordlist :: "(WString \<times> HTTPHeaderName) list" where
  "header_name_wordlist =
     [(ascii ''Host'', HTTPHeaderName_Host), (ascii ''Origin'', HTTPHeaderName_Origin),
      (ascii ''DNT'', HTTPHeaderName_DNT), (ascii ''TE'', HTTPHeaderName_TE),
      (ascii ''Cookie'', HTTPHeaderName_Cookie), (ascii ''Age'', HTTPHeaderName_Age),
      (ascii ''Cookie2'', HTTPHeaderName_Cookie2), (ascii ''ETag'', HTTPHeaderName_ETag),
      (ascii ''Range'', HTTPHeaderName_Range), (ascii ''Date'', HTTPHeaderName_Date),
      (ascii ''Connection'', HTTPHeaderName_Connection),
      (ascii ''Set-Cookie'', HTTPHeaderName_SetCookie),
      (ascii ''Set-Cookie2'', HTTPHeaderName_SetCookie2),
      (ascii ''Ping-To'', HTTPHeaderName_PingTo), (ascii ''Link'', HTTPHeaderName_Link),
      (ascii ''Location'', HTTPHeaderName_Location),
      (ascii ''Content-Range'', HTTPHeaderName_ContentRange),
      (ascii ''Content-Encoding'', HTTPHeaderName_ContentEncoding),
      (ascii ''Accept'', HTTPHeaderName_Accept),
      (ascii ''Authorization'', HTTPHeaderName_Authorization),
      (ascii ''Trailer'', HTTPHeaderName_Trailer), (ascii ''If-Range'', HTTPHeaderName_IfRange),
      (ascii ''Content-Disposition'', HTTPHeaderName_ContentDisposition),
      (ascii ''Cache-Control'', HTTPHeaderName_CacheControl),
      (ascii ''User-Agent'', HTTPHeaderName_UserAgent),
      (ascii ''Refresh'', HTTPHeaderName_Refresh),
      (ascii ''Content-Location'', HTTPHeaderName_ContentLocation),
      (ascii ''Content-Length'', HTTPHeaderName_ContentLength),
      (ascii ''Accept-Ranges'', HTTPHeaderName_AcceptRanges),
      (ascii ''Accept-Encoding'', HTTPHeaderName_AcceptEncoding),
      (ascii ''Accept-Charset'', HTTPHeaderName_AcceptCharset),
      (ascii ''Referer'', HTTPHeaderName_Referer), (ascii ''Upgrade'', HTTPHeaderName_Upgrade),
      (ascii ''Pragma'', HTTPHeaderName_Pragma),
      (ascii ''Content-Type'', HTTPHeaderName_ContentType),
      (ascii ''Sec-WebSocket-Key'', HTTPHeaderName_SecWebSocketKey),
      (ascii ''Transfer-Encoding'', HTTPHeaderName_TransferEncoding),
      (ascii ''Icy-MetaInt'', HTTPHeaderName_IcyMetaInt),
      (ascii ''If-Match'', HTTPHeaderName_IfMatch), (ascii ''Via'', HTTPHeaderName_Via),
      (ascii ''Purpose'', HTTPHeaderName_Purpose),
      (ascii ''Sec-WebSocket-Accept'', HTTPHeaderName_SecWebSocketAccept),
      (ascii ''Icy-Metadata'', HTTPHeaderName_IcyMetadata),
      (ascii ''Content-Language'', HTTPHeaderName_ContentLanguage),
      (ascii ''If-None-Match'', HTTPHeaderName_IfNoneMatch),
      (ascii ''Ping-From'', HTTPHeaderName_PingFrom),
      (ascii ''Sec-WebSocket-Protocol'', HTTPHeaderName_SecWebSocketProtocol),
      (ascii ''Vary'', HTTPHeaderName_Vary), (ascii ''SourceMap'', HTTPHeaderName_SourceMap),
      (ascii ''Expires'', HTTPHeaderName_Expires), (ascii ''Expect'', HTTPHeaderName_Expect),
      (ascii ''Timing-Allow-Origin'', HTTPHeaderName_TimingAllowOrigin),
      (ascii ''Accept-Language'', HTTPHeaderName_AcceptLanguage),
      (ascii ''Last-Modified'', HTTPHeaderName_LastModified),
      (ascii ''Access-Control-Allow-Origin'', HTTPHeaderName_AccessControlAllowOrigin),
      (ascii ''Service-Worker'', HTTPHeaderName_ServiceWorker),
      (ascii ''Cross-Origin-Resource-Policy'', HTTPHeaderName_CrossOriginResourcePolicy),
      (ascii ''Sec-WebSocket-Extensions'', HTTPHeaderName_SecWebSocketExtensions),
      (ascii ''If-Modified-Since'', HTTPHeaderName_IfModifiedSince),
      (ascii ''Sec-WebSocket-Version'', HTTPHeaderName_SecWebSocketVersion),
      (ascii ''Last-Event-ID'', HTTPHeaderName_LastEventID),
      (ascii ''Access-Control-Request-Headers'', HTTPHeaderName_AccessControlRequestHeaders),
      (ascii ''Referrer-Policy'', HTTPHeaderName_ReferrerPolicy),
      (ascii ''Server-Timing'', HTTPHeaderName_ServerTiming),
      (ascii ''Access-Control-Allow-Headers'', HTTPHeaderName_AccessControlAllowHeaders),
      (ascii ''Content-Security-Policy'', HTTPHeaderName_ContentSecurityPolicy),
      (ascii ''Proxy-Authorization'', HTTPHeaderName_ProxyAuthorization),
      (ascii ''Keep-Alive'', HTTPHeaderName_KeepAlive),
      (ascii ''Default-Style'', HTTPHeaderName_DefaultStyle),
      (ascii ''Access-Control-Request-Method'', HTTPHeaderName_AccessControlRequestMethod),
      (ascii ''If-Unmodified-Since'', HTTPHeaderName_IfUnmodifiedSince),
      (ascii ''X-Content-Type-Options'', HTTPHeaderName_XContentTypeOptions),
      (ascii ''X-SourceMap'', HTTPHeaderName_XSourceMap),
      (ascii ''X-XSS-Protection'', HTTPHeaderName_XXSSProtection),
      (ascii ''Access-Control-Max-Age'', HTTPHeaderName_AccessControlMaxAge),
      (ascii ''Access-Control-Allow-Methods'', HTTPHeaderName_AccessControlAllowMethods),
      (ascii ''Upgrade-Insecure-Requests'', HTTPHeaderName_UpgradeInsecureRequests),
      (ascii ''X-Frame-Options'', HTTPHeaderName_XFrameOptions),
      (ascii ''X-Temp-Tablet'', HTTPHeaderName_XTempTablet),
      (ascii ''Access-Control-Allow-Credentials'', HTTPHeaderName_AccessControlAllowCredentials),
      (ascii ''X-DNS-Prefetch-Control'', HTTPHeaderName_XDNSPrefetchControl),
      (ascii ''Access-Control-Expose-Headers'', HTTPHeaderName_AccessControlExposeHeaders),
      (ascii ''Service-Worker-Allowed'', HTTPHeaderName_ServiceWorkerAllowed),
      (ascii ''Content-Security-Policy-Report-Only'', HTTPHeaderName_ContentSecurityPolicyReportOnly)]"

definition gperf_downcase :: "nat list" where
  "gperf_downcase =
     [0, 1, 2, 3, 4, 5, 6, 7, 8, 9, 10, 11, 12, 13, 14, 15, 16, 17, 18, 19, 20, 21, 22, 23, 24,
      25, 26, 27, 28, 29, 30, 31, 32, 33, 34, 35, 36, 37, 38, 39, 40, 41, 42, 43, 44, 45, 46, 47,
      48, 49, 50, 51, 52, 53, 54, 55, 56, 57, 58, 59, 60, 61, 62, 63, 64, 97, 98, 99, 100, 101,
      102, 103, 104, 105, 106, 107, 108, 109, 110, 111, 112, 113, 114, 115, 116, 117, 118, 119,
      120, 121, 122, 91, 92, 93, 94, 95, 96, 97, 98, 99, 100, 101, 102, 103, 104, 105, 106, 107,
      108, 109, 110, 111, 112, 113, 114, 115, 116, 117, 118, 119, 120, 121, 122, 123, 124, 125,
      126, 127, 128, 129, 130, 131, 132, 133, 134, 135, 136, 137, 138, 139, 140, 141, 142, 143,
      144, 145, 146, 147, 148, 149, 150, 151, 152, 153, 154, 155, 156, 157, 158, 159, 160, 161,
      162, 163, 164, 165, 166, 167, 168, 169, 170, 171, 172, 173, 174, 175, 176, 177, 178, 179,
      180, 181, 182, 183, 184, 185, 186, 187, 188, 189, 190, 191, 192, 193, 194, 195, 196, 197,
      198, 199, 200, 201, 202, 203, 204, 205, 206, 207, 208, 209, 210, 211, 212, 213, 214, 215,
      216, 217, 218, 219, 220, 221, 222, 223, 224, 225, 226, 227, 228, 229, 230, 231, 232, 233,
      234, 235, 236, 237, 238, 239, 240, 241, 242, 243, 244, 245, 246, 247, 248, 249, 250, 251,
      252, 253, 254, 255]"

definition asso_values :: "nat list" where
  "asso_values =
     [511, 511, 511, 511, 511, 511, 511, 511, 511, 511, 511, 511, 511, 511, 511, 511, 511, 511,
      511, 511, 511, 511, 511, 511, 511, 511, 511, 511, 511, 511, 511, 511, 511, 511, 511, 511,
      511, 511, 511, 511, 511, 511, 511, 511, 511, 0, 511, 511, 511, 511, 5, 511, 511, 511, 511,
      511, 511, 511, 511, 511, 511, 511, 511, 511, 511, 10, 0, 5, 10, 20, 70, 0, 4, 0, 511, 4, 55,
      80, 5, 0, 50, 10, 5, 0, 5, 55, 165, 20, 135, 40, 0, 511, 511, 511, 511, 511, 511, 10, 0, 5,
      10, 20, 70, 0, 4, 0, 511, 4, 55, 80, 5, 0, 50, 10, 5, 0, 5, 55, 165, 20, 135, 40, 0, 511,
      511, 511, 511, 511, 511, 511, 511, 511, 511, 511, 511, 511, 511, 511, 511, 511, 511, 511,
      511, 511, 511, 511, 511, 511, 511, 511, 511, 511, 511, 511, 511, 511, 511, 511, 511, 511,
      511, 511, 511, 511, 511, 511, 511, 511, 511, 511, 511, 511, 511, 511, 511, 511, 511, 511,
      511, 511, 511, 511, 511, 511, 511, 511, 511, 511, 511, 511, 511, 511, 511, 511, 511, 511,
      511, 511, 511, 511, 511, 511, 511, 511, 511, 511, 511, 511, 511, 511, 511, 511, 511, 511,
      511, 511, 511, 511, 511, 511, 511, 511, 511, 511, 511, 511, 511, 511, 511, 511, 511, 511,
      511, 511, 511, 511, 511, 511, 511, 511, 511, 511, 511, 511, 511, 511, 511, 511, 511, 511,
      511, 511, 511, 511, 511, 511]"

definition lookup :: "int list" where
  "lookup =
     [- 1, - 1, - 1, - 1, - 1, - 1, - 1, - 1, - 1, 0, 1, - 1, - 1, - 1, - 1, - 1, - 1, - 1, - 1,
      - 1, 2, - 1, - 1, - 1, - 1, 3, - 1, - 1, - 1, 4, 5, - 1, - 1, - 1, 6, 7, - 1, - 1, - 1, - 1,
      8, - 1, - 1, - 1, - 1, 9, - 1, - 1, - 1, - 1, 10, - 1, - 1, - 1, 11, - 1, - 1, - 1, - 1, 12,
      13, - 1, - 1, - 1, 14, - 1, - 1, - 1, - 1, - 1, - 1, - 1, - 1, - 1, - 1, - 1, - 1, - 1, - 1,
      - 1, 15, - 1, - 1, - 1, - 1, 16, - 1, - 1, - 1, - 1, 17, - 1, - 1, - 1, - 1, 18, - 1, - 1,
      - 1, 19, 20, - 1, - 1, - 1, - 1, - 1, - 1, - 1, - 1, - 1, 21, - 1, - 1, - 1, - 1, 22, - 1,
      - 1, - 1, 23, 24, - 1, - 1, - 1, 25, 26, - 1, - 1, - 1, - 1, - 1, - 1, - 1, - 1, 27, 28,
      - 1, - 1, - 1, - 1, 29, - 1, - 1, - 1, 30, 31, - 1, - 1, - 1, - 1, 32, - 1, - 1, - 1, - 1,
      33, - 1, - 1, - 1, - 1, 34, - 1, - 1, 35, - 1, 36, - 1, - 1, - 1, - 1, 37, - 1, - 1, - 1,
      38, 39, - 1, - 1, - 1, - 1, 40, - 1, - 1, - 1, - 1, - 1, - 1, - 1, - 1, - 1, - 1, - 1, - 1,
      - 1, 41, 42, - 1, - 1, - 1, - 1, 43, - 1, - 1, - 1, 44, - 1, - 1, - 1, - 1, - 1, 45, - 1,
      - 1, - 1, - 1, - 1, - 1, - 1, - 1, 46, 47, - 1, - 1, - 1, - 1, 48, - 1, - 1, - 1, - 1, 49,
      - 1, - 1, - 1, - 1, 50, - 1, - 1, - 1, - 1, 51, - 1, - 1, - 1, - 1, - 1, - 1, - 1, - 1, - 1,
      52, - 1, - 1, - 1, - 1, - 1, - 1, - 1, - 1, - 1, 53, - 1, - 1, - 1, - 1, 54, - 1, - 1, - 1,
      55, - 1, - 1, - 1, - 1, - 1, - 1, - 1, - 1, - 1, - 1, 56, - 1, - 1, - 1, - 1, - 1, - 1, - 1,
      - 1, 57, 58, - 1, - 1, - 1, 59, 60, - 1, - 1, - 1, 61, 62, - 1, - 1, - 1, - 1, 63, - 1, - 1,
      - 1, - 1, - 1, - 1, - 1, - 1, - 1, - 1, - 1, - 1, - 1, - 1, - 1, - 1, - 1, - 1, 64, 65, - 1,
      - 1, - 1, 66, - 1, - 1, - 1, - 1, - 1, - 1, - 1, - 1, - 1, - 1, - 1, - 1, - 1, - 1, 67, 68,
      - 1, - 1, - 1, 69, 70, - 1, - 1, - 1, - 1, 71, - 1, - 1, - 1, - 1, 72, - 1, - 1, - 1, - 1,
      73, - 1, - 1, - 1, - 1, 74, - 1, - 1, - 1, 75, 76, - 1, - 1, - 1, - 1, 77, - 1, - 1, - 1,
      - 1, 78, - 1, - 1, - 1, - 1, 79, - 1, - 1, - 1, - 1, - 1, - 1, - 1, - 1, - 1, - 1, - 1, - 1,
      - 1, 80, - 1, - 1, - 1, - 1, 81, - 1, - 1, - 1, - 1, - 1, - 1, - 1, - 1, - 1, - 1, - 1, - 1,
      - 1, - 1, - 1, - 1, - 1, - 1, - 1, - 1, - 1, - 1, - 1, - 1, - 1, - 1, - 1, - 1, - 1, 82,
      - 1, - 1, - 1, - 1, - 1, - 1, - 1, - 1, - 1, - 1, - 1, - 1, - 1, - 1, - 1, - 1, - 1, - 1,
      - 1, - 1, - 1, - 1, - 1, - 1, - 1, - 1, - 1, - 1, - 1, - 1, - 1, - 1, - 1, - 1, - 1, - 1,
      - 1, - 1, - 1, - 1, - 1, - 1, - 1, - 1, - 1, - 1, - 1, - 1, - 1, - 1, - 1, - 1, - 1, - 1,
      - 1, - 1, - 1, - 1, - 1, - 1, - 1, - 1, - 1, - 1, - 1, - 1, - 1, - 1, - 1, - 1, 83]"

section \<open>The lookup\<close>

text \<open>A C string is followed by its terminator; an index behind it is out of bounds.\<close>

definition c_char :: "WString \<Rightarrow> nat \<Rightarrow> nat res" where
  "c_char s i = array_at (s @ [0]) i"

text \<open>The switch on the length falls through from its label down to the first character.\<close>

fun hash_from :: "WString \<Rightarrow> nat \<Rightarrow> nat \<Rightarrow> nat res" where
  "hash_from str 0 hval = Inr hval"
| "hash_from str (Suc i) hval =
     bind_res (array_at str i) (\<lambda>c.
       bind_res (array_at asso_values c) (\<lambda>a. hash_from str i (hval + a)))"

definition header_name_hash_function :: "WString \<Rightarrow> nat \<Rightarrow> nat res" where
  "header_name_hash_function str len =
     hash_from str (if 1 \<le> len \<and> len \<le> 34 then len else 35) 0"

text \<open>Whether \<open>gperf_case_strncmp\<close> returns 0; \<open>i\<close> is the index both pointers have reached.\<close>

fun gperf_case_strncmp :: "WString \<Rightarrow> WString \<Rightarrow> nat \<Rightarrow> nat \<Rightarrow> bool res" where
  "gperf_case_strncmp s1 s2 i 0 = Inr True"
| "gperf_case_strncmp s1 s2 i (Suc n) =
     bind_res (array_at s1 i) (\<lambda>a. bind_res (array_at gperf_downcase a) (\<lambda>c1.
       bind_res (c_char s2 i) (\<lambda>b. bind_res (array_at gperf_downcase b) (\<lambda>c2.
         if c1 \<noteq> 0 \<and> c1 = c2 then gperf_case_strncmp s1 s2 (Suc i) n else Inr (c1 = c2)))))"

text \<open>\<open>((a ^ b) & ~32) == 0\<close>.\<close>

definition same_but_case :: "nat \<Rightarrow> nat \<Rightarrow> bool" where
  "same_but_case a b \<longleftrightarrow> (word_of_nat a XOR word_of_nat b) AND NOT 32 = (0 :: 32 word)"

definition findHeaderNameImpl :: "WString \<Rightarrow> nat \<Rightarrow> HTTPHeaderName option res" where
  "findHeaderNameImpl str len =
     (if len \<le> 35 \<and> 2 \<le> len
      then bind_res (header_name_hash_function str len) (\<lambda>key.
        if key \<le> 510
        then bind_res (array_at lookup key) (\<lambda>index.
          if 0 \<le> index
          then bind_res (array_at header_name_wordlist (nat index)) (\<lambda>(s, headerName).
            bind_res (array_at str 0) (\<lambda>c. bind_res (c_char s 0) (\<lambda>d.
              if \<not> same_but_case c d then Inr None
              else bind_res (gperf_case_strncmp str s 0 len) (\<lambda>equal.
                if \<not> equal then Inr None
                else bind_res (c_char s len) (\<lambda>t.
                  Inr (if t = 0 then Some headerName else None))))))
          else Inr None)
        else Inr None)
      else Inr None)"

definition findHTTPHeaderName :: "bool \<Rightarrow> WString \<Rightarrow> HTTPHeaderName option res" where
  "findHTTPHeaderName is8Bit s =
     (if 35 < length s \<or> length s < 2 then Inr None
      else if is8Bit then findHeaderNameImpl s (length s)
      else if list_all (\<lambda>c. c < 128) s then findHeaderNameImpl s (length s)
      else Inr None)"

section \<open>Facts on the tables\<close>

lemma table_lengths [simp]:
  "length gperf_downcase = 256" "length asso_values = 256" "length lookup = 511"
  "length header_name_wordlist = 84" "length headerNameStrings = 84"
  by (simp_all add: gperf_downcase_def asso_values_def lookup_def header_name_wordlist_def
      headerNameStrings_def)

lemma gperf_downcase_eq: "gperf_downcase = map toASCIILower [0..<256]"
  by code_simp

text \<open>The values of characters, and the hash of a name as a sum.\<close>

definition char_value :: "nat \<Rightarrow> nat" where
  "char_value c = asso_values ! c"

definition name_key :: "WString \<Rightarrow> nat" where
  "name_key s = sum_list (map char_value s)"

lemma char_values:
  "map char_value [45, 50, 65, 67, 68, 69, 70, 72, 73, 75, 76, 77, 78, 79, 80, 82, 83, 84, 85, 86, 87, 88, 97,
      98, 99, 100, 101, 102, 103, 104, 105, 107, 108, 109, 110, 111, 112, 113, 114, 115, 116, 117,
      118, 119, 120, 121, 122] =
     [0, 5, 10, 5, 10, 20, 70, 4, 0, 4, 55, 80, 5, 0, 50, 5, 0, 5, 55, 165, 20, 135, 10, 0, 5, 10,
      20, 70, 0, 4, 0, 4, 55, 80, 5, 0, 50, 10, 5, 0, 5, 55, 165, 20, 135, 40, 0]"
  by (simp add: char_value_def asso_values_def)

lemma char_value_letter: "isASCIIUpper c \<Longrightarrow> char_value (c + 32) = char_value c"
proof -
  assume u: "isASCIIUpper c"
  then have "char_value c = take 26 (drop 65 asso_values) ! (c - 65)"
    "char_value (c + 32) = take 26 (drop 97 asso_values) ! (c - 65)"
    by (auto simp: char_value_def isASCIIUpper_def add.commute)
  moreover have "take 26 (drop 65 asso_values) = take 26 (drop 97 asso_values)"
    by (simp add: asso_values_def)
  ultimately show ?thesis by simp
qed

lemma char_value_none:
  assumes "c = 0 \<or> 128 \<le> c" and "c < 256"
  shows "char_value c = 511"
proof (cases "c = 0")
  case True
  then show ?thesis by (simp add: char_value_def asso_values_def)
next
  case False
  with assms have "char_value c = drop 128 asso_values ! (c - 128)" by (simp add: char_value_def)
  also have "drop 128 asso_values = replicate 128 511" by (simp add: asso_values_def numeral_eq_Suc)
  finally show ?thesis using assms False by simp
qed

text \<open>The words are numbered in the order of their hashes, and the table holds just these numbers.\<close>

lemma name_keys:
  "map (name_key \<circ> fst) header_name_wordlist =
     [9, 10, 20, 25, 29, 30, 34, 35, 40, 45, 50, 54, 59, 60, 64, 80, 85, 90, 95, 99, 100, 110,
      115, 119, 120, 124, 125, 134, 135, 140, 144, 145, 150, 155, 160, 163, 165, 170, 174, 175,
      180, 194, 195, 200, 204, 210, 219, 220, 225, 230, 235, 240, 250, 260, 265, 269, 280, 289,
      290, 294, 295, 299, 300, 305, 324, 325, 329, 344, 345, 349, 350, 355, 360, 365, 370, 374,
      375, 380, 385, 390, 404, 409, 439, 510]"
  using char_values by (simp add: header_name_wordlist_def name_key_def ascii_def)

fun entries :: "nat \<Rightarrow> int list \<Rightarrow> (nat \<times> int) list" where
  "entries i [] = []"
| "entries i (x # xs) = (if x < 0 then entries (i + 1) xs else (i, x) # entries (i + 1) xs)"

lemma lookup_entries:
  "entries 0 lookup =
     [(9, 0), (10, 1), (20, 2), (25, 3), (29, 4), (30, 5), (34, 6), (35, 7), (40, 8), (45, 9),
      (50, 10), (54, 11), (59, 12), (60, 13), (64, 14), (80, 15), (85, 16), (90, 17), (95, 18),
      (99, 19), (100, 20), (110, 21), (115, 22), (119, 23), (120, 24), (124, 25), (125, 26),
      (134, 27), (135, 28), (140, 29), (144, 30), (145, 31), (150, 32), (155, 33), (160, 34),
      (163, 35), (165, 36), (170, 37), (174, 38), (175, 39), (180, 40), (194, 41), (195, 42),
      (200, 43), (204, 44), (210, 45), (219, 46), (220, 47), (225, 48), (230, 49), (235, 50),
      (240, 51), (250, 52), (260, 53), (265, 54), (269, 55), (280, 56), (289, 57), (290, 58),
      (294, 59), (295, 60), (299, 61), (300, 62), (305, 63), (324, 64), (325, 65), (329, 66),
      (344, 67), (345, 68), (349, 69), (350, 70), (355, 71), (360, 72), (365, 73), (370, 74),
      (374, 75), (375, 76), (380, 77), (385, 78), (390, 79), (404, 80), (409, 81), (439, 82),
      (510, 83)]"
  by (simp add: lookup_def)

lemma entries_nth:
  "(k, x) \<in> set (entries i xs) \<longleftrightarrow> i \<le> k \<and> k < i + length xs \<and> xs ! (k - i) = x \<and> 0 \<le> x"
proof (induction i xs rule: entries.induct)
  case (2 i y ys)
  show ?case
  proof (cases "k = i")
    case False
    then have "i \<le> k \<longleftrightarrow> i + 1 \<le> k" by auto
    with False 2 show ?thesis by (auto simp: nth_Cons')
  qed (use 2 in auto)
qed simp

lemma wordlist_entries:
  "list_all (\<lambda>(s, h). h < 84 \<and> headerNameStrings ! h = s \<and> 2 \<le> length s \<and> length s \<le> 35 \<and>
     list_all (\<lambda>c. 0 < c \<and> c < 128) s) header_name_wordlist"
  by (simp add: header_name_wordlist_def headerNameStrings_def ascii_def)

lemma wordlist_complete: "set (map snd header_name_wordlist) = {..<84 :: nat}"
proof (rule card_subset_eq)
  show "set (map snd header_name_wordlist) \<subseteq> {..<84 :: nat}"
    using wordlist_entries by (auto simp: list_all_iff)
  have "distinct (map snd header_name_wordlist)" by (simp add: header_name_wordlist_def)
  then have "card (set (map snd header_name_wordlist)) = length (map snd header_name_wordlist)"
    by (rule distinct_card)
  then show "card (set (map snd header_name_wordlist)) = card {..<84 :: nat}" by simp
qed simp

section \<open>The lookup is exact\<close>

lemma hash_from_eq:
  "list_all (\<lambda>c. c < 256) s \<Longrightarrow> k \<le> length s \<Longrightarrow> hash_from s k h = Inr (h + name_key (take k s))"
proof (induction k arbitrary: h)
  case (Suc k)
  then have "s ! k < 256" by (simp add: list_all_length)
  with Suc show ?case by (simp add: take_Suc_conv_app_nth name_key_def char_value_def)
qed (simp add: name_key_def)

lemma hash_eq:
  assumes "list_all (\<lambda>c. c < 256) s" and "2 \<le> length s" and "length s \<le> 35"
  shows "header_name_hash_function s (length s) = Inr (name_key s)"
proof -
  have "(if 1 \<le> length s \<and> length s \<le> 34 then length s else 35) = length s" using assms by auto
  then show ?thesis using hash_from_eq [OF assms(1), of "length s" 0]
    by (simp add: header_name_hash_function_def)
qed

lemma name_key_chars:
  "list_all (\<lambda>c. c < 256) s \<Longrightarrow> name_key s \<le> 510 \<Longrightarrow> list_all (\<lambda>c. 0 < c \<and> c < 128) s"
proof (induction s)
  case (Cons c s)
  then have "char_value c \<le> 510" "name_key s \<le> 510" by (simp_all add: name_key_def)
  with Cons char_value_none [of c] show ?case by (cases "c = 0 \<or> 128 \<le> c") auto
qed simp

lemma toASCIILower_upper: "isASCIIUpper c \<Longrightarrow> toASCIILower c = c + 32"
proof -
  assume u: "isASCIIUpper c"
  then obtain x where x: "c = 64 + x" "x < 32" by (auto simp: isASCIIUpper_def dest!: le_Suc_ex)
  have a: "x OR 64 = 64 + x" using low_or_high [of x 5 2] x(2) by simp
  have "(64 + x) OR 32 = (x OR 64) OR 32" by (simp only: a)
  also have "\<dots> = x OR (64 OR 32)" by (rule or.assoc)
  also have "\<dots> = 96 + x" using low_or_high [of x 5 3] x(2) by simp
  finally show ?thesis using u x by (simp add: toASCIILower_def)
qed

lemma char_value_case: "char_value (toASCIILower c) = char_value c"
  by (cases "isASCIIUpper c") (simp_all add: toASCIILower_upper char_value_letter)

lemma equalIgnoringASCIICase_map:
  "equalIgnoringASCIICase a b \<longleftrightarrow> map toASCIILower a = map toASCIILower b"
  by (auto simp: equalIgnoringASCIICase_def list_all2_conv_all_nth list_eq_iff_nth_eq)

lemma name_key_case:
  assumes "equalIgnoringASCIICase s n"
  shows "name_key s = name_key n"
proof -
  have "name_key s = name_key (map toASCIILower s)" for s
    by (simp add: name_key_def char_value_case comp_def)
  with assms show ?thesis by (metis equalIgnoringASCIICase_map)
qed

lemma downcase_nth: "c < 256 \<Longrightarrow> gperf_downcase ! c = toASCIILower c"
  by (simp add: gperf_downcase_eq)

lemma toASCIILower_0 [simp]: "toASCIILower c = 0 \<longleftrightarrow> c = 0" "toASCIILower 0 = 0"
  by (cases "isASCIIUpper c"; auto simp: toASCIILower_upper isASCIIUpper_def)+

lemma same_but_case_lower:
  assumes "toASCIILower a = toASCIILower b"
  shows "same_but_case a b"
proof -
  have b32: "bit (32 :: nat) n \<longleftrightarrow> n = 5" "bit (32 :: int) n \<longleftrightarrow> n = 5" for n
    using bit_exp_iff [of 5 n, where 'a = nat] bit_exp_iff [of 5 n, where 'a = int] by auto
  have "bit a n = bit b n" if "n \<noteq> 5" for n
    using arg_cong [OF assms, of "\<lambda>x. bit x n"] that
    by (simp add: toASCIILower_def bit_or_iff b32 split: if_splits)
  then have "(word_of_nat a XOR word_of_nat b) AND NOT 32 = (0 :: 32 word)"
    by (intro bit_word_eqI) (auto simp: bit_simps b32)
  then show ?thesis by (simp add: same_but_case_def)
qed

text \<open>The comparison stops at the end of the shorter string, since neither has a zero character.\<close>

lemma gperf_case_strncmp_eq:
  assumes "list_all (\<lambda>c. 0 < c \<and> c < 256) s" and "list_all (\<lambda>c. 0 < c \<and> c < 256) n"
  shows "i + k = length s \<Longrightarrow> i \<le> length n \<Longrightarrow>
    gperf_case_strncmp s n i k =
      Inr (length s \<le> length n \<and> map toASCIILower (drop i s) = map toASCIILower (take k (drop i n)))"
proof (induction k arbitrary: i)
  case (Suc k)
  have si: "s ! i < 256" "0 < s ! i" "drop i s = s ! i # drop (Suc i) s"
    using assms(1) Suc.prems by (auto simp: list_all_length Cons_nth_drop_Suc)
  show ?case
  proof (cases "i < length n")
    case True
    then have ni: "n ! i < 256" "drop i n = n ! i # drop (Suc i) n"
      using assms(2) by (auto simp: list_all_length Cons_nth_drop_Suc)
    show ?thesis
      using Suc.IH [of "Suc i"] Suc.prems True si ni
      by (auto simp: c_char_def nth_append downcase_nth toASCIILower_0)
  next
    case False
    with Suc.prems have "i = length n" by simp
    then show ?thesis
      using Suc.prems si by (auto simp: c_char_def nth_append downcase_nth toASCIILower_0)
  qed
qed simp

lemma lookup_range: "list_all (\<lambda>i. i < 84) lookup"
  by (simp add: lookup_def)

lemma lookup_word:
  assumes "k < 84" and "header_name_wordlist ! k = (n, h)"
  shows "name_key n \<le> 510" and "lookup ! name_key n = int k"
proof -
  have "name_key n = map (name_key \<circ> fst) header_name_wordlist ! k" using assms by simp
  moreover have z: "zip (map (name_key \<circ> fst) header_name_wordlist) (map int [0..<84]) = entries 0 lookup"
    unfolding name_keys lookup_entries by (simp add: upt_conv_Cons)
  ultimately have "(name_key n, int k) \<in> set (entries 0 lookup)"
    unfolding z [symmetric] using assms(1) by (auto simp: in_set_zip intro!: exI [of _ k])
  then show "name_key n \<le> 510" "lookup ! name_key n = int k" by (auto simp: entries_nth)
qed

lemma wordlist_nth:
  assumes "header_name_wordlist ! k = (n, h)" and "k < 84"
  shows "h < 84" and "httpHeaderNameString h = n" and "2 \<le> length n" and "length n \<le> 35"
    and "list_all (\<lambda>c. 0 < c \<and> c < 128) n"
proof -
  have "(n, h) \<in> set header_name_wordlist" using assms by (metis nth_mem table_lengths(4))
  then have "case (n, h) of (s, h) \<Rightarrow> h < 84 \<and> headerNameStrings ! h = s \<and> 2 \<le> length s \<and>
      length s \<le> 35 \<and> list_all (\<lambda>c. 0 < c \<and> c < 128) s"
    using wordlist_entries unfolding list_all_iff by blast
  then show "h < 84" "httpHeaderNameString h = n" "2 \<le> length n" "length n \<le> 35"
    "list_all (\<lambda>c. 0 < c \<and> c < 128) n"
    by (auto simp: httpHeaderNameString_def)
qed

text \<open>When the table has a word for the hash, the two are compared; this is the whole lookup.\<close>

lemma findHeaderNameImpl_word:
  assumes s: "list_all (\<lambda>c. c < 256) s" "2 \<le> length s" "length s \<le> 35"
    and key: "name_key s \<le> 510" "lookup ! name_key s = int k" and k: "k < 84"
    and w: "header_name_wordlist ! k = (n, h)"
  shows "findHeaderNameImpl s (length s) =
    Inr (if equalIgnoringASCIICase s n then Some h else None)"
proof -
  note n = wordlist_nth [OF w k]
  have s0: "list_all (\<lambda>c. 0 < c \<and> c < 256) s"
    using name_key_chars [OF s(1) key(1)] by (auto simp: list_all_iff)
  have n0: "list_all (\<lambda>c. 0 < c \<and> c < 256) n" using n(5) by (auto simp: list_all_iff)
  have cmp: "gperf_case_strncmp s n 0 (length s) =
      Inr (length s \<le> length n \<and> map toASCIILower s = map toASCIILower (take (length s) n))"
    using gperf_case_strncmp_eq [OF s0 n0, of 0 "length s"] by simp
  have first: "equalIgnoringASCIICase s n \<Longrightarrow> same_but_case (s ! 0) (n ! 0)"
    using s(2) n(3) by (cases s; cases n) (auto simp: equalIgnoringASCIICase_map intro!: same_but_case_lower)
  have fin: "length s \<le> length n \<Longrightarrow> c_char n (length s) =
      Inr (if length s = length n then 0 else n ! length s)"
    by (simp add: c_char_def nth_append)
  have nz: "length s < length n \<Longrightarrow> n ! length s \<noteq> 0" using n(5) by (auto simp: list_all_length)
  have ne: "s \<noteq> []" "n \<noteq> []" using s(2) n(3) by auto
  show ?thesis
  proof (cases "equalIgnoringASCIICase s n")
    case True
    then have "length s = length n" "map toASCIILower s = map toASCIILower n"
      by (auto simp: equalIgnoringASCIICase_map dest: map_eq_imp_length_eq)
    with s key k w cmp fin first [OF True] ne True hash_eq [OF s] show ?thesis
      by (simp add: findHeaderNameImpl_def c_char_def nth_append)
  next
    case False
    then have "gperf_case_strncmp s n 0 (length s) = Inr False \<or>
        gperf_case_strncmp s n 0 (length s) = Inr True \<and> length s < length n"
      unfolding cmp equalIgnoringASCIICase_map by (auto simp: le_less)
    with s key k w fin nz ne False show ?thesis
      by (auto simp: findHeaderNameImpl_def hash_eq c_char_def nth_append)
  qed
qed

lemma header_word:
  assumes "h < 84"
  shows "\<exists>k < 84. header_name_wordlist ! k = (httpHeaderNameString h, h)"
proof -
  have "h \<in> set (map snd header_name_wordlist)" using assms by (simp only: wordlist_complete) simp
  then obtain n where "(n, h) \<in> set header_name_wordlist" by auto
  then obtain k where "k < 84" "header_name_wordlist ! k = (n, h)"
    by (auto simp: in_set_conv_nth)
  with wordlist_nth(2) [OF this(2,1)] show ?thesis by blast
qed

lemma findHeaderNameImpl_eq:
  assumes s: "list_all (\<lambda>c. c < 256) s" "2 \<le> length s" "length s \<le> 35"
  shows "\<exists>r. findHeaderNameImpl s (length s) = Inr r \<and>
    (\<forall>h < 84. r = Some h \<longleftrightarrow> equalIgnoringASCIICase s (httpHeaderNameString h)) \<and>
    (\<forall>h. r = Some h \<longrightarrow> h < 84)"
proof -
  have key: "name_key s \<le> 510 \<and> lookup ! name_key s = int k"
    if "k < 84" "header_name_wordlist ! k = (httpHeaderNameString h, h)"
      "equalIgnoringASCIICase s (httpHeaderNameString h)" for k h
    using lookup_word [OF that(1,2)] name_key_case [OF that(3)] by simp
  show ?thesis
  proof (cases "name_key s \<le> 510 \<and> 0 \<le> lookup ! name_key s")
    case True
    define k where "k = nat (lookup ! name_key s)"
    have lk: "lookup ! name_key s = int k" using True by (simp add: k_def)
    have "lookup ! name_key s < 84"
      using lookup_range True by (auto simp: list_all_length)
    with lk have k: "k < 84" by simp
    obtain n h where w: "header_name_wordlist ! k = (n, h)" by (cases "header_name_wordlist ! k")
    note n = wordlist_nth [OF w k] and
      f = findHeaderNameImpl_word [OF s conjunct1 [OF True] lk k w]
    have u: "equalIgnoringASCIICase s (httpHeaderNameString h') \<longleftrightarrow> h' = h \<and> equalIgnoringASCIICase s n"
      if "h' < 84" for h'
    proof
      assume e: "equalIgnoringASCIICase s (httpHeaderNameString h')"
      from header_word [OF that] obtain k' where k': "k' < 84"
        "header_name_wordlist ! k' = (httpHeaderNameString h', h')" by blast
      from key [OF k' e] lk have "k' = k" by simp
      with k'(2) w e show "h' = h \<and> equalIgnoringASCIICase s n" by simp
    qed (use n(2) in simp)
    show ?thesis
      by (intro exI [of _ "if equalIgnoringASCIICase s n then Some h else None"]) (auto simp: f u n(1))
  next
    case False
    then have "findHeaderNameImpl s (length s) = Inr None"
      using s by (auto simp: findHeaderNameImpl_def hash_eq not_le)
    moreover have "\<not> equalIgnoringASCIICase s (httpHeaderNameString h)" if "h < 84" for h
    proof
      assume e: "equalIgnoringASCIICase s (httpHeaderNameString h)"
      from header_word [OF that] obtain k where k: "k < 84"
        "header_name_wordlist ! k = (httpHeaderNameString h, h)" by blast
      from key [OF k e] False show False by simp
    qed
    ultimately show ?thesis by auto
  qed
qed

lemma findHTTPHeaderName_found:
  assumes "is8Bit \<longrightarrow> latin1 s"
  shows "\<exists>r. findHTTPHeaderName is8Bit s = Inr r \<and>
    (\<forall>h. r = Some h \<longleftrightarrow> h < 84 \<and> equalIgnoringASCIICase s (httpHeaderNameString h))"
proof (cases "35 < length s \<or> length s < 2")
  case True
  have "length (httpHeaderNameString h) = length s \<Longrightarrow> \<not> h < 84" for h
  proof
    assume l: "length (httpHeaderNameString h) = length s" and "h < 84"
    from header_word [OF this(2)] obtain k where "k < 84"
      "header_name_wordlist ! k = (httpHeaderNameString h, h)" by blast
    from wordlist_nth(3,4) [OF this(2,1)] l True show False by simp
  qed
  with True show ?thesis
    by (auto simp: findHTTPHeaderName_def equalIgnoringASCIICase_def)
next
  case False
  then have l: "2 \<le> length s" "length s \<le> 35" by simp_all
  have found: ?thesis if "list_all (\<lambda>c. c < 256) s" "findHTTPHeaderName is8Bit s = findHeaderNameImpl s (length s)"
    using findHeaderNameImpl_eq [OF that(1) l] that(2) by auto
  show ?thesis
  proof (cases "is8Bit \<or> list_all (\<lambda>c. c < 128) s")
    case True
    with assms False show ?thesis
      by (intro found) (auto simp: findHTTPHeaderName_def latin1_def list_all_iff)
  next
    case no: False
    then have "findHTTPHeaderName is8Bit s = Inr None"
      using False by (auto simp: findHTTPHeaderName_def)
    moreover have "\<not> equalIgnoringASCIICase s (httpHeaderNameString h)" if "h < 84" for h
    proof
      assume e: "equalIgnoringASCIICase s (httpHeaderNameString h)"
      from no obtain c where c: "c \<in> set s" "128 \<le> c" by (auto simp: list_all_iff not_less)
      from header_word [OF that] obtain k where "k < 84"
        "header_name_wordlist ! k = (httpHeaderNameString h, h)" by blast
      from wordlist_nth(5) [OF this(2,1)] have "toASCIILower d < 128" if "d \<in> set (httpHeaderNameString h)" for d
        using that by (cases "isASCIIUpper d") (auto simp: list_all_iff toASCIILower_upper isASCIIUpper_def)
      note lower = this
      from e c(1) have "toASCIILower c \<in> set (map toASCIILower (httpHeaderNameString h))"
        unfolding equalIgnoringASCIICase_map by (metis image_eqI list.set_map)
      then obtain d where "d \<in> set (httpHeaderNameString h)" "toASCIILower c = toASCIILower d" by auto
      moreover from c(2) have "toASCIILower c = c" by (simp add: isASCIIUpper_def)
      ultimately show False using lower [of d] c(2) by linarith
    qed
    ultimately show ?thesis by auto
  qed
qed

text \<open>
  C11: looking up a header name reads no table out of bounds and returns an enumerator exactly when
  the text is its name in some mixture of case, whether the string is held in 8 or in 16 bits.
\<close>

theorem findHTTPHeaderName_exact:
  assumes "is8Bit \<longrightarrow> latin1 s"
  shows "\<exists>r. findHTTPHeaderName is8Bit s = Inr r \<and>
    (\<forall>h. r = Some h \<longleftrightarrow> h < 84 \<and> equalIgnoringASCIICase s (httpHeaderNameString h))"
  using assms by (rule findHTTPHeaderName_found)

theorem findHTTPHeaderName_exact_witness:
  "\<exists>r. findHTTPHeaderName True (ascii ''cOOkie'') = Inr r \<and>
    (\<forall>h. r = Some h \<longleftrightarrow> h < 84 \<and> equalIgnoringASCIICase (ascii ''cOOkie'') (httpHeaderNameString h))"
  by (rule findHTTPHeaderName_exact) (simp add: latin1_def ascii_def)

end
