(* ===== verification/HTTP_Header_Map.thy ===== *)
theory HTTP_Header_Map
  imports HTTP_Header_Names
begin

text \<open>
  The map of HTTP header fields (src/Source/PurCFetcher/network/HTTPHeaderMap.h and HTTPHeaderMap.cpp):
  one vector for the fields whose name is an enumerator, one for the others, whose names are compared
  without regard to case. The locale \<open>header_vector\<close> is what both vectors rely on. Together they
  implement a map from names in any mixture of case to values, with equality of maps. The values are
  strings that are not null: a field set to the null string would read as one that is missing.
\<close>

section \<open>Vectors of header fields\<close>

text \<open>\<open>findMatching\<close> and \<open>removeFirstMatching\<close> of wtf/Vector.h; \<open>i\<close> is the index of the head.\<close>

fun findMatching :: "('a \<Rightarrow> bool) \<Rightarrow> 'a list \<Rightarrow> nat \<Rightarrow> nat option" where
  "findMatching matches [] i = None"
| "findMatching matches (x # xs) i = (if matches x then Some i else findMatching matches xs (Suc i))"

fun removeFirstMatching :: "('a \<Rightarrow> bool) \<Rightarrow> 'a list \<Rightarrow> bool \<times> 'a list" where
  "removeFirstMatching matches [] = (False, [])"
| "removeFirstMatching matches (x # xs) =
     (if matches x then (True, xs)
      else let (removed, rest) = removeFirstMatching matches xs in (removed, x # rest))"

text \<open>
  The operations on the vector of common headers, whose keys are compared by \<open>=\<close>, and on the vector
  of uncommon headers, whose keys are compared by \<open>equalIgnoringASCIICase\<close>, have the same text.
\<close>

definition find_header :: "('k \<Rightarrow> 'k \<Rightarrow> bool) \<Rightarrow> 'k \<Rightarrow> ('k \<times> WString) list \<Rightarrow> nat option" where
  "find_header same name headers = findMatching (\<lambda>header. same (fst header) name) headers 0"

definition get_header ::
  "('k \<Rightarrow> 'k \<Rightarrow> bool) \<Rightarrow> ('k \<times> WString) list \<Rightarrow> 'k \<Rightarrow> WString option" where
  "get_header same headers name =
     (case find_header same name headers of
        None \<Rightarrow> None
      | Some index \<Rightarrow> Some (snd (headers ! index)))"

definition set_header ::
  "('k \<Rightarrow> 'k \<Rightarrow> bool) \<Rightarrow> 'k \<Rightarrow> WString \<Rightarrow> ('k \<times> WString) list \<Rightarrow> ('k \<times> WString) list" where
  "set_header same name value headers =
     (case find_header same name headers of
        None \<Rightarrow> headers @ [(name, value)]
      | Some index \<Rightarrow> headers[index := (fst (headers ! index), value)])"

definition add_header ::
  "('k \<Rightarrow> 'k \<Rightarrow> bool) \<Rightarrow> 'k \<Rightarrow> WString \<Rightarrow> ('k \<times> WString) list \<Rightarrow> ('k \<times> WString) list" where
  "add_header same name value headers =
     (case find_header same name headers of
        None \<Rightarrow> headers @ [(name, value)]
      | Some index \<Rightarrow>
          headers[index := (fst (headers ! index), snd (headers ! index) @ ascii '', '' @ value)])"

definition contains_header :: "('k \<Rightarrow> 'k \<Rightarrow> bool) \<Rightarrow> 'k \<Rightarrow> ('k \<times> WString) list \<Rightarrow> bool" where
  "contains_header same name headers \<longleftrightarrow> find_header same name headers \<noteq> None"

definition remove_header ::
  "('k \<Rightarrow> 'k \<Rightarrow> bool) \<Rightarrow> 'k \<Rightarrow> ('k \<times> WString) list \<Rightarrow> bool \<times> ('k \<times> WString) list" where
  "remove_header same name headers = removeFirstMatching (\<lambda>header. same (fst header) name) headers"

section \<open>The map\<close>

record HTTPHeaderMap =
  m_commonHeaders :: "(HTTPHeaderName \<times> WString) list"
  m_uncommonHeaders :: "(WString \<times> WString) list"

definition HTTPHeaderMap_new :: HTTPHeaderMap where
  "HTTPHeaderMap_new = \<lparr>m_commonHeaders = [], m_uncommonHeaders = []\<rparr>"

text \<open>
  The enumerator of a name. By the exactness of the lookup it does not depend on whether the string
  is held in 8 or in 16 bits.
\<close>

definition known_header :: "WString \<Rightarrow> HTTPHeaderName option" where
  "known_header name = (case findHTTPHeaderName False name of Inl _ \<Rightarrow> None | Inr r \<Rightarrow> r)"

definition get_common :: "HTTPHeaderMap \<Rightarrow> HTTPHeaderName \<Rightarrow> WString option" where
  "get_common m name = get_header (=) (m_commonHeaders m) name"

definition getUncommonHeader :: "HTTPHeaderMap \<Rightarrow> WString \<Rightarrow> WString option" where
  "getUncommonHeader m name = get_header equalIgnoringASCIICase (m_uncommonHeaders m) name"

definition get_field :: "HTTPHeaderMap \<Rightarrow> WString \<Rightarrow> WString option" where
  "get_field m name =
     (case known_header name of
        Some headerName \<Rightarrow> get_common m headerName
      | None \<Rightarrow> getUncommonHeader m name)"

definition set_common :: "HTTPHeaderName \<Rightarrow> WString \<Rightarrow> HTTPHeaderMap \<Rightarrow> HTTPHeaderMap" where
  "set_common name value m = m\<lparr>m_commonHeaders := set_header (=) name value (m_commonHeaders m)\<rparr>"

definition setUncommonHeader :: "WString \<Rightarrow> WString \<Rightarrow> HTTPHeaderMap \<Rightarrow> HTTPHeaderMap" where
  "setUncommonHeader name value m =
     m\<lparr>m_uncommonHeaders := set_header equalIgnoringASCIICase name value (m_uncommonHeaders m)\<rparr>"

definition set_field :: "WString \<Rightarrow> WString \<Rightarrow> HTTPHeaderMap \<Rightarrow> HTTPHeaderMap" where
  "set_field name value m =
     (case known_header name of
        Some headerName \<Rightarrow> set_common headerName value m
      | None \<Rightarrow> setUncommonHeader name value m)"

definition add_common :: "HTTPHeaderName \<Rightarrow> WString \<Rightarrow> HTTPHeaderMap \<Rightarrow> HTTPHeaderMap" where
  "add_common name value m = m\<lparr>m_commonHeaders := add_header (=) name value (m_commonHeaders m)\<rparr>"

definition add_field :: "WString \<Rightarrow> WString \<Rightarrow> HTTPHeaderMap \<Rightarrow> HTTPHeaderMap" where
  "add_field name value m =
     (case known_header name of
        Some headerName \<Rightarrow> add_common headerName value m
      | None \<Rightarrow>
          m\<lparr>m_uncommonHeaders := add_header equalIgnoringASCIICase name value (m_uncommonHeaders m)\<rparr>)"

definition contains_common :: "HTTPHeaderMap \<Rightarrow> HTTPHeaderName \<Rightarrow> bool" where
  "contains_common m name \<longleftrightarrow> contains_header (=) name (m_commonHeaders m)"

definition contains_field :: "HTTPHeaderMap \<Rightarrow> WString \<Rightarrow> bool" where
  "contains_field m name \<longleftrightarrow>
     (case known_header name of
        Some headerName \<Rightarrow> contains_common m headerName
      | None \<Rightarrow> contains_header equalIgnoringASCIICase name (m_uncommonHeaders m))"

definition append_field :: "WString \<Rightarrow> WString \<Rightarrow> HTTPHeaderMap \<Rightarrow> HTTPHeaderMap" where
  "append_field name value m =
     (case known_header name of
        Some headerName \<Rightarrow> m\<lparr>m_commonHeaders := m_commonHeaders m @ [(headerName, value)]\<rparr>
      | None \<Rightarrow> m\<lparr>m_uncommonHeaders := m_uncommonHeaders m @ [(name, value)]\<rparr>)"

definition addIfNotPresent :: "HTTPHeaderName \<Rightarrow> WString \<Rightarrow> HTTPHeaderMap \<Rightarrow> bool \<times> HTTPHeaderMap" where
  "addIfNotPresent headerName value m =
     (if contains_common m headerName then (False, m)
      else (True, m\<lparr>m_commonHeaders := m_commonHeaders m @ [(headerName, value)]\<rparr>))"

definition remove_common :: "HTTPHeaderName \<Rightarrow> HTTPHeaderMap \<Rightarrow> bool \<times> HTTPHeaderMap" where
  "remove_common name m =
     (let (removed, headers) = remove_header (=) name (m_commonHeaders m)
      in (removed, m\<lparr>m_commonHeaders := headers\<rparr>))"

definition remove_field :: "WString \<Rightarrow> HTTPHeaderMap \<Rightarrow> bool \<times> HTTPHeaderMap" where
  "remove_field name m =
     (case known_header name of
        Some headerName \<Rightarrow> remove_common headerName m
      | None \<Rightarrow>
          let (removed, headers) = remove_header equalIgnoringASCIICase name (m_uncommonHeaders m)
          in (removed, m\<lparr>m_uncommonHeaders := headers\<rparr>))"

definition clear_fields :: "HTTPHeaderMap \<Rightarrow> HTTPHeaderMap" where
  "clear_fields m = m\<lparr>m_commonHeaders := [], m_uncommonHeaders := []\<rparr>"

definition header_maps_equal :: "HTTPHeaderMap \<Rightarrow> HTTPHeaderMap \<Rightarrow> bool" where
  "header_maps_equal a b \<longleftrightarrow>
     length (m_commonHeaders a) = length (m_commonHeaders b) \<and>
     length (m_uncommonHeaders a) = length (m_uncommonHeaders b) \<and>
     list_all (\<lambda>(key, value). get_common b key = Some value) (m_commonHeaders a) \<and>
     list_all (\<lambda>(key, value). getUncommonHeader b key = Some value) (m_uncommonHeaders a)"


section \<open>Laws of a vector of header fields\<close>

lemma findMatching_Suc: "findMatching p xs (Suc i) = map_option Suc (findMatching p xs i)"
  by (induction xs arbitrary: i) auto

lemma find_header_simps [simp]:
  "find_header same name [] = None"
  "find_header same name (h # hs) =
     (if same (fst h) name then Some 0 else map_option Suc (find_header same name hs))"
  by (simp_all add: find_header_def findMatching_Suc)

lemma get_header_simps [simp]:
  "get_header same [] name = None"
  "get_header same ((k, v) # hs) name = (if same k name then Some v else get_header same hs name)"
  by (simp_all add: get_header_def split: option.splits)

lemma set_header_simps [simp]:
  "set_header same name value [] = [(name, value)]"
  "set_header same name value ((k, v) # hs) =
     (if same k name then (k, value) # hs else (k, v) # set_header same name value hs)"
  by (simp_all add: set_header_def split: option.splits)

lemma add_header_simps [simp]:
  "add_header same name value [] = [(name, value)]"
  "add_header same name value ((k, v) # hs) =
     (if same k name then (k, v @ ascii '', '' @ value) # hs
      else (k, v) # add_header same name value hs)"
  by (simp_all add: add_header_def split: option.splits)

lemma contains_header_get: "contains_header same name hs \<longleftrightarrow> get_header same hs name \<noteq> None"
  by (auto simp: contains_header_def get_header_def split: option.splits)

lemma contains_header_simps [simp]:
  "\<not> contains_header same name []"
  "contains_header same name ((k, v) # hs) \<longleftrightarrow> same k name \<or> contains_header same name hs"
  by (auto simp: contains_header_def)

lemma remove_header_simps [simp]:
  "remove_header same name [] = (False, [])"
  "remove_header same name ((k, v) # hs) =
     (if same k name then (True, hs)
      else (fst (remove_header same name hs), (k, v) # snd (remove_header same name hs)))"
  by (simp_all add: remove_header_def split_beta)

fun distinct_headers :: "('k \<Rightarrow> 'k \<Rightarrow> bool) \<Rightarrow> ('k \<times> WString) list \<Rightarrow> bool" where
  "distinct_headers same [] \<longleftrightarrow> True"
| "distinct_headers same ((k, v) # hs) \<longleftrightarrow> \<not> contains_header same k hs \<and> distinct_headers same hs"

text \<open>Two keys are the same when they have the same canonical form.\<close>

locale header_vector =
  fixes same :: "'k \<Rightarrow> 'k \<Rightarrow> bool" and canon :: "'k \<Rightarrow> 'c"
  assumes same_iff: "same k l \<longleftrightarrow> canon k = canon l"
begin

lemma same_eq: "same = (\<lambda>k l. canon k = canon l)"
  using same_iff by blast

lemma get_same: "canon k = canon n \<Longrightarrow> get_header same hs k = get_header same hs n"
  unfolding same_eq by (induction hs) auto

lemma get_set: "get_header same (set_header same k v hs) n =
    (if same k n then Some v else get_header same hs n)"
  unfolding same_eq by (induction hs) auto

lemma get_add: "get_header same (add_header same k v hs) n =
    (if same k n
     then Some (case get_header same hs k of None \<Rightarrow> v | Some w \<Rightarrow> w @ ascii '', '' @ v)
     else get_header same hs n)"
  unfolding same_eq by (induction hs) auto

lemma get_append: "\<not> contains_header same k hs \<Longrightarrow> get_header same (hs @ [(k, v)]) n =
    (if same k n then Some v else get_header same hs n)"
  unfolding same_eq by (induction hs) auto

lemma remove_result: "fst (remove_header same k hs) \<longleftrightarrow> contains_header same k hs"
  by (induction hs) (auto split: if_splits)

lemma get_remove: "distinct_headers same hs \<Longrightarrow> get_header same (snd (remove_header same k hs)) n =
    (if same k n then None else get_header same hs n)"
proof (induction hs)
  case (Cons h hs)
  obtain l v where h: "h = (l, v)" by (cases h)
  have "canon l = canon n \<Longrightarrow> get_header same hs n = None"
    using Cons.prems get_same [of l n hs] by (simp add: h contains_header_get)
  with Cons show ?case unfolding same_eq by (auto simp: h)
qed simp

lemma contains_set: "contains_header same n (set_header same k v hs) \<longleftrightarrow>
    same k n \<or> contains_header same n hs"
  by (simp add: contains_header_get get_set)

lemma contains_add: "contains_header same n (add_header same k v hs) \<longleftrightarrow>
    same k n \<or> contains_header same n hs"
  by (simp add: contains_header_get get_add)

lemma contains_append: "contains_header same n (hs @ [(k, v)]) \<longleftrightarrow>
    same k n \<or> contains_header same n hs"
  by (induction hs) auto

lemma distinct_set: "distinct_headers same hs \<Longrightarrow> distinct_headers same (set_header same k v hs)"
  using contains_set unfolding same_eq by (induction hs) auto

lemma distinct_add: "distinct_headers same hs \<Longrightarrow> distinct_headers same (add_header same k v hs)"
  using contains_add unfolding same_eq by (induction hs) auto

lemma distinct_append: "distinct_headers same hs \<Longrightarrow> \<not> contains_header same k hs \<Longrightarrow>
    distinct_headers same (hs @ [(k, v)])"
  using contains_append unfolding same_eq by (induction hs) auto

lemma contains_removed: "contains_header same n (snd (remove_header same k hs)) \<Longrightarrow>
    contains_header same n hs"
  by (induction hs) (auto split: if_splits)

lemma distinct_remove: "distinct_headers same hs \<Longrightarrow>
    distinct_headers same (snd (remove_header same k hs))"
  by (induction hs) (auto dest: contains_removed)

lemma length_remove: "contains_header same k hs \<Longrightarrow>
    length hs = Suc (length (snd (remove_header same k hs)))"
  by (induction hs) auto

lemma member_get: "get_header same hs k = None \<Longrightarrow> (l, v) \<in> set hs \<Longrightarrow> canon k \<noteq> canon l"
  unfolding same_eq by (induction hs) (auto split: if_splits)

lemma get_Nil: "get_header same hs = (\<lambda>_. None) \<longleftrightarrow> hs = []"
proof (cases hs)
  case (Cons h hs')
  obtain k v where "h = (k, v)" by (cases h)
  with Cons have "get_header same hs k = Some v" by (simp add: same_iff)
  with Cons show ?thesis by auto
qed auto

text \<open>Comparing the sizes and looking up every field of one vector in the other.\<close>

lemma equal_vectors:
  assumes "distinct_headers same a" and "distinct_headers same b"
  shows "length a = length b \<and> list_all (\<lambda>(k, v). get_header same b k = Some v) a \<longleftrightarrow>
    get_header same a = get_header same b"
  using assms
proof (induction a arbitrary: b)
  case Nil
  show ?case using get_Nil [of b] by (auto simp: fun_eq_iff)
next
  case (Cons h a)
  obtain k v where h: "h = (k, v)" by (cases h)
  define b' where "b' = snd (remove_header same k b)"
  have d: "distinct_headers same a" "get_header same a k = None"
    using Cons.prems(1) by (auto simp: h contains_header_get)
  have b': "distinct_headers same b'" "get_header same b' n = (if same k n then None else get_header same b n)" for n
    unfolding b'_def using Cons.prems(2) by (auto simp: distinct_remove get_remove)
  have keys: "list_all (\<lambda>(l, v). get_header same b' l = Some v) a \<longleftrightarrow>
      list_all (\<lambda>(l, v). get_header same b l = Some v) a"
    using member_get [OF d(2)] by (intro list.pred_cong [OF refl]) (auto simp: b'(2) same_iff)
  have ak: "get_header same a n = None" if "canon k = canon n" for n
    using d(2) get_same [OF that, of a] by simp
  have bk: "get_header same b n = get_header same b k" if "canon k = canon n" for n
    using get_same [OF that, of b] by simp
  define agree where "agree \<longleftrightarrow> (\<forall>n. canon k \<noteq> canon n \<longrightarrow> get_header same a n = get_header same b n)"
  have tail: "get_header same a = get_header same b' \<longleftrightarrow> agree"
    using ak by (auto simp: agree_def b'(2) same_iff fun_eq_iff)
  have head: "get_header same (h # a) = get_header same b \<longleftrightarrow> get_header same b k = Some v \<and> agree"
    (is "?l \<longleftrightarrow> ?r")
  proof
    assume l: ?l
    have "get_header same b k = Some v" using fun_cong [OF l, of k] by (simp add: h same_iff)
    moreover have "get_header same a n = get_header same b n" if "canon k \<noteq> canon n" for n
      using fun_cong [OF l, of n] that by (simp add: h same_iff)
    ultimately show ?r by (simp add: agree_def)
  next
    assume r: ?r
    show ?l
    proof
      show "get_header same (h # a) n = get_header same b n" for n
        using r bk [of n] by (cases "canon k = canon n") (simp_all add: agree_def h same_iff)
    qed
  qed
  have len: "get_header same b k = Some v \<Longrightarrow> length b = Suc (length b')"
    unfolding b'_def by (intro length_remove) (simp add: contains_header_get)
  show ?case
    using Cons.IH [OF d(1) b'(1)] len unfolding head tail [symmetric] keys by (auto simp: h)
qed

end

interpretation common: header_vector "(=)" "\<lambda>k :: HTTPHeaderName. k"
  by unfold_locales simp

interpretation uncommon: header_vector equalIgnoringASCIICase "map toASCIILower"
  by unfold_locales (rule equalIgnoringASCIICase_map)

section \<open>The map of names to values\<close>

lemma known_header_iff:
  "known_header name = Some h \<longleftrightarrow> h < 84 \<and> equalIgnoringASCIICase name (httpHeaderNameString h)"
proof -
  obtain r where "findHTTPHeaderName False name = Inr r"
    and r: "\<forall>h. r = Some h \<longleftrightarrow> h < 84 \<and> equalIgnoringASCIICase name (httpHeaderNameString h)"
    using findHTTPHeaderName_found [of False name] by blast
  then have "known_header name = r" by (simp add: known_header_def)
  with r show ?thesis by blast
qed

lemma known_header_same: "equalIgnoringASCIICase n n' \<Longrightarrow> known_header n = known_header n'"
proof -
  assume "equalIgnoringASCIICase n n'"
  then have "known_header n = Some h \<longleftrightarrow> known_header n' = Some h" for h
    by (simp add: known_header_iff equalIgnoringASCIICase_map)
  then show ?thesis by (metis not_None_eq)
qed

lemma known_header_name: "h < 84 \<Longrightarrow> known_header (httpHeaderNameString h) = Some h"
  by (simp add: known_header_iff equalIgnoringASCIICase_map)

lemma known_header_Some: "known_header n = Some h \<Longrightarrow> known_header n' = Some h' \<Longrightarrow>
    h = h' \<longleftrightarrow> equalIgnoringASCIICase n n'"
proof
  assume "known_header n = Some h" "known_header n' = Some h'" "h = h'"
  then show "equalIgnoringASCIICase n n'" by (simp add: known_header_iff equalIgnoringASCIICase_map)
next
  assume "known_header n = Some h" "known_header n' = Some h'" "equalIgnoringASCIICase n n'"
  then show "h = h'" using known_header_same [of n n'] by simp
qed

lemma known_header_None: "known_header n = Some h \<Longrightarrow> known_header n' = None \<Longrightarrow>
    \<not> equalIgnoringASCIICase n n' \<and> \<not> equalIgnoringASCIICase n' n"
  using known_header_same [of n n'] known_header_same [of n' n] by auto

definition header_map_ok :: "HTTPHeaderMap \<Rightarrow> bool" where
  "header_map_ok m \<longleftrightarrow>
     distinct_headers (=) (m_commonHeaders m) \<and>
     list_all (\<lambda>(k, _). k < 84) (m_commonHeaders m) \<and>
     distinct_headers equalIgnoringASCIICase (m_uncommonHeaders m) \<and>
     list_all (\<lambda>(k, _). known_header k = None) (m_uncommonHeaders m)"

lemmas field_defs = get_field_def set_field_def add_field_def append_field_def contains_field_def
  remove_field_def get_common_def set_common_def add_common_def contains_common_def remove_common_def
  getUncommonHeader_def setUncommonHeader_def

lemma contains_field_get: "contains_field m name \<longleftrightarrow> get_field m name \<noteq> None"
  by (simp add: field_defs contains_header_get split: option.splits)

text \<open>Two names are looked up in the same vector or are different names.\<close>

lemma two_names:
  obtains (common) h h' where "known_header n = Some h" "known_header n' = Some h'"
      "h = h' \<longleftrightarrow> equalIgnoringASCIICase n n'"
  | (uncommon) "known_header n = None" "known_header n' = None"
  | (mixed) h where "known_header n = Some h" "known_header n' = None" "\<not> equalIgnoringASCIICase n n'"
  | (mixed') h where "known_header n = None" "known_header n' = Some h" "\<not> equalIgnoringASCIICase n n'"
  using known_header_Some [of n _ n'] known_header_None [of n _ n'] known_header_None [of n' _ n]
  by (cases "known_header n"; cases "known_header n'") blast+

lemma get_set_field: "get_field (set_field n v m) n' =
    (if equalIgnoringASCIICase n n' then Some v else get_field m n')"
  by (rule two_names [of n n']) (simp_all add: field_defs common.get_set uncommon.get_set)

lemma get_add_field: "get_field (add_field n v m) n' =
    (if equalIgnoringASCIICase n n'
     then Some (case get_field m n of None \<Rightarrow> v | Some w \<Rightarrow> w @ ascii '', '' @ v)
     else get_field m n')"
  by (rule two_names [of n n']) (simp_all add: field_defs common.get_add uncommon.get_add)

lemma get_append_field: "\<not> contains_field m n \<Longrightarrow> get_field (append_field n v m) n' =
    (if equalIgnoringASCIICase n n' then Some v else get_field m n')"
  by (rule two_names [of n n']) (simp_all add: field_defs common.get_append uncommon.get_append)

lemma get_remove_field: "header_map_ok m \<Longrightarrow> get_field (snd (remove_field n m)) n' =
    (if equalIgnoringASCIICase n n' then None else get_field m n')"
  by (rule two_names [of n n'])
    (simp_all add: header_map_ok_def field_defs split_beta common.get_remove uncommon.get_remove)

lemma remove_field_result: "fst (remove_field n m) \<longleftrightarrow> contains_field m n"
  by (simp add: field_defs split_beta common.remove_result uncommon.remove_result split: option.splits)

section \<open>The invariant\<close>

lemma keys_of_updates:
  assumes "list_all (\<lambda>(k, _). P k) hs"
  shows "P n \<Longrightarrow> list_all (\<lambda>(k, _). P k) (set_header same n v hs)"
    and "P n \<Longrightarrow> list_all (\<lambda>(k, _). P k) (add_header same n v hs)"
    and "list_all (\<lambda>(k, _). P k) (snd (remove_header same n hs))"
  using assms by (induction hs) auto

lemma set_common_ok: "header_map_ok m \<Longrightarrow> h < 84 \<Longrightarrow> header_map_ok (set_common h v m)"
  by (simp add: header_map_ok_def set_common_def common.distinct_set keys_of_updates)

lemma add_common_ok: "header_map_ok m \<Longrightarrow> h < 84 \<Longrightarrow> header_map_ok (add_common h v m)"
  by (simp add: header_map_ok_def add_common_def common.distinct_add keys_of_updates)

lemma remove_common_ok: "header_map_ok m \<Longrightarrow> header_map_ok (snd (remove_common h m))"
  by (simp add: header_map_ok_def remove_common_def split_beta common.distinct_remove keys_of_updates)

lemma addIfNotPresent_ok: "header_map_ok m \<Longrightarrow> h < 84 \<Longrightarrow> header_map_ok (snd (addIfNotPresent h v m))"
  by (simp add: header_map_ok_def addIfNotPresent_def contains_common_def common.distinct_append)

lemma known_header_range: "known_header n = Some h \<Longrightarrow> h < 84"
  by (simp add: known_header_iff)

lemma set_field_ok: "header_map_ok m \<Longrightarrow> header_map_ok (set_field n v m)"
  by (auto simp: set_field_def set_common_ok known_header_range setUncommonHeader_def header_map_ok_def
      uncommon.distinct_set keys_of_updates split: option.splits)
    (simp_all add: set_common_def common.distinct_set keys_of_updates known_header_range)

lemma add_field_ok: "header_map_ok m \<Longrightarrow> header_map_ok (add_field n v m)"
  by (simp add: add_field_def add_common_def header_map_ok_def common.distinct_add
      uncommon.distinct_add keys_of_updates known_header_range split: option.splits)

lemma append_field_ok: "header_map_ok m \<Longrightarrow> \<not> contains_field m n \<Longrightarrow> header_map_ok (append_field n v m)"
  by (simp add: append_field_def contains_field_def contains_common_def header_map_ok_def
      common.distinct_append uncommon.distinct_append known_header_range split: option.splits)

lemma remove_field_ok: "header_map_ok m \<Longrightarrow> header_map_ok (snd (remove_field n m))"
  by (simp add: remove_field_def remove_common_def header_map_ok_def split_beta
      common.distinct_remove uncommon.distinct_remove keys_of_updates split: option.splits)

text \<open>The maps that calls of the public operations build; \<open>append\<close> asserts that the name is absent.\<close>

inductive header_map_built :: "HTTPHeaderMap \<Rightarrow> bool" where
  new: "header_map_built HTTPHeaderMap_new"
| set_f: "header_map_built m \<Longrightarrow> header_map_built (set_field n v m)"
| add_f: "header_map_built m \<Longrightarrow> header_map_built (add_field n v m)"
| append_f: "header_map_built m \<Longrightarrow> \<not> contains_field m n \<Longrightarrow> header_map_built (append_field n v m)"
| remove_f: "header_map_built m \<Longrightarrow> header_map_built (snd (remove_field n m))"
| set_c: "header_map_built m \<Longrightarrow> h < 84 \<Longrightarrow> header_map_built (set_common h v m)"
| add_c: "header_map_built m \<Longrightarrow> h < 84 \<Longrightarrow> header_map_built (add_common h v m)"
| present_c: "header_map_built m \<Longrightarrow> h < 84 \<Longrightarrow> header_map_built (snd (addIfNotPresent h v m))"
| remove_c: "header_map_built m \<Longrightarrow> header_map_built (snd (remove_common h m))"
| clear: "header_map_built m \<Longrightarrow> header_map_built (clear_fields m)"

lemma header_map_built_ok: "header_map_built m \<Longrightarrow> header_map_ok m"
proof (induction rule: header_map_built.induct)
  case new
  then show ?case by (simp add: HTTPHeaderMap_new_def header_map_ok_def)
next
  case (clear m)
  then show ?case by (simp add: clear_fields_def header_map_ok_def)
qed (simp_all add: set_field_ok add_field_ok append_field_ok remove_field_ok set_common_ok add_common_ok
    addIfNotPresent_ok remove_common_ok)

text \<open>
  C6: the header map is a map from names in any mixture of case. After any calls of its operations,
  setting, adding, appending and removing a field change what is found under that name, as a map does
  (adding joins the values with a comma), and what is found under no other name.
\<close>

theorem header_map_laws:
  assumes "header_map_built m"
  shows "get_field (set_field n v m) n' = (if equalIgnoringASCIICase n n' then Some v else get_field m n') \<and>
    get_field (add_field n v m) n' =
      (if equalIgnoringASCIICase n n'
       then Some (case get_field m n of None \<Rightarrow> v | Some w \<Rightarrow> w @ ascii '', '' @ v)
       else get_field m n') \<and>
    (\<not> contains_field m n \<longrightarrow> get_field (append_field n v m) n' =
      (if equalIgnoringASCIICase n n' then Some v else get_field m n')) \<and>
    get_field (snd (remove_field n m)) n' =
      (if equalIgnoringASCIICase n n' then None else get_field m n') \<and>
    fst (remove_field n m) = (get_field m n \<noteq> None) \<and>
    get_field (clear_fields m) n' = None"
proof (intro conjI impI)
  note ok = header_map_built_ok [OF assms]
  show "get_field (snd (remove_field n m)) n' =
      (if equalIgnoringASCIICase n n' then None else get_field m n')"
    using ok by (rule get_remove_field)
  show "fst (remove_field n m) = (get_field m n \<noteq> None)"
    by (simp add: remove_field_result contains_field_get)
  show "get_field (clear_fields m) n' = None"
    by (simp add: clear_fields_def field_defs split: option.splits)
qed (simp_all add: get_set_field get_add_field get_append_field)

theorem header_map_laws_witness:
  "get_field (set_field (ascii ''content-type'') (ascii ''b'')
     (set_field (ascii ''Content-Type'') (ascii ''a'') HTTPHeaderMap_new)) (ascii ''CONTENT-TYPE'') =
   Some (ascii ''b'')"
proof -
  have "header_map_built (set_field (ascii ''Content-Type'') (ascii ''a'') HTTPHeaderMap_new)"
    by (intro header_map_built.intros)
  note laws = conjunct1 [OF header_map_laws [OF this, of "ascii ''content-type''" "ascii ''b''"
        "ascii ''CONTENT-TYPE''"]]
  have "equalIgnoringASCIICase (ascii ''content-type'') (ascii ''CONTENT-TYPE'')" by code_simp
  then show ?thesis unfolding laws by (rule if_P)
qed

section \<open>Equality\<close>

lemma get_header_range:
  "list_all (\<lambda>(k, _). P k) hs \<Longrightarrow> (\<And>k. P k \<Longrightarrow> \<not> same k n) \<Longrightarrow> get_header same hs n = None"
  by (induction hs) auto

lemma get_vectors_of_fields:
  assumes "header_map_ok a" and "header_map_ok b" and eq: "get_field a = get_field b"
  shows "get_common a = get_common b" and "getUncommonHeader a = getUncommonHeader b"
proof -
  show "get_common a = get_common b"
  proof
    fix h
    show "get_common a h = get_common b h"
    proof (cases "h < 84")
      case True
      with fun_cong [OF eq, of "httpHeaderNameString h"] show ?thesis
        by (simp add: get_field_def known_header_name)
    next
      case False
      have "get_common m h = None" if "header_map_ok m" for m
        unfolding get_common_def using that False
        by (intro get_header_range [where P = "\<lambda>k. k < 84"]) (auto simp: header_map_ok_def)
      with assms show ?thesis by simp
    qed
  qed
  show "getUncommonHeader a = getUncommonHeader b"
  proof
    fix n
    show "getUncommonHeader a n = getUncommonHeader b n"
    proof (cases "known_header n")
      case None
      with fun_cong [OF eq, of n] show ?thesis by (simp add: get_field_def)
    next
      case (Some h)
      have "getUncommonHeader m n = None" if "header_map_ok m" for m
        unfolding getUncommonHeader_def using that Some
        by (intro get_header_range [where P = "\<lambda>k. known_header k = None"])
          (auto simp: header_map_ok_def dest: known_header_same)
      with assms show ?thesis by simp
    qed
  qed
qed

text \<open>
  C29: the comparison of two header maps, which compares the numbers of fields and looks up every field
  of the first map in the second, holds exactly when the two maps have the same value under every name.
\<close>

theorem header_map_equality:
  assumes "header_map_built a" and "header_map_built b"
  shows "header_maps_equal a b \<longleftrightarrow> get_field a = get_field b"
proof -
  note ok = header_map_built_ok [OF assms(1)] header_map_built_ok [OF assms(2)]
  have "header_maps_equal a b \<longleftrightarrow>
      get_common a = get_common b \<and> getUncommonHeader a = getUncommonHeader b"
    using ok common.equal_vectors [of "m_commonHeaders a" "m_commonHeaders b"]
      uncommon.equal_vectors [of "m_uncommonHeaders a" "m_uncommonHeaders b"]
    unfolding header_maps_equal_def get_common_def getUncommonHeader_def header_map_ok_def by auto
  also have "\<dots> \<longleftrightarrow> get_field a = get_field b"
  proof
    assume "get_common a = get_common b \<and> getUncommonHeader a = getUncommonHeader b"
    then show "get_field a = get_field b" by (intro ext) (simp add: get_field_def split: option.splits)
  qed (use get_vectors_of_fields [OF ok] in simp)
  finally show ?thesis .
qed

lemma set_field_commute:
  assumes "equalIgnoringASCIICase n n'" and "equalIgnoringASCIICase l l'"
    and "\<not> equalIgnoringASCIICase n l"
  shows "get_field (set_field n v (set_field l w m)) = get_field (set_field l' w (set_field n' v m))"
  using assms by (intro ext) (auto simp: get_set_field equalIgnoringASCIICase_map)

theorem header_map_equality_witness:
  "header_maps_equal
     (set_field (ascii ''Host'') (ascii ''a'') (set_field (ascii ''X'') (ascii ''b'') HTTPHeaderMap_new))
     (set_field (ascii ''x'') (ascii ''b'') (set_field (ascii ''host'') (ascii ''a'') HTTPHeaderMap_new))"
proof -
  let ?a = "set_field (ascii ''Host'') (ascii ''a'') (set_field (ascii ''X'') (ascii ''b'') HTTPHeaderMap_new)"
  let ?b = "set_field (ascii ''x'') (ascii ''b'') (set_field (ascii ''host'') (ascii ''a'') HTTPHeaderMap_new)"
  have "get_field ?a = get_field ?b"
    by (rule set_field_commute) code_simp+
  moreover have "header_map_built ?a" "header_map_built ?b" by (intro header_map_built.intros)+
  ultimately show ?thesis using header_map_equality [of ?a ?b] by blast
qed

end
