(* ===== verification/Data_Task.thy ===== *)
theory Data_Task
  imports HTTP_Header_Map Request_Query
begin

text \<open>
  What the data tasks for local commands, local databases and remote databases have in common
  (src/Source/PurCFetcher/network/NetworkDataTask.h and NetworkDataTask.cpp, and the functions that
  NetworkDataTaskLcmd.cpp, NetworkDataTaskLsql.cpp and NetworkDataTaskRsql.cpp repeat with the same
  text): the states, scheduled failures, the response, and the answer of the client. A task is a state
  machine; its steps are the calls of its owner (NetworkLoad.cpp), its timer, and the answer of the
  client to the response. The locale \<open>local_data_task\<close> states what the three tasks promise of
  \<open>sendRequest\<close>, and derives what the client can observe.
\<close>

section \<open>Media types\<close>

definition extractMIMETypeFromMediaType :: "WString \<Rightarrow> WString" where
  "extractMIMETypeFromMediaType mediaType =
     (let typeStart = length (takeWhile (\<lambda>c. c = 9 \<or> c = 32) mediaType)
      in if typeStart = length mediaType then mediaType
         else
           let typeEnd = typeStart +
             length (takeWhile (\<lambda>c. c \<noteq> 44 \<and> c \<noteq> 9 \<and> c \<noteq> 32 \<and> c \<noteq> 59) (drop typeStart mediaType))
           in substring mediaType typeStart (typeEnd - typeStart))"

fun findIgnoringASCIICase_loop :: "WString \<Rightarrow> WString \<Rightarrow> nat \<Rightarrow> nat \<Rightarrow> nat option" where
  "findIgnoringASCIICase_loop source matchCharacters i 0 = None"
| "findIgnoringASCIICase_loop source matchCharacters i (Suc k) =
     (if equalIgnoringASCIICase (take (length matchCharacters) (drop i source)) matchCharacters
      then Some i
      else findIgnoringASCIICase_loop source matchCharacters (Suc i) k)"

definition findIgnoringASCIICase :: "WString \<Rightarrow> WString \<Rightarrow> nat \<Rightarrow> nat option" where
  "findIgnoringASCIICase source stringToFind startOffset =
     (if stringToFind = [] then Some (min startOffset (length source))
      else if length source < startOffset then None
      else if length source - startOffset < length stringToFind then None
      else findIgnoringASCIICase_loop source stringToFind startOffset
             (length source - startOffset - length stringToFind + 1))"

text \<open>\<open>operator[]\<close> returns 0 behind the end.\<close>

definition characterAt :: "WString \<Rightarrow> nat \<Rightarrow> UChar" where
  "characterAt s i = (if i < length s then s ! i else 0)"

lemma findIgnoringASCIICase_loop_ge:
  "findIgnoringASCIICase_loop source m i k = Some p \<Longrightarrow> i \<le> p"
  by (induction source m i k rule: findIgnoringASCIICase_loop.induct) (auto split: if_splits)

lemma findIgnoringASCIICase_ge:
  "findIgnoringASCIICase source m i = Some p \<Longrightarrow> m \<noteq> [] \<Longrightarrow> i \<le> p"
  by (auto simp: findIgnoringASCIICase_def split: if_splits dest: findIgnoringASCIICase_loop_ge)

text \<open>The position and the length of the character set.\<close>

function findCharset_loop :: "WString \<Rightarrow> nat \<Rightarrow> nat \<Rightarrow> nat \<times> nat" where
  "findCharset_loop mediaType start pos =
     (if length mediaType \<le> pos then (start, 0)
      else case findIgnoringASCIICase mediaType (ascii ''charset'') pos of
          None \<Rightarrow> (start, 0)
        | Some p \<Rightarrow>
            if p = 0 then (start, 0)
            else if 32 < characterAt mediaType (p - 1) \<and> characterAt mediaType (p - 1) \<noteq> 59
            then findCharset_loop mediaType start (p + 7)
            else
              let p = p + 7 + length (takeWhile (\<lambda>c. c \<le> 32) (drop (p + 7) mediaType))
              in if characterAt mediaType p \<noteq> 61 then findCharset_loop mediaType start (p + 1)
                 else
                   let p = p + 1 +
                         length (takeWhile (\<lambda>c. c \<le> 32 \<or> c = 34 \<or> c = 39) (drop (p + 1) mediaType));
                       len = length (takeWhile (\<lambda>c. 32 < c \<and> c \<noteq> 34 \<and> c \<noteq> 39 \<and> c \<noteq> 59) (drop p mediaType))
                   in (p, len))"
  by auto
termination
  by (relation "measure (\<lambda>(s, start, pos). length s - pos)")
    (auto dest!: findIgnoringASCIICase_ge simp: ascii_def)

declare findCharset_loop.simps [simp del]

definition extractCharsetFromMediaType :: "WString \<Rightarrow> WString" where
  "extractCharsetFromMediaType mediaType =
     (let (pos, len) = findCharset_loop mediaType 0 0 in substring mediaType pos len)"

section \<open>Tasks\<close>

datatype State = Running | Suspended | Canceling | Completed

datatype FailureType = NoFailure | BlockedFailure | InvalidURLFailure | RestrictedURLFailure

datatype PolicyAction = Use | Download | Ignore | StopAllLoads

text \<open>
  The part of a response the tasks set. \<open>otherPort\<close>: the URL has a port that is not the default port
  of its protocol.
\<close>

record ResourceResponse =
  m_mimeType :: WString
  m_textEncodingName :: WString
  m_expectedContentLength :: nat
  m_httpHeaderFields :: HTTPHeaderMap
  m_httpStatusCode :: int
  m_httpVersion :: WString
  otherPort :: bool

text \<open>The calls a client receives, in order.\<close>

datatype client_call =
    DidReceiveResponse ResourceResponse
  | DidReceiveData "nat list"
  | DidFinish
  | DidFail
  | WasBlocked
  | CannotShowURL
  | WasBlockedByRestrictions

text \<open>
  \<open>m_state\<close>, \<open>m_response\<close>, \<open>m_responseBuffer\<close> and \<open>m_statusCode\<close> are declared by each of the three
  tasks, and so is \<open>m_currentRequest\<close>, of which the tasks read the path and the query of the URL and
  whether it has a port that is not the default one; the others are those of the base class.
  \<open>m_client\<close>: the client is attached; \<open>m_failureTimer\<close>: the timer is active; \<open>responseHandler\<close>: the
  client holds the completion handler of a response and has not called it; \<open>client_calls\<close>: the calls
  the client has received.
\<close>

record local_task =
  m_state :: State
  m_scheduledFailureType :: FailureType
  m_failureTimer :: bool
  m_client :: bool
  url_path :: WString
  url_query :: "WString option"
  url_otherPort :: bool
  m_response :: ResourceResponse
  m_responseBuffer :: "nat list"
  m_statusCode :: int
  responseHandler :: bool
  client_calls :: "client_call list"

section \<open>The base class\<close>

definition scheduleFailure :: "FailureType \<Rightarrow> 'a local_task_scheme \<Rightarrow> 'a local_task_scheme" where
  "scheduleFailure type task = task\<lparr>m_scheduledFailureType := type, m_failureTimer := True\<rparr>"

text \<open>The constructor, applied to the fields as their initialisers set them.\<close>

definition NetworkDataTask_new ::
  "bool \<Rightarrow> bool \<Rightarrow> 'a local_task_scheme \<Rightarrow> 'a local_task_scheme" where
  "NetworkDataTask_new urlIsValid portAllowed task =
     (if \<not> urlIsValid then scheduleFailure InvalidURLFailure task
      else if \<not> portAllowed then scheduleFailure BlockedFailure task
      else task)"

definition call_client :: "client_call \<Rightarrow> 'a local_task_scheme \<Rightarrow> 'a local_task_scheme" where
  "call_client c task = task\<lparr>client_calls := client_calls task @ [c]\<rparr>"

definition call_client_if_any :: "client_call \<Rightarrow> 'a local_task_scheme \<Rightarrow> 'a local_task_scheme" where
  "call_client_if_any c task = (if m_client task then call_client c task else task)"

definition failureTimerFired :: "'a local_task_scheme \<Rightarrow> 'a local_task_scheme" where
  "failureTimerFired task =
     (let task = task\<lparr>m_failureTimer := False\<rparr>
      in case m_scheduledFailureType task of
          BlockedFailure \<Rightarrow>
            call_client_if_any WasBlocked (task\<lparr>m_scheduledFailureType := NoFailure\<rparr>)
        | InvalidURLFailure \<Rightarrow>
            call_client_if_any CannotShowURL (task\<lparr>m_scheduledFailureType := NoFailure\<rparr>)
        | RestrictedURLFailure \<Rightarrow>
            call_client_if_any WasBlockedByRestrictions (task\<lparr>m_scheduledFailureType := NoFailure\<rparr>)
        | NoFailure \<Rightarrow> task)"

definition clearClient :: "'a local_task_scheme \<Rightarrow> 'a local_task_scheme" where
  "clearClient task = task\<lparr>m_client := False\<rparr>"

definition cancel :: "'a local_task_scheme \<Rightarrow> 'a local_task_scheme" where
  "cancel task =
     (if m_state task = Canceling \<or> m_state task = Completed then task
      else task\<lparr>m_state := Canceling\<rparr>)"

definition isHTTP09 :: "ResourceResponse \<Rightarrow> bool" where
  "isHTTP09 response = startsWith (m_httpVersion response) (ascii ''HTTP/0.9'')"

text \<open>
  Calling the completion handler at once with \<open>Ignore\<close> does nothing but mark it as called; handing it
  to the client leaves the call to the client.
\<close>

definition didReceiveResponse :: "ResourceResponse \<Rightarrow> 'a local_task_scheme \<Rightarrow> 'a local_task_scheme" where
  "didReceiveResponse response task =
     (if isHTTP09 response \<and> otherPort response
      then call_client_if_any DidFail (cancel task)
      else if m_client task
      then (call_client (DidReceiveResponse response) task)\<lparr>responseHandler := True\<rparr>
      else task)"

section \<open>The functions the three tasks repeat\<close>

definition createRequest ::
  "WString \<Rightarrow> WString option \<Rightarrow> bool \<Rightarrow> 'a local_task_scheme \<Rightarrow> 'a local_task_scheme" where
  "createRequest path query port task =
     task\<lparr>url_path := path, url_query := query, url_otherPort := port\<rparr>"

definition setHTTPHeaderField ::
  "HTTPHeaderName \<Rightarrow> WString \<Rightarrow> ResourceResponse \<Rightarrow> ResourceResponse" where
  "setHTTPHeaderField name value response =
     response\<lparr>m_httpHeaderFields := set_common name value (m_httpHeaderFields response)\<rparr>"

definition response_of :: "'a local_task_scheme \<Rightarrow> ResourceResponse" where
  "response_of task =
     (let contentType = ascii ''application/json'';
          response = (m_response task)\<lparr>otherPort := url_otherPort task\<rparr>;
          response = response\<lparr>m_mimeType := extractMIMETypeFromMediaType contentType\<rparr>;
          response = response\<lparr>m_textEncodingName := extractCharsetFromMediaType contentType\<rparr>;
          response = response\<lparr>m_expectedContentLength := length (m_responseBuffer task)\<rparr>;
          response = setHTTPHeaderField HTTPHeaderName_AccessControlAllowOrigin (ascii ''*'') response;
          response = setHTTPHeaderField HTTPHeaderName_Expires (ascii ''-1'') response;
          response = setHTTPHeaderField HTTPHeaderName_CacheControl (ascii ''no-cache'') response;
          response = setHTTPHeaderField HTTPHeaderName_Pragma (ascii ''no-cache'') response
      in response\<lparr>m_httpStatusCode := m_statusCode task\<rparr>)"

definition dispatchDidReceiveResponse :: "'a local_task_scheme \<Rightarrow> 'a local_task_scheme" where
  "dispatchDidReceiveResponse task =
     (let task = task\<lparr>m_response := response_of task\<rparr>
      in didReceiveResponse (m_response task) task)"

definition dispatchDidCompleteWithError :: "'a local_task_scheme \<Rightarrow> 'a local_task_scheme res" where
  "dispatchDidCompleteWithError task =
     (if m_client task then Inr (call_client DidFinish task) else Inl NullDereference)"

text \<open>
  The completion handler of \<open>dispatchDidReceiveResponse\<close>; the buffer is moved to the client. The task
  for local databases has its own \<open>dispatchDidCompleteWithError\<close>, hence the parameter.
\<close>

definition response_handler ::
  "('a local_task_scheme \<Rightarrow> 'a local_task_scheme res) \<Rightarrow> PolicyAction \<Rightarrow>
     'a local_task_scheme \<Rightarrow> 'a local_task_scheme res" where
  "response_handler complete policyAction task =
     (let task = task\<lparr>responseHandler := False\<rparr>
      in if m_state task = Canceling \<or> m_state task = Completed then Inr task
         else case policyAction of
             Use \<Rightarrow>
               if m_client task
               then complete
                 ((call_client (DidReceiveData (m_responseBuffer task)) task)\<lparr>m_responseBuffer := []\<rparr>)
               else Inl NullDereference
           | _ \<Rightarrow> Inr task)"

definition resume ::
  "('a local_task_scheme \<Rightarrow> 'a local_task_scheme res) \<Rightarrow> 'a local_task_scheme \<Rightarrow> 'a local_task_scheme res"
where
  "resume sendRequest task =
     (if m_state task = Canceling \<or> m_state task = Completed then Inr task
      else
        let task = task\<lparr>m_state := Running\<rparr>
        in if m_scheduledFailureType task \<noteq> NoFailure then Inr task
           else sendRequest task)"

text \<open>What follows the construction of the base class in the constructor of each task.\<close>

definition task_new ::
  "bool \<Rightarrow> bool \<Rightarrow> WString \<Rightarrow> WString option \<Rightarrow> bool \<Rightarrow> 'a local_task_scheme \<Rightarrow> 'a local_task_scheme"
where
  "task_new urlIsValid portAllowed path query port task =
     (let task = NetworkDataTask_new urlIsValid portAllowed task
      in if m_scheduledFailureType task \<noteq> NoFailure then task
         else createRequest path query port task)"

text \<open>The fields as their initialisers leave them; \<open>m_statusCode\<close> has none.\<close>

definition fresh_task :: "int \<Rightarrow> 'a \<Rightarrow> 'a local_task_scheme" where
  "fresh_task undefinedStatus rest =
     \<lparr>m_state = Suspended, m_scheduledFailureType = NoFailure, m_failureTimer = False, m_client = True,
      url_path = [], url_query = None, url_otherPort = False,
      m_response = \<lparr>m_mimeType = [], m_textEncodingName = [], m_expectedContentLength = 0,
        m_httpHeaderFields = HTTPHeaderMap_new, m_httpStatusCode = 0, m_httpVersion = [],
        otherPort = False\<rparr>,
      m_responseBuffer = [], m_statusCode = undefinedStatus, responseHandler = False,
      client_calls = [], \<dots> = rest\<rparr>"

text \<open>The start of a load: the task is created and resumed at once.\<close>

definition NetworkLoad_initialize ::
  "('a local_task_scheme \<Rightarrow> 'a local_task_scheme res) \<Rightarrow> bool \<Rightarrow> bool \<Rightarrow> WString \<Rightarrow> WString option \<Rightarrow>
     bool \<Rightarrow> 'a local_task_scheme \<Rightarrow> 'a local_task_scheme res"
where
  "NetworkLoad_initialize sendRequest urlIsValid portAllowed path query port fresh =
     resume sendRequest (task_new urlIsValid portAllowed path query port fresh)"

lemma initialize_valid:
  "NetworkLoad_initialize sendRequest True True path query port (fresh_task s rest) =
     sendRequest ((createRequest path query port (fresh_task s rest))\<lparr>m_state := Running\<rparr>)"
  by (simp add: NetworkLoad_initialize_def resume_def task_new_def NetworkDataTask_new_def
      createRequest_def fresh_task_def Let_def)

section \<open>The state machine\<close>

text \<open>
  What can happen to a task once it was started: its owner cancels it, its owner goes away, its timer
  fires, or the client answers the response. A step may fail.
\<close>

inductive task_step ::
  "('a local_task_scheme \<Rightarrow> 'a local_task_scheme res) \<Rightarrow> 'a local_task_scheme \<Rightarrow>
     'a local_task_scheme res \<Rightarrow> bool"
  for complete where
  canceled: "task_step complete task (Inr (cancel task))"
| detached: "m_client task \<Longrightarrow> task_step complete task (Inr (clearClient task))"
| fired: "m_failureTimer task \<Longrightarrow> task_step complete task (Inr (failureTimerFired task))"
| answered: "responseHandler task \<Longrightarrow> task_step complete task (response_handler complete policy task)"

inductive_cases task_stepE: "task_step complete task r"

inductive task_reached ::
  "('a local_task_scheme \<Rightarrow> 'a local_task_scheme res) \<Rightarrow> 'a local_task_scheme \<Rightarrow>
     'a local_task_scheme \<Rightarrow> bool"
  for complete and start where
  started: "task_reached complete start start"
| stepped: "task_reached complete start task \<Longrightarrow> task_step complete task (Inr task') \<Longrightarrow>
    task_reached complete start task'"

text \<open>The failures a timer reports.\<close>

fun failure_call :: "FailureType \<Rightarrow> client_call list" where
  "failure_call NoFailure = []"
| "failure_call BlockedFailure = [WasBlocked]"
| "failure_call InvalidURLFailure = [CannotShowURL]"
| "failure_call RestrictedURLFailure = [WasBlockedByRestrictions]"

text \<open>
  The phases of a task: it waits for its timer, it has reported a failure, it waits for the answer of
  the client, and the client has answered, with the data delivered or not.
\<close>

datatype phase = Waiting FailureType | Failed FailureType | Asking ResourceResponse
  | Delivered ResourceResponse "nat list" | Dropped ResourceResponse | Lost

fun phase_calls :: "phase \<Rightarrow> client_call list" where
  "phase_calls (Waiting f) = []"
| "phase_calls (Failed f) = failure_call f"
| "phase_calls (Asking r) = [DidReceiveResponse r]"
| "phase_calls (Delivered r d) = [DidReceiveResponse r, DidReceiveData d, DidFinish]"
| "phase_calls (Dropped r) = [DidReceiveResponse r]"
| "phase_calls Lost = []"

definition task_in :: "phase \<Rightarrow> 'a local_task_scheme \<Rightarrow> bool" where
  "task_in ph task \<longleftrightarrow>
     m_state task \<in> {Running, Canceling} \<and> client_calls task = phase_calls ph \<and>
     m_scheduledFailureType task = (case ph of Waiting f \<Rightarrow> f | _ \<Rightarrow> NoFailure) \<and>
     (m_failureTimer task \<longleftrightarrow> (\<exists>f. ph = Waiting f)) \<and> (responseHandler task \<longleftrightarrow> (\<exists>r. ph = Asking r)) \<and>
     (case ph of
        Waiting f \<Rightarrow> f \<noteq> NoFailure
      | Failed f \<Rightarrow> f \<noteq> NoFailure
      | Asking r \<Rightarrow> m_expectedContentLength r = length (m_responseBuffer task)
      | Delivered r d \<Rightarrow> m_expectedContentLength r = length d
      | Dropped r \<Rightarrow> True
      | Lost \<Rightarrow> \<not> m_client task)"

text \<open>A task that is about to send its request.\<close>

definition ready :: "'a local_task_scheme \<Rightarrow> bool" where
  "ready task \<longleftrightarrow>
     m_state task = Running \<and> m_scheduledFailureType task = NoFailure \<and> \<not> m_failureTimer task \<and>
     m_client task \<and> \<not> responseHandler task \<and> client_calls task = [] \<and>
     m_httpVersion (m_response task) = []"

lemma startsWith_empty [simp]: "p \<noteq> [] \<Longrightarrow> \<not> startsWith [] p"
  by (simp add: startsWith_def)

lemma response_of_fields [simp]:
  "m_httpVersion (response_of task) = m_httpVersion (m_response task)"
  "m_expectedContentLength (response_of task) = length (m_responseBuffer task)"
  "m_httpStatusCode (response_of task) = m_statusCode task"
  by (simp_all add: response_of_def setHTTPHeaderField_def Let_def)

text \<open>
  A task while it sends its request: it is still attached, and may have seen a cancellation. Every task
  ends \<open>sendRequest\<close> with \<open>dispatchDidReceiveResponse\<close>.
\<close>

definition sending :: "'a local_task_scheme \<Rightarrow> bool" where
  "sending task \<longleftrightarrow> ready (task\<lparr>m_state := Running\<rparr>) \<and> m_state task \<in> {Running, Canceling}"

lemma ready_sending: "ready task \<Longrightarrow> sending task"
  by (simp add: sending_def ready_def)

lemma sending_updates [simp]:
  "sending (task\<lparr>m_responseBuffer := buffer\<rparr>) = sending task"
  "sending (task\<lparr>m_statusCode := status\<rparr>) = sending task"
  "sending task \<Longrightarrow> sending (cancel task)"
  by (auto simp: sending_def ready_def cancel_def)

lemma dispatch_asks:
  assumes "sending task"
  shows "task_in (Asking (response_of task)) (dispatchDidReceiveResponse task)"
    and "m_client (dispatchDidReceiveResponse task)"
    and "dispatchDidReceiveResponse task = task\<lparr>m_response := response_of task,
      client_calls := client_calls task @ [DidReceiveResponse (response_of task)], responseHandler := True\<rparr>"
  using assms
  by (auto simp: sending_def ready_def dispatchDidReceiveResponse_def didReceiveResponse_def isHTTP09_def
      task_in_def call_client_def ascii_def Let_def)

text \<open>
  Runs in which the owner neither cancels the task nor goes away, an active timer fires, and the client
  answers a response it was given with \<open>Use\<close>. Between two steps any time may pass.
\<close>

definition fair_run ::
  "('a local_task_scheme \<Rightarrow> 'a local_task_scheme res) \<Rightarrow> (nat \<Rightarrow> 'a local_task_scheme) \<Rightarrow> bool" where
  "fair_run complete run \<longleftrightarrow>
     (\<forall>i. run (Suc i) = run i \<or> task_step complete (run i) (Inr (run (Suc i)))) \<and>
     (\<forall>i. m_state (run i) = Running \<and> m_client (run i)) \<and>
     (\<forall>i. m_failureTimer (run i) \<longrightarrow>
       (\<exists>j\<ge>i. m_failureTimer (run j) \<and> run (Suc j) = failureTimerFired (run j))) \<and>
     (\<forall>i. responseHandler (run i) \<longrightarrow>
       (\<exists>j\<ge>i. responseHandler (run j) \<and> response_handler complete Use (run j) = Inr (run (Suc j))))"

locale local_data_task =
  fixes sendRequest :: "'a local_task_scheme \<Rightarrow> 'a local_task_scheme res"
    and complete :: "'a local_task_scheme \<Rightarrow> 'a local_task_scheme res"
  assumes send_asks: "ready task \<Longrightarrow> sendRequest task = Inr task' \<Longrightarrow>
      \<exists>r. task_in (Asking r) task' \<and> m_client task' \<and> m_httpStatusCode r = m_statusCode task'"
    and complete_finishes: "m_client task \<Longrightarrow>
      \<exists>rest. complete task = Inr (local_task.more_update (\<lambda>_. rest) (call_client DidFinish task))"
begin

lemma initialize_started:
  assumes "NetworkLoad_initialize sendRequest valid allowed path query port (fresh_task s rest) = Inr task"
  shows "\<exists>ph. task_in ph task \<and> m_client task \<and>
    ph \<in> insert (Waiting InvalidURLFailure) (insert (Waiting BlockedFailure) (range Asking))"
proof (cases "valid \<and> allowed")
  case True
  with assms have "sendRequest (createRequest path query port (fresh_task s rest)\<lparr>m_state := Running\<rparr>) = Inr task"
    by (simp add: initialize_valid)
  from send_asks [OF _ this] show ?thesis
    by (auto simp: ready_def createRequest_def fresh_task_def)
next
  case False
  with assms show ?thesis
    by (intro exI [of _ "Waiting (if valid then BlockedFailure else InvalidURLFailure)"])
      (auto simp: NetworkLoad_initialize_def resume_def task_new_def NetworkDataTask_new_def
        scheduleFailure_def fresh_task_def task_in_def Let_def split: if_splits)
qed

lemma use_delivers:
  assumes "task_in (Asking r) task" and "m_state task = Running" and "m_client task"
    and "response_handler complete Use task = Inr task'"
  shows "task_in (Delivered r (m_responseBuffer task)) task'"
proof -
  let ?task = "(call_client (DidReceiveData (m_responseBuffer task)) (task\<lparr>responseHandler := False\<rparr>))
    \<lparr>m_responseBuffer := []\<rparr>"
  obtain rest where "complete ?task = Inr (local_task.more_update (\<lambda>_. rest) (call_client DidFinish ?task))"
    using complete_finishes [of ?task] assms(3) by (auto simp: call_client_def)
  with assms show ?thesis
    by (auto simp: response_handler_def Let_def task_in_def call_client_def)
qed

lemma answer_keeps:
  assumes "task_in (Asking r) task" and "response_handler complete policy task = Inr task'"
  shows "\<exists>ph. task_in ph task'"
proof (cases "policy = Use \<and> m_state task = Running")
  case True
  with assms have "m_client task" by (auto simp: response_handler_def Let_def split: if_splits)
  with True assms show ?thesis by (auto intro: use_delivers)
next
  case False
  with assms have "task' = task\<lparr>responseHandler := False\<rparr>"
    by (cases policy) (auto simp: response_handler_def task_in_def Let_def split: if_splits)
  with assms(1) have "task_in (Dropped r) task'" by (simp add: task_in_def)
  then show ?thesis ..
qed

lemma timer_keeps:
  assumes "task_in (Waiting f) task"
  shows "task_in (if m_client task then Failed f else Lost) (failureTimerFired task)"
  using assms
  by (cases f) (auto simp: task_in_def failureTimerFired_def call_client_if_any_def call_client_def Let_def)

lemma step_keeps:
  assumes "task_in ph task" and "task_step complete task (Inr task')"
  shows "\<exists>ph'. task_in ph' task'"
  using assms(2)
proof (cases rule: task_step.cases)
  case canceled
  with assms(1) show ?thesis by (auto simp: task_in_def cancel_def split: phase.splits)
next
  case detached
  with assms(1) have "task_in ph task'" by (cases ph) (auto simp: task_in_def clearClient_def)
  then show ?thesis ..
next
  case fired
  with assms(1) obtain f where "ph = Waiting f" by (auto simp: task_in_def)
  with fired assms(1) timer_keeps show ?thesis by auto
next
  case (answered policy)
  with assms(1) obtain r where "ph = Asking r" by (auto simp: task_in_def)
  with answered assms(1) answer_keeps [of r task policy task'] show ?thesis by simp
qed

lemma step_fails:
  assumes "task_in ph task" and "task_step complete task (Inl e)"
  shows "e = NullDereference \<and> \<not> m_client task \<and> m_state task = Running \<and> (\<exists>r. ph = Asking r)"
  using assms(2)
proof (cases rule: task_step.cases)
  case (answered policy)
  with assms(1) have r: "\<exists>r. ph = Asking r" by (auto simp: task_in_def)
  let ?task = "(call_client (DidReceiveData (m_responseBuffer task)) (task\<lparr>responseHandler := False\<rparr>))
    \<lparr>m_responseBuffer := []\<rparr>"
  have "m_client task \<Longrightarrow> \<exists>t. complete ?task = Inr t"
    using complete_finishes [of ?task] by (auto simp: call_client_def)
  with answered assms(1) r show ?thesis
    by (cases policy) (auto simp: response_handler_def task_in_def Let_def split: if_splits)
qed

lemma reached_in:
  assumes "NetworkLoad_initialize sendRequest valid allowed path query port (fresh_task s rest) = Inr start"
    and "task_reached complete start task"
  shows "\<exists>ph. task_in ph task"
  using assms(2)
proof (induction rule: task_reached.induct)
  case started
  from initialize_started [OF assms(1)] show ?case by auto
next
  case (stepped task task')
  then show ?case by (auto intro: step_keeps)
qed

lemma fair_run_reached:
  assumes "fair_run complete run"
  shows "task_reached complete (run 0) (run i)"
proof (induction i)
  case (Suc i)
  from assms have "run (Suc i) = run i \<or> task_step complete (run i) (Inr (run (Suc i)))"
    by (simp add: fair_run_def)
  with Suc show ?case by (auto intro: task_reached.stepped)
qed (rule task_reached.started)

text \<open>Nothing happens any more once the task has reported its outcome.\<close>

lemma fair_run_outcome_stays:
  assumes "fair_run complete run" and "task_in ph (run k)" and "\<not> m_failureTimer (run k)"
    and "\<not> responseHandler (run k)" and "k \<le> k'"
  shows "run k' = run k"
  using assms(5)
proof (induction k' rule: dec_induct)
  case (step i)
  from assms(1) have "run (Suc i) = run i \<or> task_step complete (run i) (Inr (run (Suc i)))"
    and "m_state (run (Suc i)) = Running" "m_client (run (Suc i))" "m_state (run i) = Running"
    by (auto simp: fair_run_def)
  with step.IH assms(3,4) show ?case
    by (auto elim!: task_stepE simp: cancel_def clearClient_def)
qed simp

lemma fair_run_delivers:
  assumes start: "NetworkLoad_initialize sendRequest valid allowed path query port (fresh_task s rest) = Inr (run 0)"
    and fair: "fair_run complete run"
  shows "\<exists>k ph. ((\<exists>f. ph = Failed f) \<or> (\<exists>r d. ph = Delivered r d)) \<and> task_in ph (run k) \<and>
    (\<forall>k'\<ge>k. run k' = run k)"
proof -
  have kept: "m_state (run i) = Running" "m_client (run i)" for i using fair by (auto simp: fair_run_def)
  have known: "\<exists>ph. task_in ph (run i)" for i
    by (rule reached_in [OF start fair_run_reached [OF fair]])
  obtain ph where ph: "task_in ph (run 0)"
    and cases: "ph \<in> insert (Waiting InvalidURLFailure) (insert (Waiting BlockedFailure) (range Asking))"
    using initialize_started [OF start] by blast
  have "\<exists>k ph. ((\<exists>f. ph = Failed f) \<or> (\<exists>r d. ph = Delivered r d)) \<and> task_in ph (run k)"
  proof (cases "\<exists>f. ph = Waiting f")
    case True
    with ph have "m_failureTimer (run 0)" by (auto simp: task_in_def)
    with fair obtain j where j: "m_failureTimer (run j)" "run (Suc j) = failureTimerFired (run j)"
      by (auto simp: fair_run_def)
    from known [of j] j(1) obtain f where "task_in (Waiting f) (run j)" by (auto simp: task_in_def)
    from timer_keeps [OF this] j(2) kept show ?thesis by (intro exI [of _ "Suc j"]) auto
  next
    case False
    with ph cases have "responseHandler (run 0)" by (auto simp: task_in_def)
    with fair obtain j where j: "responseHandler (run j)"
        "response_handler complete Use (run j) = Inr (run (Suc j))"
      by (auto simp: fair_run_def)
    from known [of j] j(1) obtain r where "task_in (Asking r) (run j)" by (auto simp: task_in_def)
    from use_delivers [OF this kept j(2)] show ?thesis by blast
  qed
  then obtain k ph where k: "(\<exists>f. ph = Failed f) \<or> (\<exists>r d. ph = Delivered r d)" "task_in ph (run k)" by blast
  moreover from k have "\<not> m_failureTimer (run k)" "\<not> responseHandler (run k)" by (auto simp: task_in_def)
  ultimately show ?thesis using fair_run_outcome_stays [OF fair] by blast
qed

end

end
