(* ===== verification/Task_Lcmd.thy ===== *)
theory Task_Lcmd
  imports Data_Task Filter_Manager
begin

text \<open>
  The task that serves a local command (src/Source/PurCFetcher/network/NetworkDataTaskLcmd.cpp): it
  reads filters, a command line and parameters from the query of the URL, runs the command, filters
  the lines it prints, and answers with a JSON text. The operating system is the record
  \<open>lcmd_host\<close>. The task is an interpretation of \<open>local_data_task\<close>.
\<close>

section \<open>The operating system\<close>

text \<open>
  \<open>popen\<close> runs a command and gives the text of the error, or the bytes the command prints and the
  status \<open>pclose\<close> returns. \<open>characters_at\<close>: the C string found at the characters of a string, which
  have no terminating zero of their own. \<open>freed_string\<close>: the C string found where a \<open>CString\<close> was
  that has been destroyed. \<open>cancels\<close>: a cancellation from another thread arrives before the task looks
  at its state for the n-th time; \<open>strerror\<close> is the text of \<open>errno\<close> then.
\<close>

record lcmd_host =
  popen :: "nat list \<Rightarrow> WString + nat list \<times> int"
  characters_at :: "WString \<Rightarrow> nat list"
  freed_string :: "nat list \<Rightarrow> nat list"
  cancels :: "nat \<Rightarrow> bool"
  strerror :: "nat \<Rightarrow> WString"

definition WEXITSTATUS :: "int \<Rightarrow> int" where
  "WEXITSTATUS status = status div 256 mod 256"

text \<open>\<open>fgets\<close> of the C library with room for \<open>n\<close> characters and a zero; and what is left of the stream.\<close>

fun fgets :: "nat \<Rightarrow> nat list \<Rightarrow> nat list \<times> nat list" where
  "fgets 0 stream = ([], stream)"
| "fgets (Suc n) [] = ([], [])"
| "fgets (Suc n) (c # stream) =
     (if c = 10 then ([c], stream)
      else let (line, rest) = fgets n stream in (c # line, rest))"

lemma fgets_append: "fgets n stream = (line, rest) \<Longrightarrow> stream = line @ rest"
  by (induction n stream arbitrary: line rest rule: fgets.induct) (auto split: if_splits prod.splits)

lemma fgets_nonempty: "stream \<noteq> [] \<Longrightarrow> 0 < n \<Longrightarrow> fst (fgets n stream) \<noteq> []"
  by (cases n; cases stream) (auto split: prod.splits)

section \<open>The task\<close>

record lcmd_task = local_task +
  m_filterManager :: CmdFilterManager
  m_readBuffer :: "nat list"
  m_readLines :: "WString list"
  m_errorMsg :: WString
  m_exitCode :: int
  m_paramMap :: "WString \<rightharpoonup> WString"
  m_cmdFilter :: WString
  m_cmdLine :: WString

definition CMD_FILTER :: WString where "CMD_FILTER = ascii ''cmdfilter''"

definition CMD_LINE :: WString where "CMD_LINE = ascii ''cmdline''"

definition KEY_STATUS_CODE :: WString where "KEY_STATUS_CODE = ascii ''statusCode''"

definition KEY_ERROR_MSG :: WString where "KEY_ERROR_MSG = ascii ''errorMsg''"

definition KEY_EXIT_CODE :: WString where "KEY_EXIT_CODE = ascii ''exitCode''"

definition KEY_LINES :: WString where "KEY_LINES = ascii ''lines''"

definition DEFAULT_READBUFFER_SIZE :: nat where "DEFAULT_READBUFFER_SIZE = 8192"

text \<open>\<open>m_statusCode\<close> and \<open>m_exitCode\<close> have no initialiser.\<close>

definition NetworkDataTaskLcmd_fresh :: "int \<Rightarrow> int \<Rightarrow> lcmd_task" where
  "NetworkDataTaskLcmd_fresh undefinedStatus undefinedExit =
     fresh_task undefinedStatus
       \<lparr>m_filterManager = CmdFilterManager_new, m_readBuffer = [], m_readLines = [], m_errorMsg = [],
        m_exitCode = undefinedExit, m_paramMap = Map.empty, m_cmdFilter = [], m_cmdLine = []\<rparr>"

definition Lcmd_param :: "unicode_lib \<Rightarrow> utf_lib \<Rightarrow> WString \<Rightarrow> lcmd_task \<Rightarrow> lcmd_task res" where
  "Lcmd_param lib utf param task =
     bind_res (query_param lib utf param) (\<lambda>parsed.
       let set = bind_res (paramMap_set parsed (m_paramMap task)) (\<lambda>m. Inr (task\<lparr>m_paramMap := m\<rparr>))
       in case parsed of
            None \<Rightarrow> set
          | Some (name, value) \<Rightarrow>
              if equalIgnoringASCIICase name CMD_FILTER then Inr (task\<lparr>m_cmdFilter := value\<rparr>)
              else if equalIgnoringASCIICase name CMD_LINE then Inr (task\<lparr>m_cmdLine := value\<rparr>)
              else set)"

definition Lcmd_parseQueryString ::
  "unicode_lib \<Rightarrow> utf_lib \<Rightarrow> WString \<Rightarrow> lcmd_task \<Rightarrow> lcmd_task res" where
  "Lcmd_parseQueryString lib utf query task =
     (if query = [] then Inr task
      else bind_res (split query (ascii ''&'')) (\<lambda>params.
        fold_res (Lcmd_param lib utf) params task))"

text \<open>One filter of the list: its name and the parameter in parentheses.\<close>

definition filter_spec :: "WString \<Rightarrow> WString \<times> WString" where
  "filter_spec param =
     (let index = (case findCommon param (ascii ''('') 0 of None \<Rightarrow> length param | Some i \<Rightarrow> i);
          name = substring param 0 index;
          value = substring_from param (index + 1);
          value = (if value = [] then value
                   else case reverseFind_UChar value 41 of
                       None \<Rightarrow> value
                     | Some idx \<Rightarrow> substring value 0 idx)
      in (name, stripLeadingAndTrailingCharacters isSingleQuotes value))"

definition add_filter_spec :: "unicode_lib \<Rightarrow> CmdFilterManager \<Rightarrow> WString \<Rightarrow> CmdFilterManager" where
  "add_filter_spec lib mgr param =
     (let (name, value) = filter_spec param in snd (addFilter lib mgr name value))"

definition parseCmdFilter :: "unicode_lib \<Rightarrow> WString \<Rightarrow> lcmd_task \<Rightarrow> lcmd_task res" where
  "parseCmdFilter lib cmdFilter task =
     (if cmdFilter = [] then Inr task
      else bind_res (split cmdFilter (ascii '';'')) (\<lambda>params.
        Inr (task\<lparr>m_filterManager :=
          foldl (add_filter_spec lib) (m_filterManager task) params\<rparr>)))"

text \<open>What the string builder holds: the path, and the command line as an argument of it.\<close>

definition command_line :: "WString \<Rightarrow> WString \<Rightarrow> WString" where
  "command_line path cmdLine =
     (if endsWith path (ascii ''sh'')
      then path @ ascii '' -c \"'' @ cmdLine @ ascii '' \"''
      else
        let prefix = (case reverseFind_UChar path 47 of
                        None \<Rightarrow> path @ ascii '' ''
                      | Some i \<Rightarrow> substring_from path (i + 1) @ ascii '' '')
        in path @ ascii '' '' @
           (if startsWith cmdLine prefix then substring_from cmdLine (length prefix) else cmdLine))"

text \<open>
  The first half of \<open>runCmdInner\<close>: the task once it has read the query, and the command. \<open>command\<close>
  points at the characters of the path, or at the bytes of a \<open>CString\<close> that is destroyed at the end
  of the block.
\<close>

definition Lcmd_prepare ::
  "unicode_lib \<Rightarrow> utf_lib \<Rightarrow> lcmd_host \<Rightarrow> lcmd_task \<Rightarrow> (lcmd_task \<times> nat list) res" where
  "Lcmd_prepare lib utf host task =
     bind_res
       (case url_query task of
          None \<Rightarrow> Inr (task\<lparr>m_readBuffer := []\<rparr>, [])
        | Some query \<Rightarrow>
            bind_res (Lcmd_parseQueryString lib utf query (task\<lparr>m_readBuffer := []\<rparr>)) (\<lambda>task.
            bind_res (parseCmdFilter lib (m_cmdFilter task) task) (\<lambda>task.
              Inr (task, parseCmdLine (m_paramMap task) (m_cmdLine task)))))
       (\<lambda>(task, cmdLine).
         let path = stripWhiteSpace lib (url_path task)
         in if cmdLine = [] then Inr (task, characters_at host path)
            else
              let sb = command_line path cmdLine
              in bind_res (utf8 utf (latin1 sb) sb) (\<lambda>tmp. Inr (task, freed_string host tmp)))"

text \<open>
  The loop that reads what the command prints, in chunks that end with a line or fill the buffer;
  \<open>strlen\<close> cuts a chunk at its first zero. The first component tells whether it saw a cancellation.
\<close>

function read_loop :: "lcmd_host \<Rightarrow> nat \<Rightarrow> nat list \<Rightarrow> lcmd_task \<Rightarrow> bool \<times> lcmd_task" where
  "read_loop host i stream task =
     (if stream = [] then (False, task)
      else
        let (data, rest) = fgets (DEFAULT_READBUFFER_SIZE - 1) stream;
            task = task\<lparr>m_readBuffer := m_readBuffer task @ takeWhile (\<lambda>c. c \<noteq> 0) data\<rparr>;
            task = (if cancels host i then cancel task else task)
        in if m_state task = Canceling
           then (True, task\<lparr>m_statusCode := 503, m_errorMsg := strerror host i\<rparr>)
           else read_loop host (i + 1) rest task)"
  by auto
termination
proof (relation "measure (length \<circ> fst \<circ> snd \<circ> snd)", goal_cases)
  case 1
  then show ?case by simp
next
  case (2 host i stream task x data rest)
  then have e: "fgets (DEFAULT_READBUFFER_SIZE - 1) stream = (data, rest)" by simp
  have "data \<noteq> []" using fgets_nonempty [of stream "DEFAULT_READBUFFER_SIZE - 1"] 2(1) e
    by (simp add: DEFAULT_READBUFFER_SIZE_def)
  with fgets_append [OF e] show ?case by simp
qed

declare read_loop.simps [simp del]

definition runCmdInner ::
  "unicode_lib \<Rightarrow> utf_lib \<Rightarrow> lcmd_host \<Rightarrow> lcmd_task \<Rightarrow> lcmd_task res" where
  "runCmdInner lib utf host task =
     bind_res (Lcmd_prepare lib utf host task) (\<lambda>(task, command).
       case popen host command of
         Inl err \<Rightarrow> Inr (task\<lparr>m_statusCode := 500, m_errorMsg := err\<rparr>)
       | Inr (output, status) \<Rightarrow>
           let (canceled, task) = read_loop host 0 output task
           in if canceled then Inr task
              else if MaxLength < length (m_readBuffer task) then Inl VectorOverflow
              else bind_res (split (m_readBuffer task) [10]) (\<lambda>lines.
                let task = task\<lparr>m_readLines := lines, m_exitCode := WEXITSTATUS status\<rparr>
                in if m_exitCode task = 127
                   then Inr (task\<lparr>m_statusCode := 404, m_errorMsg := ascii ''Not Found''\<rparr>)
                   else Inr (task\<lparr>m_statusCode := 200\<rparr>)))"

definition Lcmd_buildResponse :: "unicode_lib \<Rightarrow> number_lib \<Rightarrow> lcmd_task \<Rightarrow> lcmd_task res" where
  "Lcmd_buildResponse lib nl task =
     (let task = task\<lparr>m_responseBuffer := []\<rparr>;
          result = [];
          result = setInteger KEY_STATUS_CODE (m_statusCode task) result;
          result = (if m_errorMsg task = [] then setValue KEY_ERROR_MSG JNull result
                    else setString KEY_ERROR_MSG (m_errorMsg task) result);
          result = (if m_statusCode task = 200 \<or> m_statusCode task = 404
                    then setInteger KEY_EXIT_CODE (m_exitCode task) result
                    else setValue KEY_EXIT_CODE JNull result)
      in bind_res
           (if m_readLines task \<noteq> []
            then bind_res (manager_doFilter lib (m_filterManager task) (m_readLines task))
              (\<lambda>(mgr, lines). Inr (task\<lparr>m_filterManager := mgr\<rparr>,
                 setArray KEY_LINES (foldl (\<lambda>a v. pushValue v a) [] lines) result))
            else Inr (task, setArray KEY_LINES [] result))
           (\<lambda>(task, result).
              Inr (task\<lparr>m_responseBuffer := m_responseBuffer task @ toJSONString nl (JObject result)\<rparr>)))"

definition Lcmd_sendRequest ::
  "unicode_lib \<Rightarrow> utf_lib \<Rightarrow> number_lib \<Rightarrow> lcmd_host \<Rightarrow> lcmd_task \<Rightarrow> lcmd_task res" where
  "Lcmd_sendRequest lib utf nl host task =
     bind_res (runCmdInner lib utf host task) (\<lambda>task.
     bind_res (Lcmd_buildResponse lib nl task) (\<lambda>task.
       Inr (dispatchDidReceiveResponse task)))"

section \<open>What sending a request keeps\<close>

lemma sending_lcmd [simp]:
  "sending (task\<lparr>m_filterManager := mgr\<rparr>) = sending task"
  "sending (task\<lparr>m_readBuffer := buffer\<rparr>) = sending task"
  "sending (task\<lparr>m_readLines := lines\<rparr>) = sending task"
  "sending (task\<lparr>m_errorMsg := err\<rparr>) = sending task"
  "sending (task\<lparr>m_exitCode := code\<rparr>) = sending task"
  "sending (task\<lparr>m_paramMap := params\<rparr>) = sending task"
  "sending (task\<lparr>m_cmdFilter := s\<rparr>) = sending task"
  "sending (task\<lparr>m_cmdLine := s\<rparr>) = sending task"
  by (simp_all add: sending_def ready_def)

text \<open>Reading the query changes none of the fields the rest of the work depends on.\<close>

definition prepared :: "lcmd_task \<Rightarrow> lcmd_task \<Rightarrow> bool" where
  "prepared task task' \<longleftrightarrow>
     sending task' = sending task \<and> m_state task' = m_state task \<and>
     m_response task' = m_response task \<and> url_path task' = url_path task \<and>
     m_readBuffer task' = m_readBuffer task \<and> m_readLines task' = m_readLines task \<and>
     m_errorMsg task' = m_errorMsg task \<and> (mgr_wf (m_filterManager task) \<longrightarrow> mgr_wf (m_filterManager task'))"

lemma prepared_updates [simp]:
  "prepared task0 (task\<lparr>m_paramMap := params\<rparr>) = prepared task0 task"
  "prepared task0 (task\<lparr>m_cmdFilter := s\<rparr>) = prepared task0 task"
  "prepared task0 (task\<lparr>m_cmdLine := s\<rparr>) = prepared task0 task"
  by (simp_all add: prepared_def)

lemma Lcmd_param_prepared:
  assumes "prepared task0 task" and "Lcmd_param lib utf param task = Inr task'"
  shows "prepared task0 task'"
proof -
  from assms(2) obtain parsed where "query_param lib utf param = Inr parsed"
    by (cases "query_param lib utf param") (simp_all add: Lcmd_param_def)
  with assms show ?thesis
    by (cases parsed) (auto simp: Lcmd_param_def paramMap_set_def split: if_splits)
qed

lemma addFilters_wf: "mgr_wf mgr \<Longrightarrow> mgr_wf (foldl (add_filter_spec lib) mgr params)"
  by (induction params arbitrary: mgr) (auto simp: add_filter_spec_def Let_def mgr_wf_add split: prod.splits)

lemma parseCmdFilter_prepared:
  "prepared task0 task \<Longrightarrow> parseCmdFilter lib cmdFilter task = Inr task' \<Longrightarrow> prepared task0 task'"
  by (auto simp: parseCmdFilter_def prepared_def bind_res_Inr_iff addFilters_wf split: if_splits)

lemma Lcmd_prepare_prepared:
  assumes "Lcmd_prepare lib utf host task = Inr (task', command)"
  shows "prepared (task\<lparr>m_readBuffer := []\<rparr>) task'"
proof -
  let ?task = "task\<lparr>m_readBuffer := []\<rparr>"
  have start: "prepared ?task ?task" by (simp add: prepared_def)
  have query: "prepared ?task task1" if "Lcmd_parseQueryString lib utf query ?task = Inr task1" for query task1
    using that start fold_res_invariant [where P = "prepared ?task", OF _ _ Lcmd_param_prepared]
    by (auto simp: Lcmd_parseQueryString_def bind_res_Inr_iff split: if_splits)
  show ?thesis
    using assms start
    by (auto simp: Lcmd_prepare_def bind_res_Inr_iff Let_def split: option.splits if_splits
        dest!: query intro: parseCmdFilter_prepared)
qed

lemma read_loop_sending: "sending task \<Longrightarrow> sending (snd (read_loop host i stream task))"
proof (induction host i stream task rule: read_loop.induct)
  case (1 host i stream task)
  then show ?case by (subst read_loop.simps) (auto simp: Let_def split: prod.splits)
qed

lemma runCmdInner_sending:
  assumes "sending task" and "runCmdInner lib utf host task = Inr task'"
  shows "sending task'"
proof -
  from assms(2) obtain task1 command where p: "Lcmd_prepare lib utf host task = Inr (task1, command)"
    by (auto simp: runCmdInner_def bind_res_Inr_iff)
  then have "sending task1" using Lcmd_prepare_prepared [OF p] assms(1) by (simp add: prepared_def)
  then have "sending (snd (read_loop host 0 stream task1))" for stream by (rule read_loop_sending)
  with assms(2) \<open>sending task1\<close> show ?thesis
    by (auto simp: runCmdInner_def p bind_res_Inr_iff Let_def
        split: sum.splits prod.splits if_splits) (metis snd_conv)+
qed

lemma Lcmd_buildResponse_sending:
  "sending task \<Longrightarrow> Lcmd_buildResponse lib nl task = Inr task' \<Longrightarrow> sending task'"
  by (auto simp: Lcmd_buildResponse_def bind_res_Inr_iff Let_def split: if_splits)

lemma Lcmd_sendRequest_dispatches:
  assumes "sending task" and "Lcmd_sendRequest lib utf nl host task = Inr task'"
  shows "\<exists>task1. sending task1 \<and> task' = dispatchDidReceiveResponse task1"
proof -
  from assms(2) obtain task0 task1 where "runCmdInner lib utf host task = Inr task0"
      "Lcmd_buildResponse lib nl task0 = Inr task1" "task' = dispatchDidReceiveResponse task1"
    by (auto simp: Lcmd_sendRequest_def bind_res_Inr_iff)
  with assms(1) Lcmd_buildResponse_sending runCmdInner_sending show ?thesis by blast
qed

lemma dispatchDidCompleteWithError_more:
  "m_client task \<Longrightarrow>
     \<exists>rest. dispatchDidCompleteWithError task =
       Inr (local_task.more_update (\<lambda>_. rest) (call_client DidFinish task))"
  by (cases task, intro exI [of _ "local_task.more task"])
    (simp add: dispatchDidCompleteWithError_def call_client_def)

interpretation lcmd: local_data_task "Lcmd_sendRequest lib utf nl host" dispatchDidCompleteWithError
  for lib utf nl host
proof
  fix task task' :: lcmd_task
  assume "ready task" and "Lcmd_sendRequest lib utf nl host task = Inr task'"
  with Lcmd_sendRequest_dispatches [OF ready_sending] obtain task1
    where t: "sending task1" "task' = dispatchDidReceiveResponse task1" by blast
  with dispatch_asks [OF t(1)]
  show "\<exists>r. task_in (Asking r) task' \<and> m_client task' \<and> m_httpStatusCode r = m_statusCode task'"
    by (intro exI [of _ "response_of task1"]) simp
qed (rule dispatchDidCompleteWithError_more)

section \<open>What the command prints and what the client receives\<close>

lemma read_loop_reads:
  assumes "\<And>i. \<not> cancels host i"
  shows "m_state task \<noteq> Canceling \<Longrightarrow> 0 \<notin> set stream \<Longrightarrow>
    read_loop host i stream task = (False, task\<lparr>m_readBuffer := m_readBuffer task @ stream\<rparr>)"
proof (induction "length stream" arbitrary: i stream task rule: less_induct)
  case less
  show ?case
  proof (cases "stream = []")
    case False
    obtain data rest where f: "fgets (DEFAULT_READBUFFER_SIZE - 1) stream = (data, rest)" by fastforce
    from fgets_append [OF f] have s: "stream = data @ rest" .
    have "data \<noteq> []" using fgets_nonempty [OF False, of "DEFAULT_READBUFFER_SIZE - 1"] f
      by (simp add: DEFAULT_READBUFFER_SIZE_def)
    then have len: "length rest < length stream" by (simp add: s)
    let ?task = "task\<lparr>m_readBuffer := m_readBuffer task @ data\<rparr>"
    have "0 \<notin> set rest" and tw: "takeWhile ((<) 0) data = data"
      using less.prems(2) by (auto simp: s takeWhile_eq_all_conv) (metis gr0I)
    moreover from this less.hyps [OF len, of ?task "i + 1"] less.prems(1)
    have "read_loop host (i + 1) rest ?task = (False, task\<lparr>m_readBuffer := m_readBuffer task @ stream\<rparr>)"
      by (simp add: s)
    ultimately show ?thesis
      using False less.prems(1) assms by (subst read_loop.simps) (simp add: f [simplified] tw)
  qed (simp add: read_loop.simps)
qed

lemma foldl_pushValue: "foldl (\<lambda>a v. pushValue v a) acc vs = acc @ vs"
  by (induction vs arbitrary: acc) (simp_all add: pushValue_def)

lemma keys_distinct [simp]:
  "KEY_STATUS_CODE \<noteq> KEY_ERROR_MSG" "KEY_STATUS_CODE \<noteq> KEY_EXIT_CODE" "KEY_STATUS_CODE \<noteq> KEY_LINES"
  "KEY_ERROR_MSG \<noteq> KEY_EXIT_CODE" "KEY_ERROR_MSG \<noteq> KEY_LINES" "KEY_EXIT_CODE \<noteq> KEY_LINES"
  by (simp_all add: KEY_STATUS_CODE_def KEY_ERROR_MSG_def KEY_EXIT_CODE_def KEY_LINES_def ascii_def)

text \<open>The members of the response.\<close>

definition response_members :: "int \<Rightarrow> WString \<Rightarrow> int \<Rightarrow> json list \<Rightarrow> members" where
  "response_members status err exit rows =
     [(KEY_STATUS_CODE, JInteger status),
      (KEY_ERROR_MSG, if err = [] then JNull else JString err),
      (KEY_EXIT_CODE, if status = 200 \<or> status = 404 then JInteger exit else JNull),
      (KEY_LINES, JArray rows)]"

lemma Lcmd_buildResponse_members:
  assumes "mgr_wf (m_filterManager task)"
    and "m_readLines task \<noteq> [] \<Longrightarrow> pipeline lib (m_langs (m_filterManager task))
      (filters_of (m_filterManager task)) (format_of (m_filterManager task)) (m_readLines task) = Inr (langs, rows)"
    and "m_readLines task = [] \<Longrightarrow> rows = []"
  shows "\<exists>mgr. Lcmd_buildResponse lib nl task = Inr (task\<lparr>m_filterManager := mgr, m_responseBuffer :=
    toJSONString nl (JObject (response_members (m_statusCode task) (m_errorMsg task) (m_exitCode task) rows))\<rparr>)"
proof (cases "m_readLines task = []")
  case True
  with assms(3) show ?thesis
    by (intro exI [of _ "m_filterManager task"])
      (simp add: Lcmd_buildResponse_def response_members_def setInteger_def setArray_def setString_def Let_def)
next
  case False
  from manager_doFilter_refines [OF assms(1), of lib "m_readLines task"] assms(2) [OF False]
  obtain mgr where "manager_doFilter lib (m_filterManager task) (m_readLines task) = Inr (mgr, rows)"
    by (cases "manager_doFilter lib (m_filterManager task) (m_readLines task)") auto
  with False show ?thesis
    by (intro exI [of _ mgr])
      (simp add: Lcmd_buildResponse_def response_members_def setInteger_def setArray_def setString_def
        foldl_pushValue Let_def)
qed

section \<open>The rows of a response can be written\<close>

lemma utf16_subset: "utf16 s \<Longrightarrow> set t \<subseteq> set s \<Longrightarrow> utf16 t"
  by (auto simp: utf16_def)

lemma latin1_utf16: "latin1 s \<Longrightarrow> utf16 s"
  by (fastforce simp: latin1_def utf16_def)

lemma utf16_append [simp]: "utf16 (s @ t) \<longleftrightarrow> utf16 s \<and> utf16 t"
  by (auto simp: utf16_def)

lemma utf16_concat: "utf16 (concat ss) \<longleftrightarrow> list_all utf16 ss"
  by (auto simp: utf16_def list_all_iff)

lemma utf16_strip: "utf16 s \<Longrightarrow> utf16 (stripMatchedCharacters p s)"
  by (auto simp: utf16_def stripMatchedCharacters_eq dest!: set_dropWhileD)

lemma utf16_split: "utf16 s \<Longrightarrow> split s [c] = Inr ps \<Longrightarrow> list_all utf16 ps"
  using pieces_set [of _ c s] by (fastforce simp: split_single split_UChar_eq list_all_iff utf16_def)

definition text_member :: "WString \<times> json \<Rightarrow> bool" where
  "text_member m \<longleftrightarrow> utf16 (fst m) \<and> (\<exists>s. snd m = JString s \<and> utf16 s)"

lemma setString_text:
  "list_all text_member ms \<Longrightarrow> utf16 k \<Longrightarrow> utf16 s \<Longrightarrow> list_all text_member (setString k s ms)"
  unfolding setString_def
  by (induction k "JString s" ms rule: setValue.induct) (auto simp: text_member_def)

lemma FormatKeys_named_text:
  "list_all text_member ms \<Longrightarrow> list_all utf16 keys \<Longrightarrow> list_all utf16 columns \<Longrightarrow>
     list_all text_member (FormatKeys_named keys columns ms)"
  by (induction keys columns ms rule: FormatKeys_named.induct) (auto intro: setString_text)

lemma FormatKeys_numbered_text:
  "FormatKeys_numbered i columns ms = Inr r \<Longrightarrow> list_all text_member ms \<Longrightarrow> list_all utf16 columns \<Longrightarrow>
     list_all text_member r"
proof (induction i columns ms rule: FormatKeys_numbered.induct)
  case (2 i c columns ms)
  from 2(2) obtain number where n: "numberToStringSigned i = Inr number"
    and r: "FormatKeys_numbered (i + 1) columns (setString (ascii ''C'' @ number) c ms) = Inr r"
    by (auto simp: bind_res_Inr_iff)
  have "utf16 (ascii ''C'' @ number)" using latin1_utf16 [OF latin1_number [OF n]]
    by (simp add: utf16_def ascii_def)
  with 2(3,4) have "list_all text_member (setString (ascii ''C'' @ number) c ms)"
    by (intro setString_text) auto
  with 2(1) [OF n r] 2(4) show ?case by simp
qed simp

fun format_param :: "row_format \<Rightarrow> WString" where
  "format_param (Keys param) = param"
| "format_param (Array param) = param"

lemma text_members_json:
  assumes "list_all text_member ms" and "distinct (map fst ms)"
  shows "json_ok (Suc (Suc d)) (JObject ms)" and "writable nl (JObject ms)"
  using assms by (auto simp: list_all_iff text_member_def split: prod.splits)

lemma format_keys_text:
  assumes "FormatKeys_doFormat lib columns param = Inr v" and "list_all utf16 columns" and "utf16 param"
  shows "json_ok (Suc (Suc d)) v \<and> writable nl v"
proof -
  obtain keys where keys: "FormatKeys_keyVec lib param = Inr keys" using FormatKeys_keyVec_total by blast
  then have "list_all utf16 keys"
    using utf16_split [OF assms(3), of 44] assms(3)
    by (auto simp: FormatKeys_keyVec_def ascii_def bind_res_Inr_iff list_all_iff stripWhiteSpace_def
        stripLeadingAndTrailingCharacters_def utf16_strip split: if_splits)
  from FormatKeys_total [OF keys, of columns] assms(1) obtain ms
    where v: "v = JObject ms" "distinct (map fst ms)" by auto
  have "list_all text_member (FormatKeys_named keys columns [])"
    using \<open>list_all utf16 keys\<close> assms(2) by (intro FormatKeys_named_text) simp_all
  moreover have "list_all utf16 (drop (length keys) columns)"
    using assms(2) by (auto simp: list_all_iff dest: in_set_dropD)
  ultimately have "list_all text_member ms"
    using assms(1) v keys FormatKeys_numbered_text by (auto simp: FormatKeys_doFormat_def bind_res_Inr_iff Let_def)
  with v text_members_json show ?thesis by blast
qed

lemma format_array_text:
  assumes "FormatArray_doFormat lib columns param = Inr v" and "list_all utf16 columns" and "utf16 param"
  shows "json_ok (Suc (Suc d)) v \<and> writable nl v"
proof -
  have colon: "utf16 (ascii '':'')" by (simp add: utf16_def ascii_def)
  have "list_all utf16 ps" if "split param (ascii '','') = Inr ps" for ps
    using utf16_split [OF assms(3)] that by (simp add: ascii_def)
  then have second: "utf16 (stripMatchedCharacters isSingleQuotes (ps ! 1))"
    if "split param (ascii '','') = Inr ps" "\<not> length ps < 2" for ps
    using that by (intro utf16_strip) (simp add: list_all_length)
  have sep: "utf16 sep" if "FormatArray_params lib param = Inr (left, sep)" for left sep
  proof (cases "param = []")
    case True
    with that colon show ?thesis by (simp add: FormatArray_params_def)
  next
    case False
    obtain ps where ps: "split param (ascii '','') = Inr ps" by (simp add: ascii_def split_single)
    from that False show ?thesis
      using second [OF ps] colon
      by (simp add: FormatArray_params_def ps bind_res_Inr_iff stripLeadingAndTrailingCharacters_def
          del: ascii_simps split: if_splits) blast
  qed
  have joined: "utf16 (take n (concat (map (\<lambda>c. c @ sep) cs)))"
    if "utf16 sep" "set cs \<subseteq> set columns" for sep cs n
  proof -
    have "list_all utf16 cs" using assms(2) that(2) by (auto simp: list_all_iff)
    with that(1) have "utf16 (concat (map (\<lambda>c. c @ sep) cs))" by (simp add: utf16_concat list_all_iff)
    then show ?thesis by (rule utf16_subset [OF _ set_take_subset])
  qed
  have "\<exists>ss. v = JArray (map JString ss) \<and> list_all utf16 ss"
  proof (cases "columns = []")
    case True
    with assms(1) show ?thesis by (intro exI [of _ "[]"]) (simp add: FormatArray_doFormat_def)
  next
    case False
    with assms(1) obtain left sep where ps: "FormatArray_params lib param = Inr (left, sep)"
      by (auto simp: FormatArray_doFormat_def bind_res_Inr_iff)
    let ?left = "if left = 0 then length columns else nat left"
    let ?sb = "concat (map (\<lambda>c. c @ sep) (drop ?left columns))"
    have "v = JArray (map JString (take ?left columns @
        (if ?sb = [] then [] else [take (length ?sb - length sep) ?sb])))"
      using assms(1) False ps
      by (auto simp: FormatArray_doFormat_def fold_pushString pushString_def Let_def split: if_splits)
    moreover have "list_all utf16 (take ?left columns @
        (if ?sb = [] then [] else [take (length ?sb - length sep) ?sb]))"
      using assms(2) joined [OF sep [OF ps] set_drop_subset] by (auto simp: list_all_iff dest: in_set_takeD)
    ultimately show ?thesis by blast
  qed
  then show ?thesis by (auto simp: list_all_iff)
qed

lemma pipeline_rows_text:
  assumes "pipeline lib langs fs fmt lines = Inr (langs', rows)" and "list_all latin1 lines"
    and "utf16 (format_param fmt)"
  shows "list_all (\<lambda>v. json_ok (Suc (Suc d)) v \<and> writable nl v) rows"
proof -
  from assms(1) obtain out where out: "run_filters lib langs fs (map (\<lambda>line. [line]) lines) = Inr (langs', out)"
    and rows: "map_res (format_row lib fmt) out = Inr rows"
    by (auto simp: pipeline_def bind_res_Inr_iff)
  have "latin1_rows out"
    using filter_run.run_latin1 [OF out] assms(2) by (simp add: latin1_rows_def latin1_row_def list_all_iff)
  then have "list_all utf16 columns" if "columns \<in> set out" for columns
    using that latin1_utf16 by (auto simp: latin1_rows_def latin1_row_def list_all_iff)
  then have "json_ok (Suc (Suc d)) v \<and> writable nl v" if "columns \<in> set out" "format_row lib fmt columns = Inr v"
    for columns v
    using that assms(3) by (cases fmt) (auto dest: format_keys_text format_array_text)
  with map_res_set [OF rows] show ?thesis unfolding list_all_iff by blast
qed

section \<open>A command that runs\<close>

definition exit_status :: "int \<Rightarrow> int" where
  "exit_status status = (if WEXITSTATUS status = 127 then 404 else 200)"

definition exit_message :: "int \<Rightarrow> WString" where
  "exit_message status = (if WEXITSTATUS status = 127 then ascii ''Not Found'' else [])"

definition lines_of :: "nat list \<Rightarrow> WString list" where
  "lines_of bytes = filter (\<lambda>l. l \<noteq> []) (pieces 10 bytes)"

lemma lines_of_latin1: "list_all (\<lambda>b. 0 < b \<and> b < 256) bytes \<Longrightarrow> list_all latin1 (lines_of bytes)"
  using pieces_set [of _ 10 bytes] by (fastforce simp: lines_of_def latin1_def list_all_iff)

lemma runCmdInner_reads:
  assumes "Lcmd_prepare lib utf host task = Inr (task1, command)"
    and "m_state task = Running" and "m_errorMsg task = []"
    and "popen host command = Inr (bytes, status)" and "\<And>i. \<not> cancels host i"
    and "list_all (\<lambda>b. 0 < b \<and> b < 256) bytes" and "length bytes \<le> MaxLength"
  shows "runCmdInner lib utf host task = Inr (task1\<lparr>m_readBuffer := bytes, m_readLines := lines_of bytes,
    m_exitCode := WEXITSTATUS status, m_statusCode := exit_status status, m_errorMsg := exit_message status\<rparr>)"
proof -
  have p: "m_state task1 = Running" "m_errorMsg task1 = []" "m_readBuffer task1 = []"
    using Lcmd_prepare_prepared [OF assms(1)] assms(2,3) by (simp_all add: prepared_def)
  have "0 \<notin> set bytes" using assms(6) by (auto simp: list_all_iff)
  with read_loop_reads [OF assms(5), of task1 bytes 0] p
  have "read_loop host 0 bytes task1 = (False, task1\<lparr>m_readBuffer := bytes\<rparr>)" by simp
  then show ?thesis
    using p assms(7)
    by (simp add: runCmdInner_def assms(1,4) split_single split_UChar_eq lines_of_def exit_status_def
        exit_message_def Let_def)
qed

lemma response_members_json:
  assumes "list_all (\<lambda>v. json_ok (Suc (Suc d)) v \<and> writable nl v) rows" and "utf16 err"
    and "writable nl (JInteger status)" and "writable nl (JInteger exit)"
  shows "json_ok (Suc (Suc (Suc (Suc d)))) (JObject (response_members status err exit rows))"
    and "writable nl (JObject (response_members status err exit rows))"
proof -
  have "utf16 KEY_STATUS_CODE" "utf16 KEY_ERROR_MSG" "utf16 KEY_EXIT_CODE" "utf16 KEY_LINES"
    by (simp_all add: utf16_def KEY_STATUS_CODE_def KEY_ERROR_MSG_def KEY_EXIT_CODE_def KEY_LINES_def ascii_def)
  with assms show "writable nl (JObject (response_members status err exit rows))"
    by (simp add: response_members_def list_all_iff)
  from assms(1) show "json_ok (Suc (Suc (Suc (Suc d)))) (JObject (response_members status err exit rows))"
    by (simp add: response_members_def list_all_iff)
qed

lemma Lcmd_sendRequest_serves:
  assumes "ready task" and "m_errorMsg task = []" and "mgr_wf (m_filterManager task)"
    and "Lcmd_prepare lib utf host task = Inr (task1, command)"
    and "popen host command = Inr (bytes, status)" and "\<And>i. \<not> cancels host i"
    and "list_all (\<lambda>b. 0 < b \<and> b < 256) bytes" and "length bytes \<le> MaxLength"
    and "lines_of bytes \<noteq> [] \<Longrightarrow> pipeline lib (m_langs (m_filterManager task1))
      (filters_of (m_filterManager task1)) (format_of (m_filterManager task1)) (lines_of bytes) = Inr (langs, rows)"
    and "lines_of bytes = [] \<Longrightarrow> rows = []"
  shows "\<exists>task2. sending task2 \<and> m_state task2 = Running \<and> client_calls task2 = [] \<and>
    m_response task2 = m_response task \<and> m_statusCode task2 = exit_status status \<and>
    m_responseBuffer task2 = toJSONString nl (JObject (response_members (exit_status status)
      (exit_message status) (WEXITSTATUS status) rows)) \<and>
    Lcmd_sendRequest lib utf nl host task = Inr (dispatchDidReceiveResponse task2)"
proof -
  let ?task = "task1\<lparr>m_readBuffer := bytes, m_readLines := lines_of bytes,
    m_exitCode := WEXITSTATUS status, m_statusCode := exit_status status, m_errorMsg := exit_message status\<rparr>"
  have run: "runCmdInner lib utf host task = Inr ?task"
    using assms by (intro runCmdInner_reads) (auto simp: ready_def)
  have "prepared (task\<lparr>m_readBuffer := []\<rparr>) task1" by (rule Lcmd_prepare_prepared [OF assms(4)])
  then have wf: "mgr_wf (m_filterManager ?task)" and "sending ?task"
    and kept: "m_state task1 = Running" "m_response task1 = m_response task"
    using ready_sending [OF assms(1)] assms(1,3) by (simp_all add: prepared_def ready_def)
  from Lcmd_buildResponse_members [OF wf, of lib langs rows nl] assms(9,10) obtain mgr
    where build: "Lcmd_buildResponse lib nl ?task = Inr (?task\<lparr>m_filterManager := mgr, m_responseBuffer :=
      toJSONString nl (JObject (response_members (exit_status status) (exit_message status)
        (WEXITSTATUS status) rows))\<rparr>)" (is "_ = Inr ?task2") by auto
  have "client_calls task1 = []" using \<open>sending ?task\<close> by (simp add: sending_def ready_def)
  moreover have "sending ?task2" using \<open>sending ?task\<close> by simp
  moreover have "Lcmd_sendRequest lib utf nl host task = Inr (dispatchDidReceiveResponse ?task2)"
    unfolding Lcmd_sendRequest_def run bind_res_simps build ..
  ultimately show ?thesis using kept by (intro exI [of _ ?task2]) simp
qed

text \<open>A task that has just been created for a valid URL and resumed.\<close>

definition lcmd_running :: "WString \<Rightarrow> WString option \<Rightarrow> bool \<Rightarrow> int \<Rightarrow> int \<Rightarrow> lcmd_task" where
  "lcmd_running path query port s e =
     (createRequest path query port (NetworkDataTaskLcmd_fresh s e))\<lparr>m_state := Running\<rparr>"

section \<open>Properties\<close>

text \<open>
  C2 What the client of a command task can observe, in every state a started task can reach by
  cancellations, the loss of its client, its timer and the answers of the client: nothing, one failure,
  one response, or one response, its data and the end, in this order and once, the data as long as the
  response announced. The task is never \<open>Completed\<close>. The only step that can fail is the answer
  to a response whose client went away without cancelling the task; it dereferences a null pointer.
\<close>

theorem lcmd_outcomes:
  assumes "NetworkLoad_initialize (Lcmd_sendRequest lib utf nl host) valid allowed path query port
      (NetworkDataTaskLcmd_fresh status code) = Inr start"
    and "task_reached dispatchDidCompleteWithError start task"
  shows "m_state task \<in> {Running, Canceling} \<and>
    (client_calls task \<in> range failure_call \<or>
     (\<exists>r. client_calls task = [DidReceiveResponse r]) \<or>
     (\<exists>r d. client_calls task = [DidReceiveResponse r, DidReceiveData d, DidFinish] \<and>
        m_expectedContentLength r = length d)) \<and>
    (\<forall>e. task_step dispatchDidCompleteWithError task (Inl e) \<longrightarrow>
       e = NullDereference \<and> \<not> m_client task \<and> m_state task = Running)"
proof -
  obtain ph where ph: "task_in ph task"
    using lcmd.reached_in [OF assms [unfolded NetworkDataTaskLcmd_fresh_def]] by blast
  have "client_calls task \<in> range failure_call \<or> (\<exists>r. client_calls task = [DidReceiveResponse r]) \<or>
     (\<exists>r d. client_calls task = [DidReceiveResponse r, DidReceiveData d, DidFinish] \<and>
        m_expectedContentLength r = length d)"
    using ph range_eqI [of "[]" failure_call NoFailure] by (cases ph) (auto simp: task_in_def)
  with ph lcmd.step_fails [OF ph] show ?thesis by (auto simp: task_in_def)
qed

definition quiet_host :: lcmd_host where
  "quiet_host = \<lparr>popen = \<lambda>_. Inr ([97, 10], 0), characters_at = \<lambda>s. s, freed_string = \<lambda>b. b,
     cancels = \<lambda>_. False, strerror = \<lambda>_. []\<rparr>"

text \<open>A concrete run: a command that prints one line, whose response is then used.\<close>

lemma lcmd_running_facts:
  "ready (lcmd_running path query port s e)" "m_errorMsg (lcmd_running path query port s e) = []"
  "m_filterManager (lcmd_running path query port s e) = CmdFilterManager_new"
  "url_query (lcmd_running path query port s e) = query" "url_path (lcmd_running path query port s e) = path"
  by (simp_all add: lcmd_running_def ready_def createRequest_def NetworkDataTaskLcmd_fresh_def fresh_task_def)

lemma lcmd_initialize:
  "NetworkLoad_initialize (Lcmd_sendRequest lib utf nl host) True True path query port
     (NetworkDataTaskLcmd_fresh s e) = Lcmd_sendRequest lib utf nl host (lcmd_running path query port s e)"
  by (simp add: initialize_valid lcmd_running_def NetworkDataTaskLcmd_fresh_def)

lemma quiet_pipeline:
  "pipeline unicode_lib1 (m_langs CmdFilterManager_new) (filters_of CmdFilterManager_new)
     (format_of CmdFilterManager_new) [[97]] =
   Inr (m_langs CmdFilterManager_new, [JObject [(ascii ''C0'', JString [97])]])"
  using manager_doFilter_refines [OF mgr_wf_new, of unicode_lib1 "[[97]]"]
  by (simp add: manager_default_output)

lemma lines_of_quiet: "lines_of [97, 10] = [[97]]"
  by (simp add: lines_of_def)

abbreviation quiet_load :: "number_lib \<Rightarrow> lcmd_task res" where
  "quiet_load nl \<equiv> NetworkLoad_initialize (Lcmd_sendRequest unicode_lib1 utf_lib1 nl quiet_host) True True
     (ascii ''/bin/ls'') None False (NetworkDataTaskLcmd_fresh 0 0)"

lemma quiet_start:
  obtains start r where "quiet_load nl = Inr start" "task_in (Asking r) start" "m_client start"
    "m_state start = Running"
proof -
  let ?task = "lcmd_running (ascii ''/bin/ls'') None False 0 0"
  obtain command where
    "Lcmd_prepare unicode_lib1 utf_lib1 quiet_host ?task = Inr (?task\<lparr>m_readBuffer := []\<rparr>, command)"
    by (simp add: Lcmd_prepare_def lcmd_running_facts Let_def)
  from Lcmd_sendRequest_serves [OF lcmd_running_facts(1,2) _ this, of "[97, 10]" 0 "m_langs CmdFilterManager_new"
      "[JObject [(ascii ''C0'', JString [97])]]" nl]
  obtain task2 where t: "sending task2" "m_state task2 = Running" and
    l: "Lcmd_sendRequest unicode_lib1 utf_lib1 nl quiet_host ?task = Inr (dispatchDidReceiveResponse task2)"
    using quiet_pipeline mgr_wf_new
    by (auto simp: lcmd_running_facts quiet_host_def lines_of_quiet MaxLength_def)
  show ?thesis
    by (rule that [OF _ dispatch_asks(1,2) [OF t(1)]])
      (simp_all only: lcmd_initialize l dispatch_asks(3) [OF t(1)], simp add: t(2))
qed

lemma quiet_run:
  obtains start task r d where "quiet_load nl = Inr start" "task_in (Asking r) start"
    "m_state start = Running" "m_client start" "task_in (Delivered r d) task" "m_state task = Running"
    "m_client task" "response_handler dispatchDidCompleteWithError Use start = Inr task"
proof -
  obtain start r where start: "quiet_load nl = Inr start" "task_in (Asking r) start" "m_client start"
    "m_state start = Running" by (rule quiet_start)
  then obtain task where task: "response_handler dispatchDidCompleteWithError Use start = Inr task"
    and "m_state task = Running" "m_client task"
    by (simp add: response_handler_def dispatchDidCompleteWithError_def call_client_def)
  with that start lcmd.use_delivers [OF start(2,4,3) task] show ?thesis by blast
qed

theorem lcmd_outcomes_witness:
  "\<exists>(task :: lcmd_task) r d. client_calls task = [DidReceiveResponse r, DidReceiveData d, DidFinish] \<and>
     m_expectedContentLength r = length d \<and> m_state task \<in> {Running, Canceling}"
proof -
  obtain start task r d where run: "quiet_load bit_numbers = Inr start" "task_in (Asking r) start"
      "task_in (Delivered r d) task" "response_handler dispatchDidCompleteWithError Use start = Inr task"
    by (rule quiet_run)
  from run(2) task_step.answered [of start dispatchDidCompleteWithError Use]
  have "task_step dispatchDidCompleteWithError start (Inr task)" by (simp add: run(4) task_in_def)
  then have "task_reached dispatchDidCompleteWithError start task"
    by (rule task_reached.stepped [OF task_reached.started])
  from lcmd_outcomes [OF run(1) this] run(3) show ?thesis
    by (intro exI [of _ task] exI [of _ r] exI [of _ d]) (simp add: task_in_def)
qed

text \<open>
  C5 A started command task whose owner neither cancels it nor goes away reports its outcome: when an
  active timer fires and the client answers with \<open>Use\<close>, there is a point of the run from which on the
  client has been told of a failure or has received the response, all of its data and the end.
\<close>

theorem lcmd_delivers:
  assumes "NetworkLoad_initialize (Lcmd_sendRequest lib utf nl host) valid allowed path query port
      (NetworkDataTaskLcmd_fresh status code) = Inr (run 0)"
    and "fair_run dispatchDidCompleteWithError run"
  shows "\<exists>k. (\<forall>k'\<ge>k. run k' = run k) \<and>
    ((\<exists>f. f \<noteq> NoFailure \<and> client_calls (run k) = failure_call f) \<or>
     (\<exists>r d. client_calls (run k) = [DidReceiveResponse r, DidReceiveData d, DidFinish] \<and>
        m_expectedContentLength r = length d))"
proof -
  from lcmd.fair_run_delivers [OF assms [unfolded NetworkDataTaskLcmd_fresh_def]] obtain k ph
    where ph: "(\<exists>f. ph = Failed f) \<or> (\<exists>r d. ph = Delivered r d)" "task_in ph (run k)"
      and stays: "\<forall>k'\<ge>k. run k' = run k"
    by blast
  from ph have "(\<exists>f. f \<noteq> NoFailure \<and> client_calls (run k) = failure_call f) \<or>
     (\<exists>r d. client_calls (run k) = [DidReceiveResponse r, DidReceiveData d, DidFinish] \<and>
        m_expectedContentLength r = length d)"
    by (auto simp: task_in_def)
  with stays show ?thesis by blast
qed

theorem lcmd_delivers_witness:
  "\<exists>(run :: nat \<Rightarrow> lcmd_task) k r d. quiet_load bit_numbers = Inr (run 0) \<and> run 0 \<noteq> run k \<and>
     client_calls (run k) = [DidReceiveResponse r, DidReceiveData d, DidFinish] \<and>
     m_expectedContentLength r = length d"
proof -
  obtain start task r d where run: "quiet_load bit_numbers = Inr start" "task_in (Asking r) start"
      "m_state start = Running" "m_client start" "task_in (Delivered r d) task" "m_state task = Running"
      "m_client task" "response_handler dispatchDidCompleteWithError Use start = Inr task"
    by (rule quiet_run)
  define seq where "seq i = (if i = (0::nat) then start else task)" for i
  have "task_step dispatchDidCompleteWithError start (Inr task)"
    using run(2) task_step.answered [of start dispatchDidCompleteWithError Use] by (simp add: run(8) task_in_def)
  then have fair: "fair_run dispatchDidCompleteWithError seq"
    using run(2-8) by (auto simp: fair_run_def seq_def task_in_def)
  have load: "quiet_load bit_numbers = Inr (seq 0)" using run(1) by (simp only: seq_def simp_thms if_True)
  from lcmd_delivers [OF load fair] obtain k where k: "\<forall>k'\<ge>k. seq k' = seq k"
    and out: "(\<exists>f. f \<noteq> NoFailure \<and> client_calls (seq k) = failure_call f) \<or>
     (\<exists>r d. client_calls (seq k) = [DidReceiveResponse r, DidReceiveData d, DidFinish] \<and>
        m_expectedContentLength r = length d)"
    by (elim exE conjE)
  have "seq (Suc k) = seq k" using k [rule_format, of "Suc k"] by simp
  then have "seq k = task" by (simp add: seq_def split: if_splits)
  moreover have "start \<noteq> task" using run(2,5) by (auto simp: task_in_def)
  ultimately have "seq 0 \<noteq> seq k" by (simp add: seq_def)
  moreover have "client_calls (seq k) = [DidReceiveResponse r, DidReceiveData d, DidFinish]"
    "m_expectedContentLength r = length d"
    using out \<open>seq k = task\<close> run(5) by (simp_all add: task_in_def)
  ultimately show ?thesis using load by blast
qed

text \<open>
  C15 The response of a command task whose client goes away without cancelling it: answering it with
  \<open>Use\<close> dereferences the null client, while after a cancellation every answer is harmless.
\<close>

theorem lcmd_detached_answer:
  assumes "NetworkLoad_initialize (Lcmd_sendRequest lib utf nl host) True True path query port
      (NetworkDataTaskLcmd_fresh status code) = Inr start"
    and "m_state start = Running"
  shows "task_reached dispatchDidCompleteWithError start (clearClient start) \<and>
    task_step dispatchDidCompleteWithError (clearClient start) (Inl NullDereference) \<and>
    (\<forall>policy. \<exists>task. response_handler dispatchDidCompleteWithError policy (cancel (clearClient start)) = Inr task)"
proof -
  from lcmd.initialize_started [OF assms(1) [unfolded NetworkDataTaskLcmd_fresh_def]] obtain ph
    where ph: "task_in ph start" and client: "m_client start"
      and "ph \<in> insert (Waiting InvalidURLFailure) (insert (Waiting BlockedFailure) (range Asking))" by blast
  obtain task2 where t: "sending task2" "start = dispatchDidReceiveResponse task2"
    using Lcmd_sendRequest_dispatches [OF ready_sending [OF lcmd_running_facts(1)]] assms(1)
    unfolding lcmd_initialize by blast
  have "responseHandler (clearClient start)"
    using dispatch_asks(3) [OF t(1)] t(2) by (simp add: clearClient_def)
  then have "task_step dispatchDidCompleteWithError (clearClient start)
      (response_handler dispatchDidCompleteWithError Use (clearClient start))" by (rule task_step.answered)
  moreover have "response_handler dispatchDidCompleteWithError Use (clearClient start) = Inl NullDereference"
    using assms(2) by (simp add: response_handler_def clearClient_def)
  moreover have "task_reached dispatchDidCompleteWithError start (clearClient start)"
    by (rule task_reached.stepped [OF task_reached.started task_step.detached [OF client]])
  ultimately show ?thesis using assms(2) by (simp add: response_handler_def cancel_def clearClient_def)
qed

theorem lcmd_detached_answer_witness:
  "\<exists>start. quiet_load bit_numbers = Inr start \<and>
     task_step dispatchDidCompleteWithError (clearClient start) (Inl NullDereference)"
proof -
  obtain start r where start: "quiet_load bit_numbers = Inr start" "task_in (Asking r) start"
    "m_client start" "m_state start = Running" by (rule quiet_start)
  from lcmd_detached_answer [OF start(1,4)] start(1) show ?thesis by blast
qed

section \<open>A load from its URL to its text\<close>

lemma response_of_cache_control:
  assumes "m_response task = m_response (lcmd_running path query port s e)"
  shows "get_common (m_httpHeaderFields (response_of task)) HTTPHeaderName_CacheControl = Some (ascii ''no-cache'')"
  using assms
  by (simp add: response_of_def setHTTPHeaderField_def set_common_def get_common_def set_header_def
      get_header_def find_header_def lcmd_running_def createRequest_def NetworkDataTaskLcmd_fresh_def
      fresh_task_def HTTPHeaderMap_new_def Let_def)

end
