(* ===== verification/Spec2Isabelle.thy ===== *)
theory Spec2Isabelle
  imports Filter_Manager Gen_Breaks_Facts JSON_Facts WTF_UTF8 Request_Query HTTP_Header_Map Task_Lcmd
begin

text \<open>
  \<^bold>\<open>PurC-Fetcher: the local command task, its filters, the text breaker, JSON and the strings.\<close>

  PurC-Fetcher is the resource fetcher of the PurC interpreter, a network process derived from
  WebKit. Beside the network protocols it serves URLs whose resource is the output of a local
  command. A load starts a \<^emph>\<open>data task\<close>; the task reads the query of the URL, runs the command, and
  passes the lines it prints through a list of \<^emph>\<open>filters\<close> named in the query; a \<^emph>\<open>format\<close> turns every
  line into a JSON value, and the response is a JSON text with HTTP header fields. This development
  models that path from the URL to the text, and the parts of WTF (the base library under
  src/Source/WTF/wtf) it stands on.

  \<^bold>\<open>Conventions.\<close> A \<open>String\<close> is the list of its code units, a \<open>Vector\<close> a list, a \<open>HashMap\<close> a partial
  map, an \<open>int\<close> an HOL integer whose range is checked where the code computes with it, a \<open>double\<close>
  its 64-bit pattern. An operation that can crash, run out of bounds, overflow a signed integer or
  never end returns \<open>fault + 'a\<close> (theory \<open>Fetcher_Prelude\<close>); a theorem that an operation returns
  states \<open>Inr\<close>. ICU, GLib, the double-conversion library and the operating system are records of
  functions that the definitions take as an argument (\<open>unicode_lib\<close>, \<open>utf_lib\<close>, \<open>number_lib\<close>,
  \<open>lcmd_host\<close>); what a theorem needs of them is a hypothesis, and the witnesses use concrete records
  (\<open>ascii_lib\<close>, \<open>accent_lib\<close>, \<open>unicode_lib1\<close>, \<open>utf_lib1\<close>, \<open>bit_numbers\<close>, \<open>code_numbers\<close>,
  \<open>quiet_host\<close>). Whether a string is stored in 8-bit or 16-bit units is not part of its value, and the
  null string is the empty one except where the code tells them apart and the model has an option;
  the traces that filters print are left out.

  \<^bold>\<open>Theories and sources.\<close> Paths without a prefix are under src/Source.
  \<^item> \<open>Fetcher_Prelude\<close>: faults, results, the predicate \<open>yields\<close>, maps over results, bounds of \<open>int\<close>.
  \<^item> \<open>Unicode_Lib\<close>: the interface of ICU and GLib.
  \<^item> \<open>WTF_Text\<close>: WTF/wtf/ASCIICType.h and the searching, splitting and stripping of
    WTF/wtf/text/StringImpl.cpp and WTFString.cpp. The substring search with its running hash is
    equivalent to the first match, splitting to the separator-free pieces.
  \<^item> \<open>WTF_Number\<close>: WTF/wtf/text/StringToIntegerConversion.h and IntegerToStringConversion.h. What
    \<open>toInt\<close> reads on every text, and the round trip with printing.
  \<^item> \<open>WTF_UTF8\<close>: WTF/wtf/unicode/UTF8Conversion.cpp and the conversions of StringImpl.cpp and
    WTFString.cpp that call it, with the round trip on well-formed strings.
  \<^item> \<open>WTF_Vector\<close>: the operations of WTF/wtf/Vector.h that can fail, and the strided loop.
  \<^item> \<open>Filter_Select\<close>, \<open>Filters_Line\<close>, \<open>Filters_Column\<close>: the twenty filters under
    PurCFetcher/network/filter, each against a list-level specification, errors included. The
    locales \<open>line_splitter\<close> and \<open>column_filter\<close> hold what the filters of a kind share.
  \<^item> \<open>UChar_Breaker\<close>, \<open>Break_Tables\<close>, \<open>Gen_Breaks\<close>, \<open>Gen_Breaks_Facts\<close>: the Unicode text breaker of
    FilterBase.cpp. An iteration of \<open>genBreaks\<close> is a sequence of phases, which but for that of
    the graphemes interpret the locale \<open>break_phase\<close>; the invariant of the loop gives the size of the array the algorithm
    needs, the consistency of the attributes, the grapheme clusters of a text without Jamo by the
    general categories of its characters, and the sentence boundaries at separators.
  \<^item> \<open>JSON_Values\<close>, \<open>JSON_Facts\<close>: WTF/wtf/JSONValues.h and JSONValues.cpp. Writing and parsing are
    inverse, the parser returns on every text, the text is printable ASCII.
  \<^item> \<open>Filter_Format\<close>: FormatKeys.cpp and FormatArray.cpp.
  \<^item> \<open>Filter_Manager\<close>: CmdFilterManager.cpp. The manager is a state machine over \<open>addFilter\<close> and
    \<open>doFilter\<close>; its invariant holds in every reachable state, and a run refines the abstract
    pipeline of the filters that were added.
  \<^item> \<open>Request_Query\<close>: the percent-decoding of a query parameter and the substitution of parameters in
    a command line (PurCFetcher/network/NetworkDataTaskLcmd.cpp). A parameter is read back from every
    text that stands for its bytes; the substitution is a rewriting from left to right.
  \<^item> \<open>HTTP_Header_Names\<close>: PurCFetcher/auxiliary/HTTPHeaderNames.cpp, the perfect hash of the header
    names, which finds exactly the names it has.
  \<^item> \<open>HTTP_Header_Map\<close>: PurCFetcher/network/HTTPHeaderMap.cpp, which implements a map from names in any
    mixture of case; the locale \<open>header_vector\<close> is the contract of its two vectors.
  \<^item> \<open>Data_Task\<close>: PurCFetcher/network/NetworkDataTask.cpp and the start of a load in NetworkLoad.cpp:
    states, scheduled failures, the completion handler, cancellation and the loss of the client, as a
    step relation. The locale \<open>local_data_task\<close> is the contract of a task that answers without a
    network.
  \<^item> \<open>Task_Lcmd\<close>: NetworkDataTaskLcmd.cpp, an interpretation of that locale. What its client observes in
    every reachable state, and that a task that is not cancelled fails or delivers everything.
  \<^item> This theory: the theorem that joins them, from the URL to the parsed text.

  \<^bold>\<open>Loops and bounds.\<close> Every loop is a total function: structural recursion on the text that is
  left, or a measure. The strided loops of pick and cut, whose index need not grow, return
  \<open>SignedOverflow\<close>, the overflow of the index in which such a loop ends. Splitting at an empty
  separator, where the position stays, returns \<open>NonTermination\<close>. The JSON parser recurses to the
  depth limit of the source (\<open>stackLimit\<close>), which is its measure together with the length of the text.

  \<^bold>\<open>Not modelled.\<close> The database tasks, the HTTP backend (libsoup), the network process with its
  sessions, caches and storage, the resource loader, the IPC connections and generated message tables,
  the database wrapper and the C API are event-driven code around operating-system services or
  libraries outside the repository; a local command does not pass through them, except that its path,
  query and port come from the URL parser and its client is the resource loader, which are arguments
  and observed calls here. The double-conversion code under WTF/wtf/dtoa is a parameter. Memory
  management (reference counts, allocation, destructors), threads and logging have no counterpart in a
  model whose values are immutable. Of WTF only what the modelled code calls is translated.
\<close>

section \<open>A command from its URL to its text\<close>

text \<open>
  C1 A load of a local command: when the query can be read and the command prints bytes without a zero
  that contain a line, is not cancelled, and the pipeline of the filters in the query returns rows,
  then the load answers once, with status 404 when the shell did not find the command and 200 otherwise,
  announces the length of its text and forbids caching; and the text, parsed as JSON, is an object
  with the status, the message, the exit code and the rows.
\<close>

theorem lcmd_serves_command:
  assumes "Lcmd_prepare lib utf host (lcmd_running path query port s e) = Inr (task1, command)"
    and "popen host command = Inr (bytes, status)" and "\<And>i. \<not> cancels host i"
    and "list_all (\<lambda>b. 0 < b \<and> b < 256) bytes" and "length bytes \<le> MaxLength"
    and "lines_of bytes \<noteq> []"
    and "pipeline lib (m_langs (m_filterManager task1)) (filters_of (m_filterManager task1))
      (format_of (m_filterManager task1)) (lines_of bytes) = Inr (langs, rows)"
    and "utf16 (format_param (format_of (m_filterManager task1)))"
    and "writable nl (JInteger (exit_status status))" and "writable nl (JInteger (WEXITSTATUS status))"
  shows "\<exists>task r.
    NetworkLoad_initialize (Lcmd_sendRequest lib utf nl host) True True path query port
      (NetworkDataTaskLcmd_fresh s e) = Inr task \<and>
    client_calls task = [DidReceiveResponse r] \<and>
    m_httpStatusCode r = exit_status status \<and>
    m_expectedContentLength r = length (m_responseBuffer task) \<and>
    get_common (m_httpHeaderFields r) HTTPHeaderName_CacheControl = Some (ascii ''no-cache'') \<and>
    parseJSON lib nl (m_responseBuffer task) = Inr (Some (read_back nl (JObject
      (response_members (exit_status status) (exit_message status) (WEXITSTATUS status) rows))))"
proof -
  let ?task = "lcmd_running path query port s e"
  let ?json = "JObject (response_members (exit_status status) (exit_message status) (WEXITSTATUS status) rows)"
  have "mgr_wf (m_filterManager ?task)" by (simp add: lcmd_running_facts mgr_wf_new)
  from Lcmd_sendRequest_serves [OF lcmd_running_facts(1,2) this assms(1-5,7), of nl] assms(6)
  obtain task2 where t: "sending task2" "client_calls task2 = []" "m_response task2 = m_response ?task"
      "m_statusCode task2 = exit_status status" "m_responseBuffer task2 = toJSONString nl ?json"
    and l: "Lcmd_sendRequest lib utf nl host ?task = Inr (dispatchDidReceiveResponse task2)" by blast
  have "list_all (\<lambda>v. json_ok (Suc (Suc 997)) v \<and> writable nl v) rows"
    by (rule pipeline_rows_text [OF assms(7) lines_of_latin1 [OF assms(4)] assms(8)])
  moreover have "utf16 (exit_message status)" by (auto simp: exit_message_def utf16_def)
  ultimately have "parseJSON lib nl (toJSONString nl ?json) = Inr (Some (read_back nl ?json))"
    using response_members_json [of 997 nl rows "exit_message status"] assms(9,10)
    by (intro parse_written) (simp_all add: eval_nat_numeral)
  then show ?thesis
    using t(2,4) response_of_cache_control [OF t(3)]
    by (intro exI [of _ "dispatchDidReceiveResponse task2"] exI [of _ "response_of task2"])
      (simp add: lcmd_initialize l dispatch_asks(3) [OF t(1)] t(5))
qed

definition code_numbers :: number_lib where
  "code_numbers = \<lparr>appendNumber = \<lambda>d. if d = 200 then [50, 48, 48] else [48],
     charactersToDouble = \<lambda>w. Some (if w = [50, 48, 48] then 200 else 0), double_of_int = word_of_int\<rparr>"

lemma code_numbers_writable:
  "writable code_numbers (JInteger 200)" "writable code_numbers (JInteger 0)"
proof -
  have "json_number [50, 48, 48]" unfolding json_number_def
    by (intro exI [of _ "[]"] exI [of _ "[50, 48, 48]"]) (simp add: digits_def frac_part_def exp_part_def)
  then show "writable code_numbers (JInteger 200)" "writable code_numbers (JInteger 0)"
    by (simp_all add: code_numbers_def number_ok_def digit_json_number)
qed

theorem lcmd_serves_command_witness:
  "\<exists>task. quiet_load code_numbers = Inr task \<and>
     parseJSON unicode_lib1 code_numbers (m_responseBuffer task) =
       Inr (Some (read_back code_numbers (JObject
         (response_members 200 [] 0 [JObject [(ascii ''C0'', JString [97])]]))))"
proof -
  let ?task = "lcmd_running (ascii ''/bin/ls'') None False 0 0"
  obtain command where
    p: "Lcmd_prepare unicode_lib1 utf_lib1 quiet_host ?task = Inr (?task\<lparr>m_readBuffer := []\<rparr>, command)"
    by (simp add: Lcmd_prepare_def lcmd_running_facts Let_def)
  have w: "WEXITSTATUS 0 = 0" "exit_status 0 = 200" "exit_message 0 = []"
    by (simp_all add: WEXITSTATUS_def exit_status_def exit_message_def)
  have keys: "format_param (format_of CmdFilterManager_new) = []"
    by (simp add: format_of_def CmdFilterManager_new_def)
  have "\<exists>task r. quiet_load code_numbers = Inr task \<and> client_calls task = [DidReceiveResponse r] \<and>
    m_httpStatusCode r = exit_status 0 \<and> m_expectedContentLength r = length (m_responseBuffer task) \<and>
    get_common (m_httpHeaderFields r) HTTPHeaderName_CacheControl = Some (ascii ''no-cache'') \<and>
    parseJSON unicode_lib1 code_numbers (m_responseBuffer task) = Inr (Some (read_back code_numbers (JObject
      (response_members (exit_status 0) (exit_message 0) (WEXITSTATUS 0) [JObject [(ascii ''C0'', JString [97])]]))))"
    by (rule lcmd_serves_command [OF p, of "[97, 10]" 0 "m_langs CmdFilterManager_new"])
      (simp_all add: quiet_host_def MaxLength_def lines_of_quiet lcmd_running_facts keys w utf16_def
        quiet_pipeline [unfolded ascii_simps] code_numbers_writable [simplified])
  then show ?thesis unfolding w by blast
qed

end
